(* ===== verification/Prelude.thy ===== *)
theory Prelude
  imports Main "HOL-Library.Multiset" "HOL-Library.Sublist" "HOL-Library.Char_ord"
    "HOL-Library.List_Lexorder"
begin

text \<open>
  Shared vocabulary of the book-service development: the names of the model's
  basic types, the rule collections the component theories fill, and the
  generic facts on lists and strings that the components share (JavaScript's
  last-element read, ASCII case folding for the case-insensitive search, and
  removal/insertion lemmas used by the array update operators).
\<close>

section \<open>Names and rule collections\<close>

type_synonym email = string
type_synonym object_id = string

named_theorems service_simps "equations that evaluate the service operations of the book module"
named_theorems list_field_simps "equations of the membership-list accessors and updaters"

section \<open>JavaScript array reads\<close>

text \<open>
  \<open>payload[payload.length - 1]\<close> reads the last element of a JavaScript array and
  yields \<open>undefined\<close> on the empty array; \<open>None\<close> stands for \<open>undefined\<close>.
\<close>

definition last_opt :: "'a list \<Rightarrow> 'a option" where
  "last_opt xs = (if xs = [] then None else Some (last xs))"

lemma last_opt_Nil [simp]: "last_opt [] = None"
  by (simp add: last_opt_def)

lemma last_opt_single [simp]: "last_opt [x] = Some x"
  by (simp add: last_opt_def)

lemma last_opt_snoc [simp]: "last_opt (xs @ [x]) = Some x"
  by (simp add: last_opt_def)

lemma last_opt_Some_iff: "last_opt xs = Some x \<longleftrightarrow> (\<exists>ys. xs = ys @ [x])"
  by (cases xs rule: rev_cases) (auto simp: last_opt_def)

lemma last_opt_Some_mem: "last_opt xs = Some x \<Longrightarrow> x \<in> set xs"
  by (auto simp: last_opt_Some_iff)

section \<open>ASCII case folding\<close>

text \<open>
  The case-insensitive match of the store (regular-expression option \<open>i\<close>) is
  modelled on ASCII letters: \<open>A\<close>..\<open>Z\<close> fold to \<open>a\<close>..\<open>z\<close>, every other
  character is its own fold.
\<close>

definition lower_char :: "char \<Rightarrow> char" where
  "lower_char c =
     (if CHR ''A'' \<le> c \<and> c \<le> CHR ''Z'' then char_of (of_char c + (32::nat)) else c)"

definition lower :: "string \<Rightarrow> string" where
  "lower s = map lower_char s"

lemma lower_Nil [simp]: "lower [] = []"
  by (simp add: lower_def)

lemma lower_Cons [simp]: "lower (c # s) = lower_char c # lower s"
  by (simp add: lower_def)

lemma lower_append [simp]: "lower (s @ t) = lower s @ lower t"
  by (simp add: lower_def)

lemma length_lower [simp]: "length (lower s) = length s"
  by (simp add: lower_def)

section \<open>Lists used as sets\<close>

lemma removeAll_idem [simp]: "removeAll x (removeAll x xs) = removeAll x xs"
  by (induction xs) auto


lemma find_append_list:
  "find P (xs @ ys) = (case find P xs of None \<Rightarrow> find P ys | Some x \<Rightarrow> Some x)"
  by (induction xs) auto

end
