(* ===== verification/Document.thy ===== *)
theory Document
  imports Prelude
begin

text \<open>
  The data of the book module: the \<open>IBook\<close> and \<open>IBookReview\<close> shapes that
  \<open>book.service.ts\<close> reads and writes and that \<open>book.validation.ts\<close> checks, the
  stored document (the same fields plus the store-assigned \<open>_id\<close>), the four
  membership lists addressed by name, the view of a document as a store value
  (what a query predicate or a sort key reads from a field path), and the
  ObjectId strings that identify documents.
\<close>

section \<open>Books and reviews\<close>

text \<open>A review as the create schema describes it: \<open>{email, comment}\<close>.\<close>

record review =
  email :: string
  comment :: string

text \<open>
  \<open>IBook\<close>: the fields a client supplies; the stored document extends it with the
  identifier that the store assigns on insertion.
\<close>

record book_fields =
  title :: string
  author :: string
  genre :: string
  publication_date :: string
  reviews :: "review list"
  wishlist :: "email list"
  read_soon :: "email list"
  currently_reading :: "email list"
  finished :: "email list"

record book = book_fields +
  book_id :: object_id

section \<open>The membership lists\<close>

text \<open>
  The four arrays of user emails that the list operations of the service touch,
  addressed by their field names.
\<close>

datatype list_field = Wishlist | ReadSoon | CurrentlyReading | Finished

fun list_field_name :: "list_field \<Rightarrow> string" where
  "list_field_name Wishlist = ''wishlist''"
| "list_field_name ReadSoon = ''read_soon''"
| "list_field_name CurrentlyReading = ''currently_reading''"
| "list_field_name Finished = ''finished''"

fun get_list :: "list_field \<Rightarrow> 'a book_fields_scheme \<Rightarrow> email list" where
  "get_list Wishlist b = wishlist b"
| "get_list ReadSoon b = read_soon b"
| "get_list CurrentlyReading b = currently_reading b"
| "get_list Finished b = finished b"

fun map_list :: "list_field \<Rightarrow> (email list \<Rightarrow> email list) \<Rightarrow>
    'a book_fields_scheme \<Rightarrow> 'a book_fields_scheme" where
  "map_list Wishlist f b = b\<lparr>wishlist := f (wishlist b)\<rparr>"
| "map_list ReadSoon f b = b\<lparr>read_soon := f (read_soon b)\<rparr>"
| "map_list CurrentlyReading f b = b\<lparr>currently_reading := f (currently_reading b)\<rparr>"
| "map_list Finished f b = b\<lparr>finished := f (finished b)\<rparr>"

section \<open>ObjectId strings\<close>

text \<open>
  Mongoose casts the \<open>id\<close> argument of \<open>findById\<close>, \<open>findOneAndUpdate({_id: id})\<close>
  and \<open>findByIdAndDelete\<close> to an ObjectId: a string of 24 hexadecimal digits is
  accepted (and read case-insensitively), anything else raises a \<open>CastError\<close>.
  This is bson 6 and later; earlier versions also accept any 12-character string
  as the ObjectId of its bytes, so the theorems about refused identifiers assume a
  length other than 12. Identifiers are kept in their canonical lower-case
  hexadecimal form.
\<close>

definition hex_digits :: string where
  "hex_digits = ''0123456789abcdef''"

definition is_hex_char :: "char \<Rightarrow> bool" where
  "is_hex_char c \<longleftrightarrow> lower_char c \<in> set hex_digits"

definition valid_object_id :: "string \<Rightarrow> bool" where
  "valid_object_id s \<longleftrightarrow> length s = 24 \<and> list_all is_hex_char s"

definition cast_object_id :: "string \<Rightarrow> object_id option" where
  "cast_object_id s = (if valid_object_id s then Some (lower s) else None)"

text \<open>The store's fresh identifiers: the allocation counter in 24 hexadecimal digits.\<close>

fun hex_of_nat :: "nat \<Rightarrow> nat \<Rightarrow> string" where
  "hex_of_nat 0 n = []"
| "hex_of_nat (Suc w) n = hex_of_nat w (n div 16) @ [hex_digits ! (n mod 16)]"

definition oid_of_nat :: "nat \<Rightarrow> object_id" where
  "oid_of_nat n = hex_of_nat 24 n"

text \<open>Reading a hexadecimal string back as a number: the inverse of the encoding.\<close>

definition hex_val :: "char \<Rightarrow> nat" where
  "hex_val c = length (takeWhile (\<lambda>d. d \<noteq> c) hex_digits)"

definition nat_of_hex :: "string \<Rightarrow> nat" where
  "nat_of_hex s = foldl (\<lambda>acc c. 16 * acc + hex_val c) 0 s"

section \<open>Documents as store values\<close>

text \<open>
  What a query predicate or a sort key sees at a top-level field path: strings,
  arrays, embedded documents, and null for a path the document does not have.
  The identifier is seen as its hexadecimal string.
\<close>

datatype mvalue = MNull | MStr string | MArr "mvalue list" | MDoc "(string \<times> mvalue) list"

definition review_value :: "review \<Rightarrow> mvalue" where
  "review_value r = MDoc [(''email'', MStr (email r)), (''comment'', MStr (comment r))]"

definition field_value :: "book \<Rightarrow> string \<Rightarrow> mvalue" where
  "field_value b f =
     (if f = ''_id'' then MStr (book_id b)
      else if f = ''title'' then MStr (title b)
      else if f = ''author'' then MStr (author b)
      else if f = ''genre'' then MStr (genre b)
      else if f = ''publication_date'' then MStr (publication_date b)
      else if f = ''reviews'' then MArr (map review_value (reviews b))
      else if f = ''wishlist'' then MArr (map MStr (wishlist b))
      else if f = ''read_soon'' then MArr (map MStr (read_soon b))
      else if f = ''currently_reading'' then MArr (map MStr (currently_reading b))
      else if f = ''finished'' then MArr (map MStr (finished b))
      else MNull)"


section \<open>Lemmas on the membership lists\<close>

declare get_list.simps [list_field_simps] map_list.simps [list_field_simps]

lemma get_map_list [simp]:
  "get_list g (map_list f h b) = (if g = f then h (get_list g b) else get_list g b)"
  by (cases g; cases f) simp_all

lemma map_list_other_fields [simp]:
  "title (map_list f h b) = title b" "author (map_list f h b) = author b"
  "genre (map_list f h b) = genre b" "publication_date (map_list f h b) = publication_date b"
  "reviews (map_list f h b) = reviews b" "book_id (map_list f h b') = book_id b'"
  by (cases f; simp)+

lemma map_list_commute:
  "f \<noteq> g \<Longrightarrow> map_list f h (map_list g k b) = map_list g k (map_list f h b)"
  by (cases f; cases g) simp_all

lemma map_list_id [simp]: "map_list f (\<lambda>xs. xs) b = b"
  by (cases f) simp_all

lemma map_list_comp [simp]: "map_list f h (map_list f k b) = map_list f (h \<circ> k) b"
  by (cases f) simp_all

lemma list_field_name_inj [simp]: "list_field_name f = list_field_name g \<longleftrightarrow> f = g"
  by (cases f; cases g) simp_all

section \<open>Lemmas on ObjectIds\<close>

lemma lower_char_hex: "c \<in> set hex_digits \<Longrightarrow> lower_char c = c"
  by (auto simp: hex_digits_def lower_char_def)

lemma length_hex_of_nat [simp]: "length (hex_of_nat w n) = w"
  by (induction w arbitrary: n) auto

lemma hex_of_nat_digits: "set (hex_of_nat w n) \<subseteq> set hex_digits"
proof (induction w arbitrary: n)
  case 0 then show ?case by simp
next
  case (Suc w)
  have "n mod 16 < length hex_digits" by (simp add: hex_digits_def)
  then have "hex_digits ! (n mod 16) \<in> set hex_digits" by (rule nth_mem)
  with Suc.IH[of "n div 16"] show ?case by simp
qed

lemma hex_val_table: "list_all (\<lambda>i. hex_val (hex_digits ! i) = i) [0..<16]"
  by code_simp

lemma hex_val_digit [simp]: "i < 16 \<Longrightarrow> hex_val (hex_digits ! i) = i"
  using hex_val_table by (simp add: list_all_iff)

lemma nat_of_hex_snoc [simp]: "nat_of_hex (s @ [c]) = 16 * nat_of_hex s + hex_val c"
  by (simp add: nat_of_hex_def)

lemma nat_of_hex_of_nat: "nat_of_hex (hex_of_nat w n) = n mod 16 ^ w"
proof (induction w arbitrary: n)
  case 0 then show ?case by (simp add: nat_of_hex_def)
next
  case (Suc w)
  have "n mod 16 ^ Suc w = 16 * (n div 16 mod 16 ^ w) + n mod 16"
    by (simp add: mod_mult2_eq)
  with Suc.IH[of "n div 16"] show ?case by simp
qed

lemma hex_of_nat_inj: "hex_of_nat w n = hex_of_nat w m \<Longrightarrow> n < 16 ^ w \<Longrightarrow> m < 16 ^ w \<Longrightarrow> n = m"
  by (metis nat_of_hex_of_nat mod_less)

lemma lower_hex_of_nat: "lower (hex_of_nat w n) = hex_of_nat w n"
  using hex_of_nat_digits[of w n] by (auto simp: lower_def lower_char_hex intro!: map_idI)

lemma valid_oid_of_nat: "valid_object_id (oid_of_nat n)"
proof -
  have "\<forall>c \<in> set (oid_of_nat n). is_hex_char c"
    using hex_of_nat_digits[of 24 n]
    by (auto simp: oid_of_nat_def is_hex_char_def lower_char_hex)
  then show ?thesis by (simp add: valid_object_id_def list_all_iff oid_of_nat_def)
qed

lemma cast_oid_of_nat: "cast_object_id (oid_of_nat n) = Some (oid_of_nat n)"
  using valid_oid_of_nat[of n] by (simp add: cast_object_id_def oid_of_nat_def lower_hex_of_nat)

end
