(* ===== verification/Store.thy ===== *)
theory Store
  imports Document
begin

text \<open>
  The document store behind \<open>Book\<close> (Mongoose over MongoDB), as far as the service
  uses it: the collection as a list of documents in natural (insertion) order
  with an allocation counter for fresh ObjectIds, the update operators
  (\<open>$set\<close> of a partial document, \<open>$push\<close>, \<open>$pull\<close>, \<open>$addToSet\<close> with \<open>$each\<close>)
  and the by-id operations \<open>findById\<close>, \<open>findOneAndUpdate({_id: id}, ..., {new: true})\<close>,
  \<open>create\<close> and \<open>findByIdAndDelete\<close>. The store is not part of the repository;
  its behaviour is modelled from the specification's description of it
  (section 6) and the documented MongoDB semantics of these operators.
  Failures the store raises are values of \<open>store_error\<close>.
\<close>

section \<open>Store state and errors\<close>

datatype store_error =
    CastError string        \<comment> \<open>the id is not a 24-digit hexadecimal ObjectId\<close>
  | ConflictingUpdate string \<comment> \<open>two operators of one update touch the same path\<close>
  | BadValue string         \<comment> \<open>a malformed query: empty \<open>$and\<close>/\<open>$or\<close>, bad pattern, negative skip\<close>

record book_store =
  books :: "book list"
  next_oid :: nat

definition empty_store :: book_store where
  "empty_store = \<lparr>books = [], next_oid = 0\<rparr>"

section \<open>Array operators\<close>

text \<open>
  \<open>$addToSet: {f: {$each: xs}}\<close> appends the elements of \<open>xs\<close> in order, each only
  if the array does not hold it yet (duplicates inside \<open>xs\<close> are added once).
  Mongoose rewrites \<open>$addToSet: {f: xs}\<close> with an array \<open>xs\<close> on an array-of-strings
  path into this \<open>$each\<close> form. \<open>$pull: {f: v}\<close> removes every element equal to
  \<open>v\<close>, which is \<open>removeAll\<close>.
\<close>

fun add_each_to_set :: "'a list \<Rightarrow> 'a list \<Rightarrow> 'a list" where
  "add_each_to_set arr [] = arr"
| "add_each_to_set arr (x # xs) = add_each_to_set (if x \<in> set arr then arr else arr @ [x]) xs"

section \<open>Update documents\<close>

text \<open>
  \<open>Partial<IBook>\<close> as passed to \<open>findOneAndUpdate\<close>: Mongoose treats the fields of
  a plain object as \<open>$set\<close> of exactly the fields that are present.
\<close>

record book_patch =
  set_title :: "string option"
  set_author :: "string option"
  set_genre :: "string option"
  set_publication_date :: "string option"
  set_reviews :: "review list option"
  set_wishlist :: "email list option"
  set_read_soon :: "email list option"
  set_currently_reading :: "email list option"
  set_finished :: "email list option"

definition empty_patch :: book_patch where
  "empty_patch = \<lparr>set_title = None, set_author = None, set_genre = None,
     set_publication_date = None, set_reviews = None, set_wishlist = None,
     set_read_soon = None, set_currently_reading = None, set_finished = None\<rparr>"

definition apply_patch :: "book_patch \<Rightarrow> 'a book_fields_scheme \<Rightarrow> 'a book_fields_scheme" where
  "apply_patch p b = b\<lparr>
     title := case_option (title b) id (set_title p),
     author := case_option (author b) id (set_author p),
     genre := case_option (genre b) id (set_genre p),
     publication_date := case_option (publication_date b) id (set_publication_date p),
     reviews := case_option (reviews b) id (set_reviews p),
     wishlist := case_option (wishlist b) id (set_wishlist p),
     read_soon := case_option (read_soon b) id (set_read_soon p),
     currently_reading := case_option (currently_reading b) id (set_currently_reading p),
     finished := case_option (finished b) id (set_finished p)\<rparr>"

definition patch_paths :: "book_patch \<Rightarrow> string list" where
  "patch_paths p =
     (if set_title p = None then [] else [''title'']) @
     (if set_author p = None then [] else [''author'']) @
     (if set_genre p = None then [] else [''genre'']) @
     (if set_publication_date p = None then [] else [''publication_date'']) @
     (if set_reviews p = None then [] else [''reviews'']) @
     (if set_wishlist p = None then [] else [''wishlist'']) @
     (if set_read_soon p = None then [] else [''read_soon'']) @
     (if set_currently_reading p = None then [] else [''currently_reading'']) @
     (if set_finished p = None then [] else [''finished''])"

text \<open>
  One operator applied to one path. A \<open>$pull\<close> whose value is \<open>undefined\<close> (the
  last element of an empty payload) is dropped by Mongoose before the update is
  sent, so it touches no path and changes nothing.
\<close>

datatype update_entry =
    USet book_patch
  | UPush review
  | UPull list_field "email option"
  | UAddToSet list_field "email list"

fun entry_paths :: "update_entry \<Rightarrow> string list" where
  "entry_paths (USet p) = patch_paths p"
| "entry_paths (UPush r) = [''reviews'']"
| "entry_paths (UPull f None) = []"
| "entry_paths (UPull f (Some v)) = [list_field_name f]"
| "entry_paths (UAddToSet f xs) = [list_field_name f]"

fun apply_entry :: "update_entry \<Rightarrow> book \<Rightarrow> book" where
  "apply_entry (USet p) b = apply_patch p b"
| "apply_entry (UPush r) b = b\<lparr>reviews := reviews b @ [r]\<rparr>"
| "apply_entry (UPull f None) b = b"
| "apply_entry (UPull f (Some v)) b = map_list f (removeAll v) b"
| "apply_entry (UAddToSet f xs) b = map_list f (\<lambda>arr. add_each_to_set arr xs) b"

definition apply_update :: "update_entry list \<Rightarrow> book \<Rightarrow> book" where
  "apply_update u b = fold apply_entry u b"

definition update_paths :: "update_entry list \<Rightarrow> string list" where
  "update_paths u = concat (map entry_paths u)"

text \<open>The store rejects an update in which two operators name the same path.\<close>

definition update_conflict :: "update_entry list \<Rightarrow> bool" where
  "update_conflict u \<longleftrightarrow> \<not> distinct (update_paths u)"

section \<open>Operations by identifier\<close>

definition lookup_id :: "object_id \<Rightarrow> book_store \<Rightarrow> book option" where
  "lookup_id oid st = find (\<lambda>b. book_id b = oid) (books st)"

fun update_by_id :: "object_id \<Rightarrow> (book \<Rightarrow> book) \<Rightarrow> book list \<Rightarrow> book list" where
  "update_by_id oid f [] = []"
| "update_by_id oid f (b # bs) =
     (if book_id b = oid then f b # bs else b # update_by_id oid f bs)"

fun remove_by_id :: "object_id \<Rightarrow> book list \<Rightarrow> book list" where
  "remove_by_id oid [] = []"
| "remove_by_id oid (b # bs) = (if book_id b = oid then bs else b # remove_by_id oid bs)"

text \<open>\<open>Book.findById(id)\<close>: the document, \<open>null\<close>, or a cast error.\<close>

definition find_by_id :: "string \<Rightarrow> book_store \<Rightarrow> store_error + book option" where
  "find_by_id s st =
     (case cast_object_id s of
        None \<Rightarrow> Inl (CastError s)
      | Some oid \<Rightarrow> Inr (lookup_id oid st))"

text \<open>
  \<open>Book.findOneAndUpdate({_id: id}, u, {new: true})\<close>: one atomic step that
  applies every operator of \<open>u\<close> to the matched document and returns the
  document after the update, or \<open>null\<close> when nothing matches.
\<close>

definition find_one_and_update ::
    "string \<Rightarrow> update_entry list \<Rightarrow> book_store \<Rightarrow> (store_error + book option) \<times> book_store" where
  "find_one_and_update s u st =
     (case cast_object_id s of
        None \<Rightarrow> (Inl (CastError s), st)
      | Some oid \<Rightarrow>
          if update_conflict u then (Inl (ConflictingUpdate s), st)
          else (case lookup_id oid st of
                  None \<Rightarrow> (Inr None, st)
                | Some b \<Rightarrow>
                    (Inr (Some (apply_update u b)),
                     st\<lparr>books := update_by_id oid (apply_update u) (books st)\<rparr>)))"

text \<open>\<open>Book.create(payload)\<close>: the payload stored under a fresh ObjectId, appended.\<close>

definition make_book :: "object_id \<Rightarrow> book_fields \<Rightarrow> book" where
  "make_book oid p = book_fields.extend p (book.fields oid)"

definition insert_book :: "book_fields \<Rightarrow> book_store \<Rightarrow> book \<times> book_store" where
  "insert_book p st =
     (let b = make_book (oid_of_nat (next_oid st)) p
      in (b, st\<lparr>books := books st @ [b], next_oid := Suc (next_oid st)\<rparr>))"

text \<open>\<open>Book.findByIdAndDelete(id)\<close>: the removed document as it was, or \<open>null\<close>.\<close>

definition find_by_id_and_delete ::
    "string \<Rightarrow> book_store \<Rightarrow> (store_error + book option) \<times> book_store" where
  "find_by_id_and_delete s st =
     (case cast_object_id s of
        None \<Rightarrow> (Inl (CastError s), st)
      | Some oid \<Rightarrow>
          (case lookup_id oid st of
             None \<Rightarrow> (Inr None, st)
           | Some b \<Rightarrow> (Inr (Some b), st\<lparr>books := remove_by_id oid (books st)\<rparr>)))"


section \<open>Well-formed stores\<close>

text \<open>
  Identifiers are unique and were all allocated by the store: each is the
  encoding of a counter value below the current counter, which stays within the
  24-digit range so that encodings do not repeat.
\<close>

definition store_wf :: "book_store \<Rightarrow> bool" where
  "store_wf st \<longleftrightarrow>
     distinct (map book_id (books st)) \<and> next_oid st \<le> 16 ^ 24 \<and>
     set (map book_id (books st)) \<subseteq> oid_of_nat ` {..<next_oid st}"

section \<open>Lemmas on the array operators\<close>

lemma set_add_each_to_set [simp]: "set (add_each_to_set arr xs) = set arr \<union> set xs"
  by (induction arr xs rule: add_each_to_set.induct) auto

lemma distinct_add_each_to_set [intro]: "distinct arr \<Longrightarrow> distinct (add_each_to_set arr xs)"
  by (induction arr xs rule: add_each_to_set.induct) auto

lemma add_each_to_set_prefix: "\<exists>ys. add_each_to_set arr xs = arr @ ys"
proof (induction arr xs rule: add_each_to_set.induct)
  case (1 arr)
  show ?case by simp
next
  case (2 arr x xs)
  then show ?case by (cases "x \<in> set arr") (auto simp: append_assoc)
qed

lemma add_each_to_set_subset [simp]: "set xs \<subseteq> set arr \<Longrightarrow> add_each_to_set arr xs = arr"
  by (induction arr xs rule: add_each_to_set.induct) auto

lemma add_each_to_set_idem [simp]:
  "add_each_to_set (add_each_to_set arr xs) xs = add_each_to_set arr xs"
  by simp

section \<open>Lemmas on update documents\<close>

lemma book_id_apply_patch [simp]: "book_id (apply_patch p b) = book_id b"
  by (simp add: apply_patch_def)

lemma book_id_apply_entry [simp]: "book_id (apply_entry e b) = book_id b"
  by (cases "(e, b)" rule: apply_entry.cases) simp_all

lemma book_id_apply_update [simp]: "book_id (apply_update u b) = book_id b"
  by (induction u arbitrary: b) (simp_all add: apply_update_def)

lemma apply_update_Nil [simp]: "apply_update [] b = b"
  by (simp add: apply_update_def)

lemma apply_update_Cons [simp]: "apply_update (e # u) b = apply_update u (apply_entry e b)"
  by (simp add: apply_update_def)

lemma apply_patch_empty [simp]: "apply_patch empty_patch b = b"
  by (simp add: apply_patch_def empty_patch_def)

lemma patch_paths_empty [simp]: "patch_paths empty_patch = []"
  by (simp add: patch_paths_def empty_patch_def)

section \<open>Lemmas on the by-identifier operations\<close>

lemma find_update_by_id:
  assumes "\<And>b. book_id (f b) = book_id b"
  shows "find (\<lambda>b. book_id b = k) (update_by_id oid f bs) =
    (if k = oid then map_option f (find (\<lambda>b. book_id b = oid) bs)
     else find (\<lambda>b. book_id b = k) bs)"
  by (induction bs) (auto simp: assms)

lemma ids_update_by_id [simp]:
  "(\<And>b. book_id (f b) = book_id b) \<Longrightarrow> map book_id (update_by_id oid f bs) = map book_id bs"
  by (induction bs) auto

lemma update_by_id_absent [simp]:
  "oid \<notin> book_id ` set bs \<Longrightarrow> update_by_id oid f bs = bs"
  by (induction bs) auto

lemma update_by_id_other: "b \<in> set bs \<Longrightarrow> book_id b \<noteq> oid \<Longrightarrow> b \<in> set (update_by_id oid f bs)"
  by (induction bs) auto

lemma ids_remove_by_id [simp]: "map book_id (remove_by_id oid bs) = remove1 oid (map book_id bs)"
  by (induction bs) auto

lemma find_remove_by_id:
  "distinct (map book_id bs) \<Longrightarrow> find (\<lambda>b. book_id b = k) (remove_by_id oid bs) =
    (if k = oid then None else find (\<lambda>b. book_id b = k) bs)"
proof (induction bs)
  case Nil
  then show ?case by simp
next
  case (Cons b bs)
  then show ?case by (auto simp: find_None_iff image_iff)
qed

lemma lookup_id_update:
  "lookup_id k (st\<lparr>books := update_by_id oid (apply_update u) (books st)\<rparr>) =
    (if k = oid then map_option (apply_update u) (lookup_id oid st) else lookup_id k st)"
  by (simp add: lookup_id_def find_update_by_id)

lemma lookup_id_Some: "lookup_id oid st = Some b \<Longrightarrow> b \<in> set (books st) \<and> book_id b = oid"
  by (auto simp: lookup_id_def find_Some_iff)

lemma lookup_id_None: "lookup_id oid st = None \<longleftrightarrow> oid \<notin> book_id ` set (books st)"
  by (auto simp: lookup_id_def find_None_iff)

text \<open>
  The outcomes of \<open>findOneAndUpdate\<close>: an error or \<open>null\<close> leaves the store as it
  was; a match returns the updated document, which is then what the store holds.
\<close>

lemma find_one_and_update_Inl:
  "find_one_and_update s u st = (Inl err, st') \<Longrightarrow> st' = st"
  by (auto simp: find_one_and_update_def split: option.splits if_splits)

lemma find_one_and_update_None:
  "find_one_and_update s u st = (Inr None, st') \<Longrightarrow>
     st' = st \<and> (\<exists>oid. cast_object_id s = Some oid \<and> lookup_id oid st = None)"
  by (auto simp: find_one_and_update_def split: option.splits if_splits)

lemma find_one_and_update_Some:
  "find_one_and_update s u st = (Inr (Some b'), st') \<Longrightarrow>
     \<exists>oid b. cast_object_id s = Some oid \<and> lookup_id oid st = Some b \<and> \<not> update_conflict u \<and>
       b' = apply_update u b \<and> st' = st\<lparr>books := update_by_id oid (apply_update u) (books st)\<rparr>"
  by (auto simp: find_one_and_update_def split: option.splits if_splits)

lemma find_one_and_update_found:
  "cast_object_id s = Some oid \<Longrightarrow> \<not> update_conflict u \<Longrightarrow> lookup_id oid st = Some b \<Longrightarrow>
     find_one_and_update s u st =
       (Inr (Some (apply_update u b)), st\<lparr>books := update_by_id oid (apply_update u) (books st)\<rparr>)"
  by (simp add: find_one_and_update_def)

lemma find_one_and_update_not_found:
  "cast_object_id s = Some oid \<Longrightarrow> \<not> update_conflict u \<Longrightarrow> lookup_id oid st = None \<Longrightarrow>
     find_one_and_update s u st = (Inr None, st)"
  by (simp add: find_one_and_update_def)

lemma find_one_and_update_cast_error:
  "cast_object_id s = None \<Longrightarrow> find_one_and_update s u st = (Inl (CastError s), st)"
  by (simp add: find_one_and_update_def)

lemma find_one_and_update_conflict:
  "fst (find_one_and_update s u st) = Inl (ConflictingUpdate x) \<Longrightarrow> update_conflict u"
  by (auto simp: find_one_and_update_def split: option.splits if_splits)

lemma find_one_and_update_errors:
  "fst (find_one_and_update s u st) = Inl err \<Longrightarrow>
     err = CastError s \<or> (err = ConflictingUpdate s \<and> update_conflict u)"
  by (auto simp: find_one_and_update_def split: option.splits if_splits)

lemma find_by_id_and_delete_Inl:
  "fst (find_by_id_and_delete s st) = Inl err \<Longrightarrow>
     err = CastError s \<and> snd (find_by_id_and_delete s st) = st"
  by (auto simp: find_by_id_and_delete_def split: option.splits)

text \<open>With \<open>{new: true}\<close> the returned document is the one the store now holds.\<close>

lemma find_one_and_update_stored:
  "find_one_and_update s u st = (Inr (Some b'), st') \<Longrightarrow> find_by_id s st' = Inr (Some b')"
  by (auto simp: find_by_id_def lookup_id_update dest!: find_one_and_update_Some)

text \<open>Documents with another identifier are untouched.\<close>

lemma find_one_and_update_frame:
  "find_one_and_update s u st = (r, st') \<Longrightarrow> cast_object_id s \<noteq> Some k \<Longrightarrow>
     lookup_id k st' = lookup_id k st"
  by (auto simp: find_one_and_update_def lookup_id_update split: option.splits if_splits)

lemma next_oid_find_one_and_update [simp]:
  "next_oid (snd (find_one_and_update s u st)) = next_oid st"
  by (simp add: find_one_and_update_def split: option.splits)

lemma find_by_id_eq:
  "find_by_id s st = (case cast_object_id s of None \<Rightarrow> Inl (CastError s) | Some oid \<Rightarrow> Inr (lookup_id oid st))"
  by (simp add: find_by_id_def)


lemma update_by_id_twice:
  "(\<And>b. book_id (f b) = book_id b) \<Longrightarrow>
     update_by_id oid f (update_by_id oid f bs) = update_by_id oid (f \<circ> f) bs"
  by (induction bs) auto

lemma distinct_patch_paths: "distinct (patch_paths p)"
  by (simp add: patch_paths_def)

lemma set_no_conflict [simp]: "\<not> update_conflict [USet p]"
  by (simp add: update_conflict_def update_paths_def distinct_patch_paths)

lemma push_no_conflict [simp]: "\<not> update_conflict [UPush r]"
  by (simp add: update_conflict_def update_paths_def)

lemma truncate_make_book [simp]: "book_fields.truncate (make_book oid p) = p"
  by (simp add: make_book_def book_fields.defs book.defs)

lemma book_id_make_book [simp]: "book_id (make_book oid p) = oid"
  by (simp add: make_book_def book_fields.defs book.defs)

lemma lookup_id_insert:
  "lookup_id k (snd (insert_book p st)) =
     (case lookup_id k st of
        Some b \<Rightarrow> Some b
      | None \<Rightarrow> if k = oid_of_nat (next_oid st) then Some (make_book k p) else None)"
  by (simp add: lookup_id_def insert_book_def Let_def find_append_list split: option.split)

lemma list_all_update_by_id:
  "list_all P bs \<Longrightarrow> (\<And>b. find (\<lambda>b. book_id b = oid) bs = Some b \<Longrightarrow> P (f b)) \<Longrightarrow>
     list_all P (update_by_id oid f bs)"
  by (induction bs) auto

lemma list_all_remove_by_id: "list_all P bs \<Longrightarrow> list_all P (remove_by_id oid bs)"
  by (induction bs) auto

lemma find_one_and_update_list_all:
  assumes "list_all P (books st)"
    and "\<And>oid b. cast_object_id s = Some oid \<Longrightarrow> lookup_id oid st = Some b \<Longrightarrow> P (apply_update u b)"
  shows "list_all P (books (snd (find_one_and_update s u st)))"
  using assms
  by (auto simp: find_one_and_update_def lookup_id_def intro!: list_all_update_by_id
      split: option.splits)

lemma count_update_by_id:
  "length (filter P (update_by_id oid f bs)) \<le> Suc (length (filter P bs))"
  "length (filter P bs) \<le> Suc (length (filter P (update_by_id oid f bs)))"
  by (induction bs) auto

lemma count_remove_by_id:
  "length (filter P (remove_by_id oid bs)) \<le> length (filter P bs)"
  "length (filter P bs) \<le> Suc (length (filter P (remove_by_id oid bs)))"
  by (induction bs) auto

lemma count_find_one_and_update:
  "length (filter P (books (snd (find_one_and_update s u st)))) \<le> Suc (length (filter P (books st)))"
  "length (filter P (books st)) \<le> Suc (length (filter P (books (snd (find_one_and_update s u st)))))"
  by (auto simp: find_one_and_update_def count_update_by_id split: option.splits)

section \<open>Lemmas on well-formed stores\<close>

lemma store_wf_empty [simp]: "store_wf empty_store"
  by (simp add: store_wf_def empty_store_def)

lemma oid_of_nat_inj:
  "oid_of_nat n = oid_of_nat m \<Longrightarrow> n < 16 ^ 24 \<Longrightarrow> m < 16 ^ 24 \<Longrightarrow> n = m"
  unfolding oid_of_nat_def by (rule hex_of_nat_inj)

lemma fresh_oid_unused:
  assumes "store_wf st" and "next_oid st < 16 ^ 24"
  shows "oid_of_nat (next_oid st) \<notin> book_id ` set (books st)"
proof
  assume "oid_of_nat (next_oid st) \<in> book_id ` set (books st)"
  with assms(1) obtain k where "k < next_oid st" and "oid_of_nat k = oid_of_nat (next_oid st)"
    by (auto simp: store_wf_def)
  with assms(2) oid_of_nat_inj show False by fastforce
qed

lemma store_wf_insert:
  assumes "store_wf st" and "next_oid st < 16 ^ 24"
  shows "store_wf (snd (insert_book p st))"
proof -
  have "oid_of_nat (next_oid st) \<notin> set (map book_id (books st))"
    using fresh_oid_unused[OF assms] by simp
  moreover have "oid_of_nat ` {..<next_oid st} \<subseteq> oid_of_nat ` {..<Suc (next_oid st)}"
    by auto
  ultimately show ?thesis
    using assms by (auto simp: store_wf_def insert_book_def Let_def)
qed

lemma ids_update_store [simp]:
  "map book_id (books (st\<lparr>books := update_by_id oid (apply_update u) (books st)\<rparr>)) =
     map book_id (books st)"
  by simp

lemma store_wf_find_one_and_update:
  assumes "store_wf st"
  shows "store_wf (snd (find_one_and_update s u st))"
proof -
  have "store_wf (st\<lparr>books := update_by_id oid (apply_update u) (books st)\<rparr>)" for oid
    using assms unfolding store_wf_def by (simp only: ids_update_store) simp
  with assms show ?thesis
    by (simp add: find_one_and_update_def split: option.splits)
qed

lemma store_wf_delete:
  assumes "store_wf st"
  shows "store_wf (snd (find_by_id_and_delete s st))"
proof -
  have "store_wf (st\<lparr>books := remove_by_id oid (books st)\<rparr>)" for oid
  proof -
    have "set (remove1 oid (map book_id (books st))) \<subseteq> set (map book_id (books st))"
      by (rule set_remove1_subset)
    with assms show ?thesis unfolding store_wf_def by (simp del: set_map) blast
  qed
  with assms show ?thesis
    by (simp add: find_by_id_and_delete_def split: option.splits)
qed

lemma lookup_id_delete:
  "store_wf st \<Longrightarrow> lookup_id k (st\<lparr>books := remove_by_id oid (books st)\<rparr>) =
     (if k = oid then None else lookup_id k st)"
  by (simp add: lookup_id_def store_wf_def find_remove_by_id)

end
