(* ===== verification/RecordMutator.thy ===== *)
theory RecordMutator
  imports Store
begin

text \<open>
  The single-record operations of \<open>BookService\<close> (\<open>src/app/modules/book/book.service.ts\<close>):
  fetch, create, update and delete by identifier, and the operations on the review
  array and the four membership lists. Each is one call of the store, translated
  with the update document the code builds; each takes the store and returns the
  result together with the store afterwards. The string argument \<open>bid\<close> is the
  \<open>id\<close> parameter of the code.
\<close>

section \<open>Operations\<close>

definition getBook :: "string \<Rightarrow> book_store \<Rightarrow> store_error + book option" where
  "getBook bid st = find_by_id bid st"

definition createBook :: "book_fields \<Rightarrow> book_store \<Rightarrow> book \<times> book_store" where
  "createBook payload st = insert_book payload st"

definition updateBook ::
    "string \<Rightarrow> book_patch \<Rightarrow> book_store \<Rightarrow> (store_error + book option) \<times> book_store" where
  "updateBook bid payload st = find_one_and_update bid [USet payload] st"

text \<open>The second parameter \<open>book\<close> of \<open>deleteBook\<close> is not used by the code.\<close>

definition deleteBook ::
    "string \<Rightarrow> book_fields \<Rightarrow> book_store \<Rightarrow> (store_error + book option) \<times> book_store" where
  "deleteBook bid bk st = find_by_id_and_delete bid st"

definition addReview ::
    "string \<Rightarrow> review \<Rightarrow> book_store \<Rightarrow> (store_error + book option) \<times> book_store" where
  "addReview bid payload st = find_one_and_update bid [UPush payload] st"

text \<open>
  \<open>addToWishlist\<close> sends \<open>{wishlist: payload}\<close>: a \<open>$set\<close> that replaces the whole
  array. Its \<open>payload: any\<close> is modelled as the array of emails it is meant to be.
\<close>

definition addToWishlist ::
    "string \<Rightarrow> email list \<Rightarrow> book_store \<Rightarrow> (store_error + book option) \<times> book_store" where
  "addToWishlist bid payload st =
     find_one_and_update bid [USet (empty_patch\<lparr>set_wishlist := Some payload\<rparr>)] st"

definition removeFromWishlist ::
    "string \<Rightarrow> email \<Rightarrow> book_store \<Rightarrow> (store_error + book option) \<times> book_store" where
  "removeFromWishlist bid e st =
     find_one_and_update bid
       [UPull Wishlist (Some e), UPull ReadSoon (Some e),
        UPull CurrentlyReading (Some e), UPull Finished (Some e)] st"

text \<open>
  The three reading-status operations take the acting user's email from the last
  element of the payload, pull it from the two other status arrays, and add the
  whole payload to their own array, in one update.
\<close>

definition addToReadSoon ::
    "string \<Rightarrow> email list \<Rightarrow> book_store \<Rightarrow> (store_error + book option) \<times> book_store" where
  "addToReadSoon bid payload st =
     (let e = last_opt payload
      in find_one_and_update bid
           [UPull CurrentlyReading e, UPull Finished e, UAddToSet ReadSoon payload] st)"

definition addToCurrentlyReading ::
    "string \<Rightarrow> email list \<Rightarrow> book_store \<Rightarrow> (store_error + book option) \<times> book_store" where
  "addToCurrentlyReading bid payload st =
     (let e = last_opt payload
      in find_one_and_update bid
           [UPull ReadSoon e, UPull Finished e, UAddToSet CurrentlyReading payload] st)"

definition addToFinished ::
    "string \<Rightarrow> email list \<Rightarrow> book_store \<Rightarrow> (store_error + book option) \<times> book_store" where
  "addToFinished bid payload st =
     (let e = last_opt payload
      in find_one_and_update bid
           [UPull ReadSoon e, UPull CurrentlyReading e, UAddToSet Finished payload] st)"


section \<open>Sample data\<close>

text \<open>A one-book store used by the concrete instances of the theorems below.\<close>

abbreviation sample_id :: string where
  "sample_id \<equiv> ''000000000000000000000000''"

definition sample_book :: book where
  "sample_book = \<lparr>title = ''The Hobbit'', author = ''J.R.R. Tolkien'', genre = ''Fantasy'',
     publication_date = ''1937-09-21'', reviews = [], wishlist = [],
     read_soon = [''a@x.com''], currently_reading = [], finished = [],
     book_id = sample_id\<rparr>"

definition sample_store :: book_store where
  "sample_store = \<lparr>books = [sample_book], next_oid = 1\<rparr>"

section \<open>Shared facts on the update documents\<close>

lemma status_update_no_conflict:
  "f \<noteq> g \<Longrightarrow> f \<noteq> h \<Longrightarrow> g \<noteq> h \<Longrightarrow> \<not> update_conflict [UPull f e, UPull g e, UAddToSet h xs]"
  by (cases e) (auto simp: update_conflict_def update_paths_def)

lemma status_move:
  assumes upd: "find_one_and_update bid [UPull f (Some u), UPull g (Some u), UAddToSet h payload] st =
      (Inr (Some b'), st')"
    and mem: "u \<in> set payload" and hf: "h \<noteq> f" and hg: "h \<noteq> g"
  shows "u \<in> set (get_list h b') \<and> u \<notin> set (get_list f b') \<and> u \<notin> set (get_list g b') \<and>
    find_by_id bid st' = Inr (Some b')"
proof -
  from upd obtain b where
    b': "b' = apply_update [UPull f (Some u), UPull g (Some u), UAddToSet h payload] b"
    by (blast dest: find_one_and_update_Some)
  from b' mem hf hg have "u \<in> set (get_list h b') \<and> u \<notin> set (get_list f b') \<and> u \<notin> set (get_list g b')"
    by auto
  with upd show ?thesis by (simp add: find_one_and_update_stored)
qed

lemma getBook_Some:
  "getBook bid st = Inr (Some b) \<longleftrightarrow>
     (\<exists>oid. cast_object_id bid = Some oid \<and> lookup_id oid st = Some b)"
  by (auto simp: getBook_def find_by_id_def split: option.splits)

lemma getBook_None:
  "getBook bid st = Inr None \<longleftrightarrow> (\<exists>oid. cast_object_id bid = Some oid \<and> lookup_id oid st = None)"
  by (auto simp: getBook_def find_by_id_def split: option.splits)

text \<open>A conflict-free update of an existing record returns and stores the updated record.\<close>

lemma update_found:
  assumes "getBook bid st = Inr (Some b)" and "\<not> update_conflict u"
  shows "\<exists>st'. find_one_and_update bid u st = (Inr (Some (apply_update u b)), st') \<and>
    getBook bid st' = Inr (Some (apply_update u b))"
proof -
  from assms(1) obtain oid where cast: "cast_object_id bid = Some oid"
    and lk: "lookup_id oid st = Some b"
    by (auto simp: getBook_Some)
  let ?st' = "st\<lparr>books := update_by_id oid (apply_update u) (books st)\<rparr>"
  have r: "find_one_and_update bid u st = (Inr (Some (apply_update u b)), ?st')"
    using cast assms(2) lk by (rule find_one_and_update_found)
  then have "getBook bid ?st' = Inr (Some (apply_update u b))"
    unfolding getBook_def by (rule find_one_and_update_stored)
  with r show ?thesis by blast
qed

lemma update_not_found:
  "getBook bid st = Inr None \<Longrightarrow> \<not> update_conflict u \<Longrightarrow> find_one_and_update bid u st = (Inr None, st)"
  by (auto simp: getBook_None find_one_and_update_not_found)

lemma update_invalid_id:
  "\<not> valid_object_id bid \<Longrightarrow> find_one_and_update bid u st = (Inl (CastError bid), st)"
  by (simp add: cast_object_id_def find_one_and_update_cast_error)

lemma pull_all_no_conflict [simp]:
  "\<not> update_conflict [UPull Wishlist (Some e), UPull ReadSoon (Some e),
      UPull CurrentlyReading (Some e), UPull Finished (Some e)]"
  by (simp add: update_conflict_def update_paths_def)

lemma status_ops_no_conflict [simp]:
  "\<not> update_conflict [UPull CurrentlyReading e, UPull Finished e, UAddToSet ReadSoon xs]"
  "\<not> update_conflict [UPull ReadSoon e, UPull Finished e, UAddToSet CurrentlyReading xs]"
  "\<not> update_conflict [UPull ReadSoon e, UPull CurrentlyReading e, UAddToSet Finished xs]"
  by (simp_all add: status_update_no_conflict)

section \<open>The reading-status operations\<close>

text \<open>
  C1: each of the three status operations leaves the acting user (the payload's
  last element) in its own list and in neither of the other two: after
  \<open>addToReadSoon\<close> succeeds the user is in read_soon only, after
  \<open>addToCurrentlyReading\<close> in currently_reading only, after \<open>addToFinished\<close> in
  finished only; and the record the store then holds is the one returned.
\<close>

theorem status_transitions_exclusive:
  assumes "last_opt payload = Some u"
  shows "(addToReadSoon bid payload st = (Inr (Some bR), sR) \<longrightarrow>
      u \<in> set (read_soon bR) \<and> u \<notin> set (currently_reading bR) \<and> u \<notin> set (finished bR) \<and>
      getBook bid sR = Inr (Some bR)) \<and>
    (addToCurrentlyReading bid payload st = (Inr (Some bC), sC) \<longrightarrow>
      u \<in> set (currently_reading bC) \<and> u \<notin> set (read_soon bC) \<and> u \<notin> set (finished bC) \<and>
      getBook bid sC = Inr (Some bC)) \<and>
    (addToFinished bid payload st = (Inr (Some bF), sF) \<longrightarrow>
      u \<in> set (finished bF) \<and> u \<notin> set (read_soon bF) \<and> u \<notin> set (currently_reading bF) \<and>
      getBook bid sF = Inr (Some bF))"
proof (rule conjI[OF impI conjI[OF impI impI]])
  have u: "u \<in> set payload" by (rule last_opt_Some_mem[OF assms])
  assume "addToReadSoon bid payload st = (Inr (Some bR), sR)"
  then show "u \<in> set (read_soon bR) \<and> u \<notin> set (currently_reading bR) \<and> u \<notin> set (finished bR) \<and>
      getBook bid sR = Inr (Some bR)"
    using status_move[of bid CurrentlyReading u Finished ReadSoon payload st bR sR] assms u
    by (simp add: addToReadSoon_def getBook_def Let_def)
next
  have u: "u \<in> set payload" by (rule last_opt_Some_mem[OF assms])
  assume "addToCurrentlyReading bid payload st = (Inr (Some bC), sC)"
  then show "u \<in> set (currently_reading bC) \<and> u \<notin> set (read_soon bC) \<and> u \<notin> set (finished bC) \<and>
      getBook bid sC = Inr (Some bC)"
    using status_move[of bid ReadSoon u Finished CurrentlyReading payload st bC sC] assms u
    by (simp add: addToCurrentlyReading_def getBook_def Let_def)
next
  have u: "u \<in> set payload" by (rule last_opt_Some_mem[OF assms])
  assume "addToFinished bid payload st = (Inr (Some bF), sF)"
  then show "u \<in> set (finished bF) \<and> u \<notin> set (read_soon bF) \<and> u \<notin> set (currently_reading bF) \<and>
      getBook bid sF = Inr (Some bF)"
    using status_move[of bid ReadSoon u CurrentlyReading Finished payload st bF sF] assms u
    by (simp add: addToFinished_def getBook_def Let_def)
qed

lemma cast_sample_id [simp]: "cast_object_id sample_id = Some sample_id"
  by code_simp

lemma lookup_sample [simp]: "lookup_id sample_id sample_store = Some sample_book"
  by (simp add: lookup_id_def sample_store_def sample_book_def)

lemma getBook_sample [simp]: "getBook sample_id sample_store = Inr (Some sample_book)"
  by (simp add: getBook_Some)

lemma status_transitions_exclusive_witness:
  "\<exists>bR sR bC sC bF sF.
     last_opt [''a@x.com''] = Some ''a@x.com'' \<and>
     addToReadSoon sample_id [''a@x.com''] sample_store = (Inr (Some bR), sR) \<and>
     ''a@x.com'' \<in> set (read_soon bR) \<and> ''a@x.com'' \<notin> set (currently_reading bR) \<and>
     ''a@x.com'' \<notin> set (finished bR) \<and> getBook sample_id sR = Inr (Some bR) \<and>
     addToCurrentlyReading sample_id [''a@x.com''] sample_store = (Inr (Some bC), sC) \<and>
     ''a@x.com'' \<in> set (currently_reading bC) \<and> ''a@x.com'' \<notin> set (read_soon bC) \<and>
     ''a@x.com'' \<notin> set (finished bC) \<and> getBook sample_id sC = Inr (Some bC) \<and>
     addToFinished sample_id [''a@x.com''] sample_store = (Inr (Some bF), sF) \<and>
     ''a@x.com'' \<in> set (finished bF) \<and> ''a@x.com'' \<notin> set (read_soon bF) \<and>
     ''a@x.com'' \<notin> set (currently_reading bF) \<and> getBook sample_id sF = Inr (Some bF)"
proof -
  obtain bR sR where r1: "addToReadSoon sample_id [''a@x.com''] sample_store = (Inr (Some bR), sR)"
    using update_found[OF getBook_sample status_ops_no_conflict(1)]
    by (force simp: addToReadSoon_def Let_def)
  obtain bC sC where r2: "addToCurrentlyReading sample_id [''a@x.com''] sample_store = (Inr (Some bC), sC)"
    using update_found[OF getBook_sample status_ops_no_conflict(2)]
    by (force simp: addToCurrentlyReading_def Let_def)
  obtain bF sF where r3: "addToFinished sample_id [''a@x.com''] sample_store = (Inr (Some bF), sF)"
    using update_found[OF getBook_sample status_ops_no_conflict(3)]
    by (force simp: addToFinished_def Let_def)
  have t: "(addToReadSoon sample_id [''a@x.com''] sample_store = (Inr (Some bR), sR) \<longrightarrow>
      ''a@x.com'' \<in> set (read_soon bR) \<and> ''a@x.com'' \<notin> set (currently_reading bR) \<and>
      ''a@x.com'' \<notin> set (finished bR) \<and> getBook sample_id sR = Inr (Some bR)) \<and>
    (addToCurrentlyReading sample_id [''a@x.com''] sample_store = (Inr (Some bC), sC) \<longrightarrow>
      ''a@x.com'' \<in> set (currently_reading bC) \<and> ''a@x.com'' \<notin> set (read_soon bC) \<and>
      ''a@x.com'' \<notin> set (finished bC) \<and> getBook sample_id sC = Inr (Some bC)) \<and>
    (addToFinished sample_id [''a@x.com''] sample_store = (Inr (Some bF), sF) \<longrightarrow>
      ''a@x.com'' \<in> set (finished bF) \<and> ''a@x.com'' \<notin> set (read_soon bF) \<and>
      ''a@x.com'' \<notin> set (currently_reading bF) \<and> getBook sample_id sF = Inr (Some bF))"
    by (rule status_transitions_exclusive[OF last_opt_single])
  from t r1 r2 r3 show ?thesis
    by (intro exI[where x = bR] exI[where x = sR] exI[where x = bC] exI[where x = sC]
        exI[where x = bF] exI[where x = sF]) simp
qed

text \<open>
  The specification's scenario: a record whose read_soon is \<open>["a@x.com"]\<close> and
  whose other status lists do not hold that user; \<open>addToCurrentlyReading(id, ["a@x.com"])\<close>
  yields read_soon \<open>[]\<close>, currently_reading \<open>["a@x.com"]\<close>, and everything else
  of the record unchanged.
\<close>

theorem addToCurrentlyReading_scenario:
  assumes "getBook bid st = Inr (Some b)" and "read_soon b = [''a@x.com'']"
    and "currently_reading b = []" and "''a@x.com'' \<notin> set (finished b)"
  shows "\<exists>st'. addToCurrentlyReading bid [''a@x.com''] st =
    (Inr (Some (b\<lparr>read_soon := [], currently_reading := [''a@x.com'']\<rparr>)), st')"
proof -
  define U where "U = [UPull ReadSoon (Some ''a@x.com''), UPull Finished (Some ''a@x.com''),
      UAddToSet CurrentlyReading [''a@x.com'']]"
  have eq: "apply_update U b = b\<lparr>read_soon := [], currently_reading := [''a@x.com'']\<rparr>"
    using assms(2-4) by (simp add: U_def)
  have "\<not> update_conflict U" by (simp add: U_def)
  then obtain st' where "find_one_and_update bid U st = (Inr (Some (apply_update U b)), st')"
    using update_found[OF assms(1)] by blast
  with eq show ?thesis by (auto simp: addToCurrentlyReading_def U_def)
qed

lemma addToCurrentlyReading_scenario_witness:
  "addToCurrentlyReading sample_id [''a@x.com''] sample_store =
     (Inr (Some (sample_book\<lparr>read_soon := [], currently_reading := [''a@x.com'']\<rparr>)),
      snd (addToCurrentlyReading sample_id [''a@x.com''] sample_store))"
proof -
  have "read_soon sample_book = [''a@x.com'']" "currently_reading sample_book = []"
    "''a@x.com'' \<notin> set (finished sample_book)"
    by (simp_all add: sample_book_def)
  from addToCurrentlyReading_scenario[OF getBook_sample this] show ?thesis
    by (metis prod.sel(2))
qed

section \<open>Detaching a user from a record\<close>

text \<open>
  C4: \<open>removeFromWishlist\<close> removes the email from all four lists at once and
  changes nothing else of the record; the stored record is the returned one.
\<close>

theorem removeFromWishlist_detach:
  assumes "removeFromWishlist bid u st = (Inr (Some b'), st')"
  shows "\<exists>b. getBook bid st = Inr (Some b) \<and>
    wishlist b' = removeAll u (wishlist b) \<and> read_soon b' = removeAll u (read_soon b) \<and>
    currently_reading b' = removeAll u (currently_reading b) \<and>
    finished b' = removeAll u (finished b) \<and>
    title b' = title b \<and> author b' = author b \<and> genre b' = genre b \<and>
    publication_date b' = publication_date b \<and> reviews b' = reviews b \<and>
    book_id b' = book_id b \<and> getBook bid st' = Inr (Some b')"
proof -
  from assms obtain oid b where cast: "cast_object_id bid = Some oid"
    and lk: "lookup_id oid st = Some b"
    and b': "b' = apply_update [UPull Wishlist (Some u), UPull ReadSoon (Some u),
        UPull CurrentlyReading (Some u), UPull Finished (Some u)] b"
    unfolding removeFromWishlist_def by (blast dest: find_one_and_update_Some)
  from assms have "getBook bid st' = Inr (Some b')"
    unfolding removeFromWishlist_def getBook_def by (rule find_one_and_update_stored)
  with cast lk b' show ?thesis by (simp add: getBook_Some)
qed

lemma removeFromWishlist_detach_witness:
  "\<exists>b' st'. removeFromWishlist sample_id ''a@x.com'' sample_store = (Inr (Some b'), st') \<and>
     (\<exists>b. getBook sample_id sample_store = Inr (Some b) \<and>
       wishlist b' = removeAll ''a@x.com'' (wishlist b) \<and>
       read_soon b' = removeAll ''a@x.com'' (read_soon b) \<and>
       currently_reading b' = removeAll ''a@x.com'' (currently_reading b) \<and>
       finished b' = removeAll ''a@x.com'' (finished b) \<and>
       title b' = title b \<and> author b' = author b \<and> genre b' = genre b \<and>
       publication_date b' = publication_date b \<and> reviews b' = reviews b \<and>
       book_id b' = book_id b \<and> getBook sample_id st' = Inr (Some b'))"
proof -
  obtain b' st' where r: "removeFromWishlist sample_id ''a@x.com'' sample_store = (Inr (Some b'), st')"
    by (simp add: removeFromWishlist_def find_one_and_update_found)
  with removeFromWishlist_detach[OF r] show ?thesis by blast
qed

text \<open>
  C5: \<open>removeFromWishlist\<close> is idempotent: a second call with the same arguments
  returns the same result and leaves the store as the first call left it.
\<close>

theorem removeFromWishlist_idempotent:
  "removeFromWishlist bid u (snd (removeFromWishlist bid u st)) = removeFromWishlist bid u st"
proof (cases "cast_object_id bid")
  case None
  then show ?thesis by (simp add: removeFromWishlist_def find_one_and_update_cast_error)
next
  case (Some oid)
  define U where "U = [UPull Wishlist (Some u), UPull ReadSoon (Some u),
    UPull CurrentlyReading (Some u), UPull Finished (Some u)]"
  have nc: "\<not> update_conflict U" by (simp add: U_def)
  have idem: "apply_update U \<circ> apply_update U = apply_update U"
    by (rule ext) (simp add: U_def)
  show ?thesis
  proof (cases "lookup_id oid st")
    case None
    with Some nc show ?thesis
      by (simp add: removeFromWishlist_def U_def[symmetric] find_one_and_update_not_found)
  next
    case (Some b)
    let ?st1 = "st\<lparr>books := update_by_id oid (apply_update U) (books st)\<rparr>"
    have first: "removeFromWishlist bid u st = (Inr (Some (apply_update U b)), ?st1)"
      using \<open>cast_object_id bid = Some oid\<close> nc Some
      by (simp add: removeFromWishlist_def U_def[symmetric] find_one_and_update_found)
    have "lookup_id oid ?st1 = Some (apply_update U b)"
      using Some by (simp add: lookup_id_update)
    then have "removeFromWishlist bid u ?st1 =
        (Inr (Some (apply_update U (apply_update U b))),
         ?st1\<lparr>books := update_by_id oid (apply_update U) (books ?st1)\<rparr>)"
      using \<open>cast_object_id bid = Some oid\<close> nc
      by (simp add: removeFromWishlist_def U_def[symmetric] find_one_and_update_found)
    also have "\<dots> = (Inr (Some (apply_update U b)), ?st1)"
      using idem by (simp add: update_by_id_twice comp_def fun_eq_iff)
    finally show ?thesis using first by simp
  qed
qed


section \<open>Field updates and appends\<close>

text \<open>
  C7: \<open>updateBook(id, {title: t})\<close> on an existing record changes the title and
  keeps every other field; the stored record is the returned one. (The general
  merge, any partial payload, is \<open>updateBook_found\<close>.)
\<close>

lemma updateBook_found:
  "getBook bid st = Inr (Some b) \<Longrightarrow>
     \<exists>st'. updateBook bid p st = (Inr (Some (apply_patch p b)), st') \<and>
       getBook bid st' = Inr (Some (apply_patch p b))"
  using update_found[where u = "[USet p]"] by (simp add: updateBook_def)

theorem updateBook_title_only:
  assumes "getBook bid st = Inr (Some b)"
  shows "\<exists>st'. updateBook bid (empty_patch\<lparr>set_title := Some t\<rparr>) st =
      (Inr (Some (b\<lparr>title := t\<rparr>)), st') \<and> getBook bid st' = Inr (Some (b\<lparr>title := t\<rparr>))"
proof -
  have eq: "apply_patch (empty_patch\<lparr>set_title := Some t\<rparr>) b = b\<lparr>title := t\<rparr>"
    by (simp add: apply_patch_def empty_patch_def)
  show ?thesis
    using updateBook_found[OF assms, where p = "empty_patch\<lparr>set_title := Some t\<rparr>"]
    unfolding eq .
qed

lemma updateBook_title_only_witness:
  "\<exists>st'. updateBook sample_id (empty_patch\<lparr>set_title := Some ''New Title''\<rparr>) sample_store =
      (Inr (Some (sample_book\<lparr>title := ''New Title''\<rparr>)), st') \<and>
    getBook sample_id st' = Inr (Some (sample_book\<lparr>title := ''New Title''\<rparr>))"
  using updateBook_title_only[OF getBook_sample] .

text \<open>
  C8: \<open>addToWishlist\<close> replaces the wishlist wholesale with the payload (it does
  not add to it) and changes nothing else.
\<close>

theorem addToWishlist_replaces:
  assumes "getBook bid st = Inr (Some b)"
  shows "\<exists>st'. addToWishlist bid ws st = (Inr (Some (b\<lparr>wishlist := ws\<rparr>)), st') \<and>
    getBook bid st' = Inr (Some (b\<lparr>wishlist := ws\<rparr>))"
proof -
  have "apply_patch (empty_patch\<lparr>set_wishlist := Some ws\<rparr>) b = b\<lparr>wishlist := ws\<rparr>"
    by (simp add: apply_patch_def empty_patch_def)
  with update_found[OF assms, where u = "[USet (empty_patch\<lparr>set_wishlist := Some ws\<rparr>)]"]
  show ?thesis by (simp add: addToWishlist_def)
qed

lemma addToWishlist_replaces_witness:
  "\<exists>st'. addToWishlist sample_id [''c@x.com''] sample_store =
      (Inr (Some (sample_book\<lparr>wishlist := [''c@x.com'']\<rparr>)), st') \<and>
    getBook sample_id st' = Inr (Some (sample_book\<lparr>wishlist := [''c@x.com'']\<rparr>))"
  using addToWishlist_replaces[OF getBook_sample] .

text \<open>C9: \<open>addReview\<close> appends the review at the end of the review array and changes nothing else.\<close>

theorem addReview_appends:
  assumes "getBook bid st = Inr (Some b)"
  shows "\<exists>st'. addReview bid r st = (Inr (Some (b\<lparr>reviews := reviews b @ [r]\<rparr>)), st') \<and>
    getBook bid st' = Inr (Some (b\<lparr>reviews := reviews b @ [r]\<rparr>))"
  using update_found[OF assms, where u = "[UPush r]"] by (simp add: addReview_def)

lemma addReview_appends_witness:
  "\<exists>st'. addReview sample_id \<lparr>email = ''c@x.com'', comment = ''Great''\<rparr> sample_store =
      (Inr (Some (sample_book\<lparr>reviews := reviews sample_book @ [\<lparr>email = ''c@x.com'', comment = ''Great''\<rparr>]\<rparr>)), st') \<and>
    getBook sample_id st' =
      Inr (Some (sample_book\<lparr>reviews := reviews sample_book @ [\<lparr>email = ''c@x.com'', comment = ''Great''\<rparr>]\<rparr>))"
  using addReview_appends[OF getBook_sample] .

section \<open>Soft not-found and identifier errors\<close>

text \<open>
  C10: for a well-formed identifier that names no record, every by-identifier
  operation returns \<open>null\<close> (not an error) and leaves the store unchanged.
\<close>

theorem not_found_soft:
  assumes "getBook bid st = Inr None"
  shows "updateBook bid p st = (Inr None, st) \<and> deleteBook bid bk st = (Inr None, st) \<and>
    addReview bid r st = (Inr None, st) \<and> addToWishlist bid ws st = (Inr None, st) \<and>
    removeFromWishlist bid e st = (Inr None, st) \<and> addToReadSoon bid xs st = (Inr None, st) \<and>
    addToCurrentlyReading bid xs st = (Inr None, st) \<and> addToFinished bid xs st = (Inr None, st)"
proof -
  have "deleteBook bid bk st = (Inr None, st)"
    using assms by (auto simp: getBook_None deleteBook_def find_by_id_and_delete_def)
  with assms show ?thesis
    by (simp add: update_not_found updateBook_def addReview_def addToWishlist_def
        removeFromWishlist_def addToReadSoon_def addToCurrentlyReading_def addToFinished_def)
qed

lemma not_found_soft_witness:
  "updateBook ''00000000000000000000000a'' empty_patch sample_store = (Inr None, sample_store) \<and>
   deleteBook ''00000000000000000000000a'' (book_fields.truncate sample_book) sample_store = (Inr None, sample_store) \<and>
   addReview ''00000000000000000000000a'' \<lparr>email = ''c@x.com'', comment = ''ok''\<rparr> sample_store =
     (Inr None, sample_store) \<and>
   addToWishlist ''00000000000000000000000a'' [] sample_store = (Inr None, sample_store) \<and>
   removeFromWishlist ''00000000000000000000000a'' ''c@x.com'' sample_store = (Inr None, sample_store) \<and>
   addToReadSoon ''00000000000000000000000a'' [''c@x.com''] sample_store = (Inr None, sample_store) \<and>
   addToCurrentlyReading ''00000000000000000000000a'' [''c@x.com''] sample_store =
     (Inr None, sample_store) \<and>
   addToFinished ''00000000000000000000000a'' [''c@x.com''] sample_store = (Inr None, sample_store)"
proof -
  have "cast_object_id ''00000000000000000000000a'' = Some ''00000000000000000000000a''"
    by code_simp
  moreover have "lookup_id ''00000000000000000000000a'' sample_store = None"
    by (simp add: lookup_id_def sample_store_def sample_book_def)
  ultimately have "getBook ''00000000000000000000000a'' sample_store = Inr None"
    by (simp add: getBook_None)
  then show ?thesis by (rule not_found_soft)
qed

text \<open>
  C11: an identifier that is not a 24-digit hexadecimal string, and not of length
  12 either, makes every by-identifier operation fail with a cast error (it does
  not return \<open>null\<close>), and the store is left unchanged. (A 12-character string
  is cast to the ObjectId of its 12 bytes by bson before version 6 and refused
  from version 6 on; the repository pins no version, so such strings are left
  out.)
\<close>

theorem invalid_id_cast_error:
  assumes "\<not> valid_object_id bid" and "length bid \<noteq> 12"
  shows "getBook bid st = Inl (CastError bid) \<and> updateBook bid p st = (Inl (CastError bid), st) \<and>
    deleteBook bid bk st = (Inl (CastError bid), st) \<and>
    addReview bid r st = (Inl (CastError bid), st) \<and>
    addToWishlist bid ws st = (Inl (CastError bid), st) \<and>
    removeFromWishlist bid e st = (Inl (CastError bid), st) \<and>
    addToReadSoon bid xs st = (Inl (CastError bid), st) \<and>
    addToCurrentlyReading bid xs st = (Inl (CastError bid), st) \<and>
    addToFinished bid xs st = (Inl (CastError bid), st)"
  using assms
  by (simp add: update_invalid_id cast_object_id_def getBook_def find_by_id_def deleteBook_def
      find_by_id_and_delete_def updateBook_def addReview_def addToWishlist_def
      removeFromWishlist_def addToReadSoon_def addToCurrentlyReading_def addToFinished_def)

lemma invalid_id_cast_error_witness:
  "getBook ''nonexistent-id'' sample_store = Inl (CastError ''nonexistent-id'') \<and>
   updateBook ''nonexistent-id'' empty_patch sample_store = (Inl (CastError ''nonexistent-id''), sample_store) \<and>
   deleteBook ''nonexistent-id'' (book_fields.truncate sample_book) sample_store = (Inl (CastError ''nonexistent-id''), sample_store) \<and>
   addReview ''nonexistent-id'' \<lparr>email = ''c@x.com'', comment = ''ok''\<rparr> sample_store =
     (Inl (CastError ''nonexistent-id''), sample_store) \<and>
   addToWishlist ''nonexistent-id'' [] sample_store = (Inl (CastError ''nonexistent-id''), sample_store) \<and>
   removeFromWishlist ''nonexistent-id'' ''c@x.com'' sample_store =
     (Inl (CastError ''nonexistent-id''), sample_store) \<and>
   addToReadSoon ''nonexistent-id'' [] sample_store = (Inl (CastError ''nonexistent-id''), sample_store) \<and>
   addToCurrentlyReading ''nonexistent-id'' [] sample_store =
     (Inl (CastError ''nonexistent-id''), sample_store) \<and>
   addToFinished ''nonexistent-id'' [] sample_store = (Inl (CastError ''nonexistent-id''), sample_store)"
proof -
  have "\<not> valid_object_id ''nonexistent-id''" and "length ''nonexistent-id'' \<noteq> 12"
    by (simp_all add: valid_object_id_def)
  then show ?thesis by (rule invalid_id_cast_error)
qed

section \<open>Creation and deletion\<close>

text \<open>
  C12: \<open>createBook\<close> stores the payload under a fresh identifier: fetching that
  identifier afterwards returns the created record, whose fields are the payload's,
  and the store stays well-formed.
\<close>

theorem createBook_getBook:
  assumes "store_wf st" and "next_oid st < 16 ^ 24" and "createBook p st = (b, st')"
  shows "getBook (book_id b) st' = Inr (Some b) \<and> book_fields.truncate b = p \<and> store_wf st'"
proof -
  have b: "b = make_book (oid_of_nat (next_oid st)) p" and st': "st' = snd (insert_book p st)"
    using assms(3) by (auto simp: createBook_def insert_book_def Let_def)
  have "lookup_id (oid_of_nat (next_oid st)) st = None"
    using fresh_oid_unused[OF assms(1,2)] by (simp add: lookup_id_None)
  then have "lookup_id (book_id b) st' = Some b"
    by (simp add: b st' lookup_id_insert)
  moreover have "cast_object_id (book_id b) = Some (book_id b)"
    by (simp add: b cast_oid_of_nat)
  ultimately show ?thesis
    using store_wf_insert[OF assms(1,2)] by (simp add: getBook_Some b st')
qed

lemma createBook_getBook_witness:
  "getBook (book_id (fst (createBook (book_fields.truncate sample_book) sample_store)))
      (snd (createBook (book_fields.truncate sample_book) sample_store)) =
     Inr (Some (fst (createBook (book_fields.truncate sample_book) sample_store))) \<and>
   book_fields.truncate (fst (createBook (book_fields.truncate sample_book) sample_store)) =
     book_fields.truncate sample_book \<and>
   store_wf (snd (createBook (book_fields.truncate sample_book) sample_store))"
proof -
  have wf: "store_wf sample_store"
    by (simp add: store_wf_def sample_store_def sample_book_def oid_of_nat_def) code_simp
  have "next_oid sample_store < 16 ^ 24" by (simp add: sample_store_def)
  from createBook_getBook[OF wf this surjective_pairing] show ?thesis .
qed

text \<open>
  C13: \<open>deleteBook\<close> returns the record as it was before deletion, and afterwards
  the identifier names no record; the store stays well-formed.
\<close>

theorem deleteBook_removes:
  assumes "store_wf st" and "deleteBook bid bk st = (Inr (Some b), st')"
  shows "getBook bid st = Inr (Some b) \<and> getBook bid st' = Inr None \<and> store_wf st'"
proof -
  from assms(2) obtain oid where cast: "cast_object_id bid = Some oid"
    and lk: "lookup_id oid st = Some b" and st': "st' = st\<lparr>books := remove_by_id oid (books st)\<rparr>"
    by (auto simp: deleteBook_def find_by_id_and_delete_def split: option.splits)
  have "store_wf st'"
    using store_wf_delete[OF assms(1), of bid] assms(2) by (simp add: deleteBook_def)
  with cast lk st' assms(1) show ?thesis
    by (simp add: getBook_Some getBook_None lookup_id_delete)
qed

lemma deleteBook_removes_witness:
  "getBook sample_id sample_store = Inr (Some sample_book) \<and>
   getBook sample_id (snd (deleteBook sample_id (book_fields.truncate sample_book) sample_store)) = Inr None \<and>
   store_wf (snd (deleteBook sample_id (book_fields.truncate sample_book) sample_store))"
proof -
  have wf: "store_wf sample_store"
    by (simp add: store_wf_def sample_store_def sample_book_def oid_of_nat_def) code_simp
  have "deleteBook sample_id (book_fields.truncate sample_book) sample_store =
      (Inr (Some sample_book), snd (deleteBook sample_id (book_fields.truncate sample_book) sample_store))"
    by (simp add: deleteBook_def find_by_id_and_delete_def)
  from deleteBook_removes[OF wf this] show ?thesis .
qed

end
