(* ===== verification/ReadingStatus.thy ===== *)
theory ReadingStatus
  imports RecordMutator
begin

text \<open>
  The reading-status lists (read_soon, currently_reading, finished) are meant to
  hold each user at most once across the three: per record and user, a status
  that is absent or one of three values. This theory states that abstraction, the
  invariant that makes it well-defined (the three lists are disjoint), and how the
  three transition operations of \<open>book.service.ts\<close> (lines 130-180) act on it:
  each is one update that pulls the acting user from the two other lists and adds
  the payload to its own list.
\<close>

section \<open>Abstract status\<close>

datatype reading_status = ReadSoonS | ReadingS | FinishedS

fun status_list :: "reading_status \<Rightarrow> list_field" where
  "status_list ReadSoonS = ReadSoon"
| "status_list ReadingS = CurrentlyReading"
| "status_list FinishedS = Finished"

text \<open>The two lists a transition to status \<open>s\<close> pulls the user from, in the code's order.\<close>

fun other_lists :: "reading_status \<Rightarrow> list_field \<times> list_field" where
  "other_lists ReadSoonS = (CurrentlyReading, Finished)"
| "other_lists ReadingS = (ReadSoon, Finished)"
| "other_lists FinishedS = (ReadSoon, CurrentlyReading)"

text \<open>The update document of the transition to \<open>s\<close> for acting user \<open>e\<close> and payload \<open>xs\<close>.\<close>

definition move_update :: "reading_status \<Rightarrow> email option \<Rightarrow> email list \<Rightarrow> update_entry list" where
  "move_update s e xs =
     [UPull (fst (other_lists s)) e, UPull (snd (other_lists s)) e, UAddToSet (status_list s) xs]"

definition status_disjoint :: "'a book_fields_scheme \<Rightarrow> bool" where
  "status_disjoint b \<longleftrightarrow>
     set (read_soon b) \<inter> set (currently_reading b) = {} \<and>
     set (read_soon b) \<inter> set (finished b) = {} \<and>
     set (currently_reading b) \<inter> set (finished b) = {}"

definition status_of :: "'a book_fields_scheme \<Rightarrow> email \<Rightarrow> reading_status option" where
  "status_of b u =
     (if u \<in> set (read_soon b) then Some ReadSoonS
      else if u \<in> set (currently_reading b) then Some ReadingS
      else if u \<in> set (finished b) then Some FinishedS
      else None)"

text \<open>
  The payload convention under which a transition is a move of one user: every
  element but the last (the acting user) is already in the target list, as when a
  client sends the list it displays with the acting user appended.
\<close>

definition payload_conforms :: "reading_status \<Rightarrow> 'a book_fields_scheme \<Rightarrow> email list \<Rightarrow> bool" where
  "payload_conforms s b xs \<longleftrightarrow> set (butlast xs) \<subseteq> set (get_list (status_list s) b)"

text \<open>The service operation that moves a user to status \<open>s\<close>.\<close>

fun transition_op ::
    "reading_status \<Rightarrow> string \<Rightarrow> email list \<Rightarrow> book_store \<Rightarrow> (store_error + book option) \<times> book_store" where
  "transition_op ReadSoonS = addToReadSoon"
| "transition_op ReadingS = addToCurrentlyReading"
| "transition_op FinishedS = addToFinished"

text \<open>A record in which \<open>b@x.com\<close> has finished the book, used by the counterexample below.\<close>

definition finished_store :: book_store where
  "finished_store = \<lparr>books = [sample_book\<lparr>read_soon := [], finished := [''b@x.com'']\<rparr>], next_oid = 1\<rparr>"

section \<open>The transition operations as moves\<close>

text \<open>The service's three transition operations are the three instances of \<open>move_update\<close>.\<close>

lemma addToReadSoon_move:
  "addToReadSoon bid xs st = find_one_and_update bid (move_update ReadSoonS (last_opt xs) xs) st"
  by (simp add: addToReadSoon_def move_update_def Let_def)

lemma addToCurrentlyReading_move:
  "addToCurrentlyReading bid xs st = find_one_and_update bid (move_update ReadingS (last_opt xs) xs) st"
  by (simp add: addToCurrentlyReading_def move_update_def Let_def)

lemma addToFinished_move:
  "addToFinished bid xs st = find_one_and_update bid (move_update FinishedS (last_opt xs) xs) st"
  by (simp add: addToFinished_def move_update_def Let_def)

lemma move_update_no_conflict [simp]: "\<not> update_conflict (move_update s e xs)"
  by (cases s) (simp_all add: move_update_def Let_def)


lemma transition_op_move:
  "transition_op s bid xs st = find_one_and_update bid (move_update s (last_opt xs) xs) st"
  by (cases s) (simp_all add: addToReadSoon_move addToCurrentlyReading_move addToFinished_move)

section \<open>Lemmas on moves\<close>

lemma apply_move_None [simp]: "apply_update (move_update s None []) b = b"
  by (simp add: move_update_def)

lemma other_lists_distinct:
  "fst (other_lists s) \<noteq> status_list s" "snd (other_lists s) \<noteq> status_list s"
  "fst (other_lists s) \<noteq> snd (other_lists s)"
  by (cases s; simp)+

lemma get_list_move:
  "get_list f (apply_update (move_update s (Some u) xs) b) =
     (if f = status_list s then add_each_to_set (get_list f b) xs
      else if f = fst (other_lists s) \<or> f = snd (other_lists s) then removeAll u (get_list f b)
      else get_list f b)"
  using other_lists_distinct[of s] by (auto simp: move_update_def)

text \<open>A conforming move adds exactly the acting user to the target list.\<close>

lemma set_target_move:
  assumes "xs = ys @ [u]" and "set ys \<subseteq> set (get_list (status_list s) b)"
  shows "set (get_list (status_list s) (apply_update (move_update s (Some u) xs) b)) =
    insert u (set (get_list (status_list s) b))"
  using assms by (auto simp: get_list_move)

lemma status_lists_cases:
  "{status_list s, fst (other_lists s), snd (other_lists s)} = {ReadSoon, CurrentlyReading, Finished}"
  by (cases s) auto

lemma move_preserves_disjoint:
  assumes "status_disjoint b" and "xs = ys @ [u]" and "set ys \<subseteq> set (get_list (status_list s) b)"
  shows "status_disjoint (apply_update (move_update s (Some u) xs) b)"
  using assms by (cases s) (auto simp: status_disjoint_def move_update_def)

lemma move_status_of:
  assumes "status_disjoint b" and "xs = ys @ [u]" and "set ys \<subseteq> set (get_list (status_list s) b)"
  shows "status_of (apply_update (move_update s (Some u) xs) b) = (status_of b)(u := Some s)"
proof
  fix v
  show "status_of (apply_update (move_update s (Some u) xs) b) v = ((status_of b)(u := Some s)) v"
    using assms by (cases s) (auto simp: status_of_def status_disjoint_def move_update_def)
qed


lemma update_by_id_ident: "(\<And>b. f b = b) \<Longrightarrow> update_by_id oid f bs = bs"
  by (induction bs) auto

lemma payload_conforms_snoc:
  "payload_conforms s b xs \<Longrightarrow> last_opt xs = Some u \<Longrightarrow>
     \<exists>ys. xs = ys @ [u] \<and> set ys \<subseteq> set (get_list (status_list s) b)"
  by (auto simp: payload_conforms_def last_opt_Some_iff)

section \<open>The transitions refine the abstract status\<close>

text \<open>
  C26: on a record whose status lists are disjoint, a transition to status \<open>s\<close>
  whose payload conforms (all elements but the acting user \<open>u\<close> already in the
  target list) sets the abstract status of \<open>u\<close> to \<open>s\<close>, leaves every other
  user's status unchanged, and keeps the lists disjoint; the store holds the
  returned record.
\<close>

theorem transition_refines:
  assumes "getBook bid st = Inr (Some b)" and "status_disjoint b"
    and "payload_conforms s b xs" and "last_opt xs = Some u"
  shows "\<exists>b' st'. transition_op s bid xs st = (Inr (Some b'), st') \<and>
    getBook bid st' = Inr (Some b') \<and> status_of b' = (status_of b)(u := Some s) \<and>
    status_disjoint b'"
proof -
  obtain ys where xs: "xs = ys @ [u]" and ys: "set ys \<subseteq> set (get_list (status_list s) b)"
    using payload_conforms_snoc[OF assms(3,4)] by blast
  obtain st' where r: "find_one_and_update bid (move_update s (Some u) xs) st =
      (Inr (Some (apply_update (move_update s (Some u) xs) b)), st') \<and>
    getBook bid st' = Inr (Some (apply_update (move_update s (Some u) xs) b))"
    using update_found[OF assms(1) move_update_no_conflict] by blast
  have "status_of (apply_update (move_update s (Some u) xs) b) = (status_of b)(u := Some s)"
    using assms(2) xs ys by (rule move_status_of)
  moreover have "status_disjoint (apply_update (move_update s (Some u) xs) b)"
    using assms(2) xs ys by (rule move_preserves_disjoint)
  ultimately show ?thesis
    using r assms(4) by (auto simp: transition_op_move)
qed

lemma transition_refines_witness:
  "\<exists>b' st'. transition_op ReadingS sample_id [''a@x.com''] sample_store = (Inr (Some b'), st') \<and>
    getBook sample_id st' = Inr (Some b') \<and>
    status_of b' = (status_of sample_book)(''a@x.com'' := Some ReadingS) \<and> status_disjoint b'"
proof -
  have "status_disjoint sample_book" by (simp add: status_disjoint_def sample_book_def)
  moreover have "payload_conforms ReadingS sample_book [''a@x.com'']"
    by (simp add: payload_conforms_def)
  ultimately show ?thesis
    using transition_refines[OF getBook_sample _ _ last_opt_single] by blast
qed

text \<open>
  C27: without the payload convention the transitions do not keep the lists
  disjoint: each pulls only the last payload element (the acting user) from the
  two other lists, so a user \<open>v\<close> earlier in the payload who is in one of those
  lists stays there and is added to the target list as well, and the returned
  record has \<open>v\<close> in two status lists.
\<close>

theorem transition_breaks_disjointness:
  assumes "getBook bid st = Inr (Some b)" and "xs = ys @ [u]" and "v \<in> set ys" and "v \<noteq> u"
    and "f = fst (other_lists s) \<or> f = snd (other_lists s)" and "v \<in> set (get_list f b)"
  shows "\<exists>b' st'. transition_op s bid xs st = (Inr (Some b'), st') \<and>
    v \<in> set (get_list (status_list s) b') \<and> v \<in> set (get_list f b') \<and> \<not> status_disjoint b'"
proof -
  from assms(1) obtain oid where cast: "cast_object_id bid = Some oid" and lk: "lookup_id oid st = Some b"
    by (auto simp: getBook_Some)
  have lo: "last_opt xs = Some u" using assms(2) by (simp add: last_opt_def)
  let ?b' = "apply_update (move_update s (Some u) xs) b"
  have r: "transition_op s bid xs st =
      (Inr (Some ?b'), st\<lparr>books := update_by_id oid (apply_update (move_update s (Some u) xs)) (books st)\<rparr>)"
    by (simp add: transition_op_move lo find_one_and_update_found[OF cast _ lk])
  have t: "v \<in> set (get_list (status_list s) ?b')" and o: "v \<in> set (get_list f ?b')"
    using assms(2-6) other_lists_distinct[of s] by (auto simp: get_list_move)
  have "\<not> status_disjoint ?b'"
    using t o assms(5) by (cases s) (auto simp: status_disjoint_def)
  with r t o show ?thesis by blast
qed

lemma transition_breaks_disjointness_witness:
  "status_disjoint (sample_book\<lparr>read_soon := [], finished := [''b@x.com'']\<rparr>) \<and>
   (\<exists>b' st'. addToReadSoon sample_id [''b@x.com'', ''a@x.com''] finished_store = (Inr (Some b'), st') \<and>
      ''b@x.com'' \<in> set (read_soon b') \<and> ''b@x.com'' \<in> set (finished b') \<and> \<not> status_disjoint b')"
proof -
  have g: "getBook sample_id finished_store = Inr (Some (sample_book\<lparr>read_soon := [], finished := [''b@x.com'']\<rparr>))"
    by (simp add: getBook_Some lookup_id_def finished_store_def sample_book_def)
  have "status_disjoint (sample_book\<lparr>read_soon := [], finished := [''b@x.com'']\<rparr>)"
    by (simp add: status_disjoint_def sample_book_def)
  moreover have "\<exists>b' st'. transition_op ReadSoonS sample_id [''b@x.com'', ''a@x.com''] finished_store = (Inr (Some b'), st') \<and>
      ''b@x.com'' \<in> set (get_list (status_list ReadSoonS) b') \<and> ''b@x.com'' \<in> set (get_list Finished b') \<and>
      \<not> status_disjoint b'"
    by (rule transition_breaks_disjointness[OF g, where ys = "[''b@x.com'']" and u = "''a@x.com''"]) simp_all
  ultimately show ?thesis by simp
qed

text \<open>
  C28: a transition with an empty payload reads \<open>undefined\<close> as the acting user;
  the \<open>$pull\<close> of \<open>undefined\<close> is dropped and \<open>$addToSet\<close> of no element adds
  nothing, so the call returns the record unchanged and leaves the store as it was.
\<close>

theorem transition_empty_payload:
  assumes "getBook bid st = Inr (Some b)"
  shows "transition_op s bid [] st = (Inr (Some b), st)"
proof -
  from assms obtain oid where cast: "cast_object_id bid = Some oid" and lk: "lookup_id oid st = Some b"
    by (auto simp: getBook_Some)
  have "update_by_id oid (apply_update (move_update s None [])) (books st) = books st"
    by (rule update_by_id_ident) simp
  with cast lk show ?thesis
    by (simp add: transition_op_move find_one_and_update_found)
qed

lemma transition_empty_payload_witness:
  "transition_op FinishedS sample_id [] sample_store = (Inr (Some sample_book), sample_store)"
  by (rule transition_empty_payload[OF getBook_sample])

end
