(* ===== verification/Regex.thy ===== *)
theory Regex
  imports Prelude
begin

text \<open>
  The regular expressions MongoDB evaluates for \<open>{$regex: p, $options: o}\<close>:
  the PCRE syntax a search term can use (literals, \<open>.\<close>, character classes,
  groups, alternation, the quantifiers \<open>* + ? {n} {n,} {n,m}\<close> with their lazy
  forms, the anchors \<open>^ $\<close>, word boundaries and the class escapes), parsed into a
  datatype with PCRE's syntax errors as errors, with the option \<open>i\<close> compiled into
  a caseless flag on every character and class; their meaning as an inductive
  relation between start and end positions in a string; and an executable matcher that computes the set of end positions
  of a match, repetition by a worklist closure.
\<close>

section \<open>Syntax\<close>

datatype class_kind = KDigit | KWord | KSpace

text \<open>A class item: a character, a range, or a class escape (\<open>\<backslash>d\<close>, or \<open>\<backslash>D\<close> when negated).\<close>

datatype class_item = IChar char | IRange char char | IKind class_kind bool

text \<open>
  \<open>RChar ci c\<close> and \<open>RSet ci neg items\<close> carry the caseless flag PCRE compiles into
  each character and class item (\<open>OP_CHARI\<close> against \<open>OP_CHAR\<close>): with \<open>ci\<close> the
  item is compared without regard to ASCII case. \<open>RRep r n m\<close> repeats \<open>r\<close> at
  least \<open>n\<close> and at most \<open>m\<close> times (no bound for \<open>None\<close>); \<open>RWordB True\<close> is
  \<open>\<backslash>b\<close>, \<open>RWordB False\<close> is \<open>\<backslash>B\<close>.
\<close>

datatype rx = RChar bool char | RDot | RSet bool bool "class_item list" | REps | RSeq rx rx | RAlt rx rx
  | RRep rx nat "nat option" | RBol | REol | RWordB bool

section \<open>Characters\<close>

definition upper_char :: "char \<Rightarrow> char" where
  "upper_char c = (if CHR ''a'' \<le> c \<and> c \<le> CHR ''z'' then char_of (of_char c - 32 :: nat) else c)"

fun kind_match :: "class_kind \<Rightarrow> char \<Rightarrow> bool" where
  "kind_match KDigit c = (CHR ''0'' \<le> c \<and> c \<le> CHR ''9'')"
| "kind_match KWord c = ((CHR ''0'' \<le> c \<and> c \<le> CHR ''9'') \<or> (CHR ''a'' \<le> c \<and> c \<le> CHR ''z'') \<or>
     (CHR ''A'' \<le> c \<and> c \<le> CHR ''Z'') \<or> c = CHR ''_'')"
| "kind_match KSpace c = (c \<in> {CHR '' '', CHR 0x09, CHR 0x0A, CHR 0x0B, CHR 0x0C, CHR 0x0D})"

fun item_match :: "class_item \<Rightarrow> char \<Rightarrow> bool" where
  "item_match (IChar d) c = (c = d)"
| "item_match (IRange a b) c = (a \<le> c \<and> c \<le> b)"
| "item_match (IKind k neg) c = (kind_match k c \<noteq> neg)"

text \<open>
  A character compared caselessly is compared after folding to lower case; in a
  caseless class a character is in the class when it or its other case is.
\<close>

definition fold_case :: "bool \<Rightarrow> char \<Rightarrow> char" where
  "fold_case ci c = (if ci then lower_char c else c)"

definition class_match :: "bool \<Rightarrow> bool \<Rightarrow> class_item list \<Rightarrow> char \<Rightarrow> bool" where
  "class_match ci neg items c =
     (neg \<noteq> list_ex (\<lambda>it. item_match it c \<or>
        (ci \<and> (item_match it (lower_char c) \<or> item_match it (upper_char c)))) items)"

definition is_word_at :: "string \<Rightarrow> nat \<Rightarrow> bool" where
  "is_word_at s i = (i < length s \<and> kind_match KWord (s ! i))"

definition at_boundary :: "string \<Rightarrow> nat \<Rightarrow> bool" where
  "at_boundary s i = ((0 < i \<and> is_word_at s (i - 1)) \<noteq> is_word_at s i)"

section \<open>Meaning\<close>

text \<open>
  \<open>rmatch r s i j\<close>: \<open>r\<close> matches the part of \<open>s\<close> from position \<open>i\<close> to \<open>j\<close>.
  \<open>^\<close> holds at the start only and \<open>$\<close> at the end or before a final line feed
  (no multiline option); \<open>.\<close> is any character but a line feed.
\<close>

inductive rmatch :: "rx \<Rightarrow> string \<Rightarrow> nat \<Rightarrow> nat \<Rightarrow> bool" where
  m_char: "i < length s \<Longrightarrow> fold_case ci (s ! i) = fold_case ci c \<Longrightarrow> rmatch (RChar ci c) s i (Suc i)"
| m_dot: "i < length s \<Longrightarrow> s ! i \<noteq> CHR 0x0A \<Longrightarrow> rmatch RDot s i (Suc i)"
| m_set: "i < length s \<Longrightarrow> class_match ci neg cs (s ! i) \<Longrightarrow> rmatch (RSet ci neg cs) s i (Suc i)"
| m_eps: "rmatch REps s i i"
| m_seq: "rmatch r1 s i j \<Longrightarrow> rmatch r2 s j k \<Longrightarrow> rmatch (RSeq r1 r2) s i k"
| m_altl: "rmatch r1 s i j \<Longrightarrow> rmatch (RAlt r1 r2) s i j"
| m_altr: "rmatch r2 s i j \<Longrightarrow> rmatch (RAlt r1 r2) s i j"
| m_rep_stop: "rmatch (RRep r 0 m) s i i"
| m_rep_more: "m \<noteq> Some 0 \<Longrightarrow> rmatch r s i j \<Longrightarrow> rmatch (RRep r (n - 1) (map_option (\<lambda>k. k - 1) m)) s j k \<Longrightarrow>
    rmatch (RRep r n m) s i k"
| m_bol: "rmatch RBol s 0 0"
| m_eol: "i = length s \<or> (Suc i = length s \<and> s ! i = CHR 0x0A) \<Longrightarrow> rmatch REol s i i"
| m_wordb: "at_boundary s i = b \<Longrightarrow> rmatch (RWordB b) s i i"

text \<open>A search succeeds when the expression matches from some position.\<close>

definition rx_matches :: "rx \<Rightarrow> string \<Rightarrow> bool" where
  "rx_matches r s \<longleftrightarrow> (\<exists>i j. i \<le> length s \<and> rmatch r s i j)"

text \<open>
  An expression whose characters and classes are all caseless (what a pattern
  compiled with the \<open>i\<close> option is), and the expressions that match exactly one
  character, with the test they apply to it.
\<close>

fun icase_all :: "rx \<Rightarrow> bool" where
  "icase_all (RChar ci c) = ci"
| "icase_all (RSet ci neg cs) = ci"
| "icase_all (RSeq r1 r2) = (icase_all r1 \<and> icase_all r2)"
| "icase_all (RAlt r1 r2) = (icase_all r1 \<and> icase_all r2)"
| "icase_all (RRep r n m) = icase_all r"
| "icase_all _ = True"

fun single_char :: "rx \<Rightarrow> bool" where
  "single_char (RChar ci c) = True"
| "single_char RDot = True"
| "single_char _ = False"

fun char_test :: "rx \<Rightarrow> char \<Rightarrow> bool" where
  "char_test (RChar ci c) d = (fold_case ci d = fold_case ci c)"
| "char_test RDot d = (d \<noteq> CHR 0x0A)"
| "char_test _ d = False"

section \<open>The matcher\<close>

text \<open>
  \<open>ends r s i\<close> lists the positions where a match of \<open>r\<close> from \<open>i\<close> can end. A
  sequence maps the second part over the ends of the first; a bounded repetition
  iterates that step; an unbounded one closes the set of positions under it with a
  worklist, adding only positions not yet seen and within the string.
\<close>

definition step_ends :: "(nat \<Rightarrow> nat list) \<Rightarrow> nat list \<Rightarrow> nat list" where
  "step_ends f xs = remdups (concat (map f xs))"

fun rep_exact :: "(nat \<Rightarrow> nat list) \<Rightarrow> nat \<Rightarrow> nat list \<Rightarrow> nat list" where
  "rep_exact f 0 xs = xs"
| "rep_exact f (Suc n) xs = rep_exact f n (step_ends f xs)"

fun rep_upto :: "(nat \<Rightarrow> nat list) \<Rightarrow> nat \<Rightarrow> nat list \<Rightarrow> nat list" where
  "rep_upto f 0 xs = xs"
| "rep_upto f (Suc k) xs = remdups (xs @ rep_upto f k (step_ends f xs))"

function closure_pos :: "(nat \<Rightarrow> nat list) \<Rightarrow> nat \<Rightarrow> nat list \<Rightarrow> nat list \<Rightarrow> nat list" where
  "closure_pos f len seen [] = seen"
| "closure_pos f len seen (j # fr) =
     (let new = remdups (filter (\<lambda>k. k \<notin> set seen \<and> k \<le> len) (f j))
      in closure_pos f len (seen @ new) (fr @ new))"
  by pat_completeness auto

termination closure_pos
proof (relation "measures [\<lambda>(f, len, seen, fr). card ({..len} - set seen), \<lambda>(f, len, seen, fr). length fr]")
  show "wf (measures [\<lambda>(f, len, seen, fr). card ({..len} - set seen), \<lambda>(f, len, seen, fr). length fr])" by simp
next
  fix f :: "nat \<Rightarrow> nat list" and len :: nat and seen j fr new
  assume new: "new = remdups (filter (\<lambda>k. k \<notin> set seen \<and> k \<le> len) (f j))"
  show "((f, len, seen @ new, fr @ new), f, len, seen, j # fr) \<in> measures [\<lambda>(f, len, seen, fr). card ({..len} - set seen), \<lambda>(f, len, seen, fr). length fr]"
  proof (cases "new = []")
    case False
    then obtain k where "k \<in> set new" by (cases new) auto
    with new have "{..len} - set (seen @ new) \<subset> {..len} - set seen" by auto
    then have "card ({..len} - set (seen @ new)) < card ({..len} - set seen)"
      by (intro psubset_card_mono) auto
    then show ?thesis by simp
  qed simp
qed

fun ends :: "rx \<Rightarrow> string \<Rightarrow> nat \<Rightarrow> nat list" where
  "ends (RChar ci c) s i = (if i < length s \<and> fold_case ci (s ! i) = fold_case ci c then [Suc i] else [])"
| "ends RDot s i = (if i < length s \<and> s ! i \<noteq> CHR 0x0A then [Suc i] else [])"
| "ends (RSet ci neg cs) s i = (if i < length s \<and> class_match ci neg cs (s ! i) then [Suc i] else [])"
| "ends REps s i = [i]"
| "ends (RSeq r1 r2) s i = step_ends (ends r2 s) (ends r1 s i)"
| "ends (RAlt r1 r2) s i = remdups (ends r1 s i @ ends r2 s i)"
| "ends (RRep r n None) s i =
     (let xs = rep_exact (ends r s) n [i] in closure_pos (ends r s) (length s) xs xs)"
| "ends (RRep r n (Some m)) s i =
     (if m < n then [] else rep_upto (ends r s) (m - n) (rep_exact (ends r s) n [i]))"
| "ends RBol s i = (if i = 0 then [0] else [])"
| "ends REol s i = (if i = length s \<or> (Suc i = length s \<and> s ! i = CHR 0x0A) then [i] else [])"
| "ends (RWordB b) s i = (if at_boundary s i = b then [i] else [])"

definition rx_search :: "rx \<Rightarrow> string \<Rightarrow> bool" where
  "rx_search r s = list_ex (\<lambda>i. ends r s i \<noteq> []) [0..<Suc (length s)]"


section \<open>Parsing a pattern\<close>

text \<open>
  Errors: \<open>RxSyntax m\<close> is a pattern PCRE2 refuses, with its message; \<open>RxUnsupported m\<close>
  is a construct PCRE2 accepts that the model leaves out (lookaround, back
  references, named and atomic groups, inline options, possessive quantifiers,
  POSIX classes, \<open>\<backslash>p\<close> and the remaining letter escapes).
\<close>

datatype rx_error = RxSyntax string | RxUnsupported string

definition rx_digit :: "char \<Rightarrow> bool" where
  "rx_digit c \<longleftrightarrow> CHR ''0'' \<le> c \<and> c \<le> CHR ''9''"

definition rx_alnum :: "char \<Rightarrow> bool" where
  "rx_alnum c \<longleftrightarrow> rx_digit c \<or> (CHR ''a'' \<le> c \<and> c \<le> CHR ''z'') \<or> (CHR ''A'' \<le> c \<and> c \<le> CHR ''Z'')"

definition dec_value :: "string \<Rightarrow> nat" where
  "dec_value ds = foldl (\<lambda>n c. 10 * n + (of_char c - 48)) 0 ds"

text \<open>The escape \<open>\<backslash>d\<close> inside or outside a class: a class escape, a control character, or the character itself.\<close>

definition class_escape :: "char \<Rightarrow> rx_error + class_item" where
  "class_escape d =
     (if d = CHR ''d'' then Inr (IKind KDigit False) else if d = CHR ''D'' then Inr (IKind KDigit True)
      else if d = CHR ''w'' then Inr (IKind KWord False) else if d = CHR ''W'' then Inr (IKind KWord True)
      else if d = CHR ''s'' then Inr (IKind KSpace False) else if d = CHR ''S'' then Inr (IKind KSpace True)
      else if d = CHR ''n'' then Inr (IChar (CHR 0x0A)) else if d = CHR ''t'' then Inr (IChar (CHR 0x09))
      else if d = CHR ''r'' then Inr (IChar (CHR 0x0D)) else if d = CHR ''f'' then Inr (IChar (CHR 0x0C))
      else if rx_alnum d then Inl (RxUnsupported (''escape '' @ [CHR 0x5C, d]))
      else Inr (IChar d))"

text \<open>Outside a class \<open>\<backslash>b\<close> and \<open>\<backslash>B\<close> are word boundaries; the flag says whether a quantifier may follow.\<close>

definition escape_atom :: "bool \<Rightarrow> char \<Rightarrow> rx_error + rx \<times> bool" where
  "escape_atom ci d =
     (if d = CHR ''b'' then Inr (RWordB True, False) else if d = CHR ''B'' then Inr (RWordB False, False)
      else map_sum id (\<lambda>it. (case it of IChar c \<Rightarrow> RChar ci c | _ \<Rightarrow> RSet ci False [it], True)) (class_escape d))"

text \<open>One class atom starting with \<open>c\<close>, and how many characters after \<open>c\<close> it takes.\<close>

definition class_atom :: "char \<Rightarrow> string \<Rightarrow> rx_error + class_item \<times> nat" where
  "class_atom c cs =
     (if c = CHR 0x5C then
        (case cs of [] \<Rightarrow> Inl (RxSyntax ([CHR 0x5C] @ '' at end of pattern''))
         | d # _ \<Rightarrow> map_sum id (\<lambda>it. (it, 1)) (class_escape d))
      else if c = CHR ''['' \<and> take 1 cs \<in> {'':'', ''.'', ''=''} then Inl (RxUnsupported ''POSIX class'')
      else Inr (IChar c, 0))"

text \<open>
  The items of a class up to its closing \<open>]\<close>, and the number of characters read
  (with the \<open>]\<close>): \<open>a-b\<close> is a range unless the \<open>-\<close> is last.
\<close>

function class_items :: "class_item list \<Rightarrow> nat \<Rightarrow> string \<Rightarrow> rx_error + class_item list \<times> nat" where
  "class_items acc n [] = Inl (RxSyntax ''missing terminating ] for character class'')"
| "class_items acc n (c # cs) =
     (if c = CHR '']'' then Inr (rev acc, Suc n)
      else case class_atom c cs of
        Inl e \<Rightarrow> Inl e
      | Inr (a, k) \<Rightarrow>
          (let rest = drop k cs in
           if take 1 rest = ''-'' \<and> 2 \<le> length rest \<and> rest ! 1 \<noteq> CHR '']'' then
             (case class_atom (rest ! 1) (drop 2 rest) of
                Inl e \<Rightarrow> Inl e
              | Inr (b, k2) \<Rightarrow>
                  (case (a, b) of
                     (IChar x, IChar y) \<Rightarrow>
                       if y < x then Inl (RxSyntax ''range out of order in character class'')
                       else class_items (IRange x y # acc) (n + k + k2 + 3) (drop k2 (drop 2 rest))
                   | _ \<Rightarrow> Inl (RxSyntax ''invalid range in character class'')))
           else class_items (a # acc) (Suc (n + k)) rest))"
  by pat_completeness auto
termination
  by (relation "measure (\<lambda>(acc, n, cs). length cs)") auto

text \<open>A class after \<open>[\<close>: an optional \<open>^\<close>, and a \<open>]\<close> right after them is a character.\<close>

definition char_class :: "bool \<Rightarrow> string \<Rightarrow> rx_error + rx \<times> nat" where
  "char_class ci cs =
     (let neg = (take 1 cs = ''^''); body = (if neg then drop 1 cs else cs);
          skip = (if neg then 1 else 0)
      in map_sum id (\<lambda>(its, k). (RSet ci neg its, skip + k))
           (if take 1 body = '']'' then class_items [IChar (CHR '']'')] 1 (drop 1 body)
            else class_items [] 0 body))"

text \<open>
  \<open>{n}\<close>, \<open>{n,}\<close> or \<open>{n,m}\<close> after the \<open>{\<close>, with the number of characters read;
  anything else makes the \<open>{\<close> a literal.
\<close>

definition brace_quant :: "string \<Rightarrow> (nat \<times> nat option \<times> nat) option" where
  "brace_quant cs =
     (let ds = takeWhile rx_digit cs; r = drop (length ds) cs
      in if ds = [] then None
         else if take 1 r = ''}'' then Some (dec_value ds, Some (dec_value ds), Suc (length ds))
         else if take 1 r = '','' then
           (let ds2 = takeWhile rx_digit (drop 1 r); r2 = drop (length ds2) (drop 1 r)
            in if take 1 r2 = ''}'' then
                 Some (dec_value ds, (if ds2 = [] then None else Some (dec_value ds2)),
                       length ds + length ds2 + 2)
               else None)
         else None)"

text \<open>What the last item of a sequence allows after it.\<close>

datatype last_kind = LNone | LAtom | LQuant | LLazy

fun seq_of :: "rx list \<Rightarrow> rx" where
  "seq_of [] = REps"
| "seq_of [r] = r"
| "seq_of (r # rs) = RSeq r (seq_of rs)"

fun alt_of :: "rx list \<Rightarrow> rx" where
  "alt_of [] = REps"
| "alt_of [r] = r"
| "alt_of (r # rs) = RAlt r (alt_of rs)"

fun rep_top :: "nat \<Rightarrow> nat option \<Rightarrow> rx list \<Rightarrow> rx list" where
  "rep_top n m [] = []"
| "rep_top n m (r # rs) = RRep r n m # rs"

text \<open>
  The parser reads the pattern left to right. Its state: the caseless flag of the
  pattern (fixed for the whole pattern), the enclosing groups (their alternatives
  and items so far), the finished alternatives and the items of the current group,
  both in reverse, and what the last item allows.
\<close>

definition quant_error :: rx_error where
  "quant_error = RxSyntax ''quantifier does not follow a repeatable item''"

definition close_group :: "rx list \<Rightarrow> rx list \<Rightarrow> rx" where
  "close_group alts items = alt_of (rev (seq_of (rev items) # alts))"

function rx_loop :: "bool \<Rightarrow> (rx list \<times> rx list) list \<Rightarrow> rx list \<Rightarrow> rx list \<Rightarrow> last_kind \<Rightarrow> string \<Rightarrow> rx_error + rx" where
  "rx_loop ci fr alts items lk [] =
     (if fr \<noteq> [] then Inl (RxSyntax ''missing closing parenthesis'') else Inr (close_group alts items))"
| "rx_loop ci fr alts items lk (c # cs) =
     (if c = CHR ''('' then
        (if take 2 cs = ''?:'' then rx_loop ci ((alts, items) # fr) [] [] LNone (drop 2 cs)
         else if take 1 cs = ''?'' then Inl (RxUnsupported ''group construct'')
         else if take 1 cs = ''*'' then Inl (RxUnsupported ''backtracking verb'')
         else rx_loop ci ((alts, items) # fr) [] [] LNone cs)
      else if c = CHR '')'' then
        (case fr of
           [] \<Rightarrow> Inl (RxSyntax ''unmatched closing parenthesis'')
         | (alts0, items0) # fr' \<Rightarrow> rx_loop ci fr' alts0 (close_group alts items # items0) LAtom cs)
      else if c = CHR ''|'' then rx_loop ci fr (seq_of (rev items) # alts) [] LNone cs
      else if c = CHR ''*'' \<or> c = CHR ''+'' \<or> c = CHR ''?'' then
        (if lk = LQuant \<and> c = CHR ''?'' then rx_loop ci fr alts items LLazy cs
         else if lk = LQuant \<and> c = CHR ''+'' then Inl (RxUnsupported ''possessive quantifier'')
         else if lk = LAtom then
           rx_loop ci fr alts (rep_top (if c = CHR ''+'' then 1 else 0) (if c = CHR ''?'' then Some 1 else None) items)
             LQuant cs
         else Inl quant_error)
      else if c = CHR ''{'' then
        (case brace_quant cs of
           None \<Rightarrow> rx_loop ci fr alts (RChar ci c # items) LAtom cs
         | Some (n, m, k) \<Rightarrow>
             if 65535 < n \<or> (case m of Some b \<Rightarrow> 65535 < b | None \<Rightarrow> False) then Inl (RxSyntax ''number too big in {} quantifier'')
             else if (case m of Some b \<Rightarrow> b < n | None \<Rightarrow> False) then Inl (RxSyntax ''numbers out of order in {} quantifier'')
             else if lk = LAtom then rx_loop ci fr alts (rep_top n m items) LQuant (drop k cs)
             else Inl quant_error)
      else if c = CHR ''['' then
        (case char_class ci cs of
           Inl e \<Rightarrow> Inl e
         | Inr (r, k) \<Rightarrow> rx_loop ci fr alts (r # items) LAtom (drop k cs))
      else if c = CHR 0x5C then
        (case cs of
           [] \<Rightarrow> Inl (RxSyntax ([CHR 0x5C] @ '' at end of pattern''))
         | d # cs' \<Rightarrow>
             (case escape_atom ci d of
                Inl e \<Rightarrow> Inl e
              | Inr (r, rep) \<Rightarrow> rx_loop ci fr alts (r # items) (if rep then LAtom else LNone) cs'))
      else if c = CHR ''.'' then rx_loop ci fr alts (RDot # items) LAtom cs
      else if c = CHR ''^'' then rx_loop ci fr alts (RBol # items) LNone cs
      else if c = CHR ''$'' then rx_loop ci fr alts (REol # items) LNone cs
      else rx_loop ci fr alts (RChar ci c # items) LAtom cs)"
  by pat_completeness auto
termination
  by (relation "measure (\<lambda>(ci, fr, alts, items, lk, cs). length cs)") auto

definition rx_parse :: "bool \<Rightarrow> string \<Rightarrow> rx_error + rx" where
  "rx_parse ci p = rx_loop ci [] [] [] LNone p"

text \<open>
  \<open>{$regex: p, $options: o}\<close>: the option \<open>i\<close> makes the whole pattern caseless;
  the other options (\<open>m\<close>, \<open>s\<close>, \<open>x\<close>, \<open>u\<close>) are not modelled.
\<close>

definition rx_compile :: "string \<Rightarrow> string \<Rightarrow> rx_error + rx" where
  "rx_compile opts p =
     (if list_all (\<lambda>c. c = CHR ''i'') opts then rx_parse (CHR ''i'' \<in> set opts) p
      else Inl (RxUnsupported ''regular expression option''))"


text \<open>The characters with a meaning in a pattern; a pattern without them and without \<open>.\<close> is plain.\<close>

definition regex_meta :: string where
  "regex_meta = ''^$*+?()[]{}|'' @ [CHR 0x5C]"

definition plain_pattern :: "string \<Rightarrow> bool" where
  "plain_pattern p \<longleftrightarrow> list_all (\<lambda>c. c \<notin> set regex_meta \<and> c \<noteq> CHR ''.'') p"


section \<open>The worklist closure terminates\<close>

lemma closure_pos_decreases:
  fixes f :: "nat \<Rightarrow> nat list" and len :: nat
  assumes "new = remdups (filter (\<lambda>k. k \<notin> set seen \<and> k \<le> len) (f j))"
  shows "((f, len, seen @ new, fr @ new), f, len, seen, j # fr)
    \<in> measures [\<lambda>(f, len, seen, fr). card ({..len} - set seen), \<lambda>(f, len, seen, fr). length fr]"
proof (cases "new = []")
  case True
  then show ?thesis by simp
next
  case False
  then obtain k where "k \<in> set new" by (cases new) auto
  with assms have k: "k \<le> len" "k \<notin> set seen" by auto
  have "{..len} - set (seen @ new) \<subset> {..len} - set seen"
    using k \<open>k \<in> set new\<close> by auto
  then have "card ({..len} - set (seen @ new)) < card ({..len} - set seen)"
    by (intro psubset_card_mono) auto
  then show ?thesis by simp
qed


section \<open>Lemmas on the meaning\<close>

inductive_simps rmatch_char [simp]: "rmatch (RChar ci c) s i j"
inductive_simps rmatch_dot [simp]: "rmatch RDot s i j"
inductive_simps rmatch_set [simp]: "rmatch (RSet ci neg cs) s i j"
inductive_simps rmatch_eps [simp]: "rmatch REps s i j"
inductive_simps rmatch_seq [simp]: "rmatch (RSeq r1 r2) s i k"
inductive_simps rmatch_alt [simp]: "rmatch (RAlt r1 r2) s i j"
inductive_simps rmatch_bol [simp]: "rmatch RBol s i j"
inductive_simps rmatch_eol [simp]: "rmatch REol s i j"
inductive_simps rmatch_wordb [simp]: "rmatch (RWordB b) s i j"

lemma rmatch_mono: "rmatch r s i j \<Longrightarrow> i \<le> j"
  by (induction rule: rmatch.induct) auto

lemma rmatch_bound: "rmatch r s i j \<Longrightarrow> i \<le> length s \<Longrightarrow> j \<le> length s"
  by (induction rule: rmatch.induct) auto

lemma rmatch_rep_power:
  "rmatch (RRep r n m) s i k \<longleftrightarrow>
     (\<exists>l. n \<le> l \<and> (\<forall>b. m = Some b \<longrightarrow> l \<le> b) \<and> (rmatch r s ^^ l) i k)"
proof
  assume "rmatch (RRep r n m) s i k"
  then show "\<exists>l. n \<le> l \<and> (\<forall>b. m = Some b \<longrightarrow> l \<le> b) \<and> (rmatch r s ^^ l) i k"
  proof (induction "RRep r n m" s i k arbitrary: n m rule: rmatch.induct)
    case (m_rep_stop m s i)
    then show ?case by (intro exI[of _ 0]) simp
  next
    case (m_rep_more m s i j n k)
    then obtain l where l: "n - 1 \<le> l" "\<forall>b. map_option (\<lambda>k. k - 1) m = Some b \<longrightarrow> l \<le> b"
      "(rmatch r s ^^ l) j k" by blast
    have "(rmatch r s ^^ Suc l) i k" using m_rep_more.hyps(2) l(3) by (rule relpowp_Suc_I2)
    with l(1,2) m_rep_more.hyps(1) show ?case
      by (intro exI[of _ "Suc l"]) (cases m; auto)
  qed
next
  assume "\<exists>l. n \<le> l \<and> (\<forall>b. m = Some b \<longrightarrow> l \<le> b) \<and> (rmatch r s ^^ l) i k"
  then obtain l where "n \<le> l" "\<forall>b. m = Some b \<longrightarrow> l \<le> b" "(rmatch r s ^^ l) i k" by blast
  then show "rmatch (RRep r n m) s i k"
  proof (induction l arbitrary: n m i)
    case 0
    then show ?case by (auto intro: rmatch.m_rep_stop)
  next
    case (Suc l)
    from relpowp_Suc_D2[OF Suc.prems(3)] obtain j where ij: "rmatch r s i j" and jk: "(rmatch r s ^^ l) j k"
      by blast
    have "rmatch (RRep r (n - 1) (map_option (\<lambda>k. k - 1) m)) s j k"
      using Suc.prems(1,2) jk by (intro Suc.IH) auto
    moreover have "m \<noteq> Some 0" using Suc.prems(2) by auto
    ultimately show ?case using ij by (rule rmatch.m_rep_more[rotated 2]) 
  qed
qed


section \<open>Lemmas on powers of a relation\<close>

lemma relpowp_Suc_iff: "(P ^^ Suc n) x y \<longleftrightarrow> (\<exists>z. P x z \<and> (P ^^ n) z y)"
  by (metis relpowp_Suc_D2 relpowp_Suc_I2)

lemma relpowp_transfer:
  fixes P Q :: "nat \<Rightarrow> nat \<Rightarrow> bool"
  assumes PQ: "\<And>a b. a \<le> len \<Longrightarrow> P a b \<longleftrightarrow> Q a b"
    and Qb: "\<And>a b. Q a b \<Longrightarrow> a \<le> len \<Longrightarrow> b \<le> len"
    and "i \<le> len"
  shows "(P ^^ n) i y \<longleftrightarrow> (Q ^^ n) i y"
  using assms(3)
proof (induction n arbitrary: i)
  case 0 then show ?case by simp
next
  case (Suc n)
  have "(P ^^ Suc n) i y \<longleftrightarrow> (\<exists>z. Q i z \<and> (P ^^ n) z y)"
    using PQ[OF Suc.prems] by (simp del: relpowp.simps(2) add: relpowp_Suc_iff)
  also have "\<dots> \<longleftrightarrow> (\<exists>z. Q i z \<and> (Q ^^ n) z y)"
    using Suc.IH Qb Suc.prems by blast
  finally show ?case by (simp del: relpowp.simps(2) add: relpowp_Suc_iff)
qed

lemma relpowp_bound:
  fixes Q :: "nat \<Rightarrow> nat \<Rightarrow> bool"
  assumes Qb: "\<And>a b. Q a b \<Longrightarrow> a \<le> len \<Longrightarrow> b \<le> len"
  shows "(Q ^^ n) i y \<Longrightarrow> i \<le> len \<Longrightarrow> y \<le> len"
proof (induction n arbitrary: i)
  case 0 then show ?case by simp
next
  case (Suc n)
  then obtain z where "Q i z" "(Q ^^ n) z y" by (auto simp del: relpowp.simps(2) simp add: relpowp_Suc_iff)
  with Suc.IH Qb Suc.prems(2) show ?case by blast
qed

lemma relpowp_split: "(\<exists>x. (P ^^ n) i x \<and> (P ^^ k) x y) \<longleftrightarrow> (P ^^ (n + k)) i y"
  by (simp add: relpowp_add relcompp_apply)

section \<open>Lemmas on the matcher\<close>

lemma set_step_ends [simp]: "set (step_ends f xs) = {y. \<exists>x \<in> set xs. y \<in> set (f x)}"
  by (auto simp: step_ends_def)

lemma set_rep_exact:
  "set (rep_exact f n xs) = {y. \<exists>x \<in> set xs. ((\<lambda>a b. b \<in> set (f a)) ^^ n) x y}"
proof (induction n arbitrary: xs)
  case 0 then show ?case by auto
next
  case (Suc n)
  show ?case
  proof (intro set_eqI iffI)
    fix y assume "y \<in> set (rep_exact f (Suc n) xs)"
    then obtain z where "z \<in> set (step_ends f xs)" "((\<lambda>a b. b \<in> set (f a)) ^^ n) z y"
      using Suc.IH by auto
    then obtain x where "x \<in> set xs" "z \<in> set (f x)" by auto
    then show "y \<in> {y. \<exists>x \<in> set xs. ((\<lambda>a b. b \<in> set (f a)) ^^ Suc n) x y}"
      using \<open>((\<lambda>a b. b \<in> set (f a)) ^^ n) z y\<close> by (blast intro: relpowp_Suc_I2)
  next
    fix y assume "y \<in> {y. \<exists>x \<in> set xs. ((\<lambda>a b. b \<in> set (f a)) ^^ Suc n) x y}"
    then obtain x where x: "x \<in> set xs" and "((\<lambda>a b. b \<in> set (f a)) ^^ Suc n) x y" by blast
    then obtain z where "z \<in> set (f x)" "((\<lambda>a b. b \<in> set (f a)) ^^ n) z y"
      by (blast dest: relpowp_Suc_D2)
    with x show "y \<in> set (rep_exact f (Suc n) xs)" using Suc.IH by auto
  qed
qed

lemma set_rep_upto:
  "set (rep_upto f k xs) = {y. \<exists>x \<in> set xs. \<exists>l \<le> k. ((\<lambda>a b. b \<in> set (f a)) ^^ l) x y}"
proof (induction k arbitrary: xs)
  case 0 then show ?case by auto
next
  case (Suc k)
  show ?case
  proof (intro set_eqI iffI)
    fix y assume "y \<in> set (rep_upto f (Suc k) xs)"
    then consider "y \<in> set xs" | "y \<in> set (rep_upto f k (step_ends f xs))" by auto
    then show "y \<in> {y. \<exists>x \<in> set xs. \<exists>l \<le> Suc k. ((\<lambda>a b. b \<in> set (f a)) ^^ l) x y}"
    proof cases
      case 1
      then show ?thesis by (intro CollectI bexI[of _ y] exI[of _ 0]) auto
    next
      case 2
      then obtain z l where "z \<in> set (step_ends f xs)" "l \<le> k" "((\<lambda>a b. b \<in> set (f a)) ^^ l) z y"
        using Suc.IH by blast
      moreover from this(1) obtain x where "x \<in> set xs" "z \<in> set (f x)" by auto
      ultimately show ?thesis by (blast intro: relpowp_Suc_I2)
    qed
  next
    fix y assume "y \<in> {y. \<exists>x \<in> set xs. \<exists>l \<le> Suc k. ((\<lambda>a b. b \<in> set (f a)) ^^ l) x y}"
    then obtain x l where x: "x \<in> set xs" and l: "l \<le> Suc k" and xy: "((\<lambda>a b. b \<in> set (f a)) ^^ l) x y"
      by blast
    show "y \<in> set (rep_upto f (Suc k) xs)"
    proof (cases l)
      case 0 with x xy show ?thesis by simp
    next
      case (Suc l')
      with xy obtain z where "z \<in> set (f x)" "((\<lambda>a b. b \<in> set (f a)) ^^ l') z y"
        by (blast dest: relpowp_Suc_D2)
      moreover have "l' \<le> k" using l Suc by simp
      ultimately have "y \<in> set (rep_upto f k (step_ends f xs))" using x Suc.IH by auto
      then show ?thesis by simp
    qed
  qed
qed

lemma closure_pos_set:
  fixes f :: "nat \<Rightarrow> nat list" and len :: nat
  assumes "set fr \<subseteq> set seen"
    and "\<forall>x \<in> set seen - set fr. \<forall>y \<in> set (f x). y \<le> len \<longrightarrow> y \<in> set seen"
  shows "set (closure_pos f len seen fr) = {y. \<exists>x \<in> set seen. (\<lambda>a b. b \<in> set (f a) \<and> b \<le> len)\<^sup>*\<^sup>* x y}"
  using assms
proof (induction f len seen fr rule: closure_pos.induct)
  case (1 f len seen)
  have "y \<in> set seen" if "x \<in> set seen" "(\<lambda>a b. b \<in> set (f a) \<and> b \<le> len)\<^sup>*\<^sup>* x y" for x y
    using that(2,1)
  proof (induction rule: rtranclp_induct)
    case (step y z)
    then have "y \<in> set seen" by blast
    with step.hyps(2) "1.prems"(2) show ?case by simp
  qed
  then show ?case by auto
next
  case (2 f len seen j fr)
  define new where "new = remdups (filter (\<lambda>k. k \<notin> set seen \<and> k \<le> len) (f j))"
  have j: "j \<in> set seen" using "2.prems"(1) by simp
  have inv1: "set (fr @ new) \<subseteq> set (seen @ new)" using "2.prems"(1) by auto
  have inv2: "\<forall>x \<in> set (seen @ new) - set (fr @ new). \<forall>y \<in> set (f x). y \<le> len \<longrightarrow> y \<in> set (seen @ new)"
  proof (intro ballI impI)
    fix x y assume x: "x \<in> set (seen @ new) - set (fr @ new)" and y: "y \<in> set (f x)" "y \<le> len"
    show "y \<in> set (seen @ new)"
    proof (cases "x = j")
      case True
      with y show ?thesis by (cases "y \<in> set seen") (simp_all add: new_def)
    next
      case False
      with x have "x \<in> set seen - set (j # fr)" by (auto simp: new_def)
      with "2.prems"(2) y have "y \<in> set seen" by blast
      then show ?thesis by simp
    qed
  qed
  have "set (closure_pos f len seen (j # fr)) = set (closure_pos f len (seen @ new) (fr @ new))"
    by (simp add: new_def Let_def)
  also have "\<dots> = {y. \<exists>x \<in> set (seen @ new). (\<lambda>a b. b \<in> set (f a) \<and> b \<le> len)\<^sup>*\<^sup>* x y}"
    using "2.IH"[OF new_def inv1 inv2] .
  also have "\<dots> = {y. \<exists>x \<in> set seen. (\<lambda>a b. b \<in> set (f a) \<and> b \<le> len)\<^sup>*\<^sup>* x y}"
  proof (intro set_eqI iffI; clarsimp)
    fix x y assume "x \<in> set seen \<or> x \<in> set new" and xy: "(\<lambda>a b. b \<in> set (f a) \<and> b \<le> len)\<^sup>*\<^sup>* x y"
    show "\<exists>x \<in> set seen. (\<lambda>a b. b \<in> set (f a) \<and> b \<le> len)\<^sup>*\<^sup>* x y"
    proof (cases "x \<in> set seen")
      case True with xy show ?thesis by blast
    next
      case False
      with \<open>x \<in> set seen \<or> x \<in> set new\<close> have "x \<in> set new" by blast
      then have "(\<lambda>a b. b \<in> set (f a) \<and> b \<le> len) j x" by (simp add: new_def)
      with xy j show ?thesis by (blast intro: converse_rtranclp_into_rtranclp)
    qed
  qed blast
  finally show ?case .
qed

text \<open>The ends of a repetition in terms of the powers of the step.\<close>

lemma ends_rep:
  assumes IH: "\<And>a. a \<le> length s \<Longrightarrow> set (ends r s a) = {j. rmatch r s a j}" and i: "i \<le> length s"
  shows "set (ends (RRep r n m) s i) = {j. rmatch (RRep r n m) s i j}"
proof -
  let ?P = "\<lambda>a b. b \<in> set (ends r s a)" and ?Q = "rmatch r s" and ?len = "length s"
  have Qb: "\<And>a b. ?Q a b \<Longrightarrow> a \<le> ?len \<Longrightarrow> b \<le> ?len" by (rule rmatch_bound)
  have pq: "\<And>a b. a \<le> ?len \<Longrightarrow> ?P a b \<longleftrightarrow> ?Q a b" using IH by simp
  have PQ: "\<And>k a y. a \<le> ?len \<Longrightarrow> (?P ^^ k) a y \<longleftrightarrow> (?Q ^^ k) a y"
    by (rule relpowp_transfer[where P = ?P and Q = ?Q and len = ?len, OF pq Qb])
  have xs: "set (rep_exact (ends r s) n [i]) = {x. (?Q ^^ n) i x}"
    using PQ[OF i] by (simp add: set_rep_exact)
  have xb: "x \<le> ?len" if "(?Q ^^ n) i x" for x
    using relpowp_bound[OF Qb that i] .
  show ?thesis
  proof (cases m)
    case None
    let ?R = "\<lambda>a b. b \<in> set (ends r s a) \<and> b \<le> ?len"
    have rq: "\<And>a b. a \<le> ?len \<Longrightarrow> ?R a b \<longleftrightarrow> ?Q a b" using IH Qb by auto
    have RQ: "\<And>k a y. a \<le> ?len \<Longrightarrow> (?R ^^ k) a y \<longleftrightarrow> (?Q ^^ k) a y"
      by (rule relpowp_transfer[where P = ?R and Q = ?Q and len = ?len, OF rq Qb])
    have "set (ends (RRep r n m) s i) = {y. \<exists>x. (?Q ^^ n) i x \<and> ?R\<^sup>*\<^sup>* x y}"
      using None closure_pos_set[of "rep_exact (ends r s) n [i]" "rep_exact (ends r s) n [i]" "ends r s" ?len]
      by (simp add: xs Let_def)
    also have "\<dots> = {y. \<exists>x k. (?Q ^^ n) i x \<and> (?Q ^^ k) x y}"
    proof -
      have "?R\<^sup>*\<^sup>* x y \<longleftrightarrow> (\<exists>k. (?Q ^^ k) x y)" if "x \<le> ?len" for x y
        using RQ[OF that] by (simp add: rtranclp_power)
      with xb show ?thesis by blast
    qed
    also have "\<dots> = {y. \<exists>l. n \<le> l \<and> (?Q ^^ l) i y}"
    proof (intro set_eqI iffI)
      fix y assume "y \<in> {y. \<exists>x k. (?Q ^^ n) i x \<and> (?Q ^^ k) x y}"
      then obtain k where "(?Q ^^ (n + k)) i y" using relpowp_split[where P = ?Q and n = n and i = i and y = y] by blast
      then show "y \<in> {y. \<exists>l. n \<le> l \<and> (?Q ^^ l) i y}" by (intro CollectI exI[of _ "n + k"]) simp
    next
      fix y assume "y \<in> {y. \<exists>l. n \<le> l \<and> (?Q ^^ l) i y}"
      then obtain l where "n \<le> l" "(?Q ^^ l) i y" by blast
      then show "y \<in> {y. \<exists>x k. (?Q ^^ n) i x \<and> (?Q ^^ k) x y}"
        using relpowp_split[where P = ?Q and n = n and i = i and k = "l - n" and y = y] by auto
    qed
    finally show ?thesis using None by (simp add: rmatch_rep_power)
  next
    case (Some b)
    show ?thesis
    proof (cases "b < n")
      case True
      with Some show ?thesis by (auto simp: rmatch_rep_power)
    next
      case False
      have "set (ends (RRep r n m) s i) = {y. \<exists>x l. (?Q ^^ n) i x \<and> l \<le> b - n \<and> (?Q ^^ l) x y}"
        using Some False PQ xb by (auto simp: xs set_rep_upto)
      also have "\<dots> = {y. \<exists>l. n \<le> l \<and> l \<le> b \<and> (?Q ^^ l) i y}"
      proof (intro set_eqI iffI)
        fix y assume "y \<in> {y. \<exists>x l. (?Q ^^ n) i x \<and> l \<le> b - n \<and> (?Q ^^ l) x y}"
        then obtain x k where "(?Q ^^ n) i x" "k \<le> b - n" "(?Q ^^ k) x y" by blast
        then have "(?Q ^^ (n + k)) i y" "n \<le> n + k" "n + k \<le> b"
          using False relpowp_split[where P = ?Q and n = n and i = i and k = k and y = y] by auto
        then show "y \<in> {y. \<exists>l. n \<le> l \<and> l \<le> b \<and> (?Q ^^ l) i y}" by blast
      next
        fix y assume "y \<in> {y. \<exists>l. n \<le> l \<and> l \<le> b \<and> (?Q ^^ l) i y}"
        then obtain l where l: "n \<le> l" "l \<le> b" "(?Q ^^ l) i y" by blast
        then obtain x where "(?Q ^^ n) i x" "(?Q ^^ (l - n)) x y"
          using relpowp_split[where P = ?Q and n = n and i = i and k = "l - n" and y = y] by auto
        moreover have "l - n \<le> b - n" using l(2) by simp
        ultimately show "y \<in> {y. \<exists>x l. (?Q ^^ n) i x \<and> l \<le> b - n \<and> (?Q ^^ l) x y}" by blast
      qed
      finally show ?thesis using Some by (simp add: rmatch_rep_power)
    qed
  qed
qed

lemma ends_correct: "i \<le> length s \<Longrightarrow> set (ends r s i) = {j. rmatch r s i j}"
proof (induction r arbitrary: i)
  case (RSeq r1 r2)
  have "set (ends (RSeq r1 r2) s i) = {k. \<exists>j. rmatch r1 s i j \<and> k \<in> set (ends r2 s j)}"
    using RSeq.IH(1)[OF RSeq.prems] by auto
  also have "\<dots> = {k. \<exists>j. rmatch r1 s i j \<and> rmatch r2 s j k}"
    using RSeq.IH(2) rmatch_bound[OF _ RSeq.prems] by blast
  finally show ?case by simp
next
  case (RRep r n m)
  then show ?case by (intro ends_rep) auto
next
  case (RChar ci c) then show ?case by (auto simp del: rmatch_char simp: rmatch_char[of ci c s i])
next
  case (RSet ci neg cs) then show ?case by (auto simp del: rmatch_set simp: rmatch_set[of ci neg cs s i])
qed auto

lemma rx_search_iff: "rx_search r s \<longleftrightarrow> (\<exists>i \<le> length s. \<exists>j. rmatch r s i j)"
proof -
  have "rx_search r s \<longleftrightarrow> (\<exists>i \<le> length s. set (ends r s i) \<noteq> {})"
    unfolding rx_search_def list_ex_iff by (auto simp: less_Suc_eq_le simp del: upt_Suc)
  also have "\<dots> \<longleftrightarrow> (\<exists>i \<le> length s. \<exists>j. rmatch r s i j)"
  proof -
    have "set (ends r s i) \<noteq> {} \<longleftrightarrow> (\<exists>j. rmatch r s i j)" if "i \<le> length s" for i
      using ends_correct[OF that] by auto
    then show ?thesis by blast
  qed
  finally show ?thesis .
qed

section \<open>Case folding of the subject\<close>

text \<open>
  Caseless items compare characters after ASCII case folding and treat a class
  as containing both cases of its letters, so lower-casing the subject string
  never changes a match of a caseless expression.
\<close>

lemma of_char_inj: "of_char c = (of_char d :: nat) \<longleftrightarrow> c = d"
  by (metis char_of_char)

lemma is_upper_iff: "(CHR ''A'' \<le> c \<and> c \<le> CHR ''Z'') \<longleftrightarrow> 65 \<le> (of_char c :: nat) \<and> (of_char c :: nat) \<le> 90"
  by (simp add: less_eq_char_def)

lemma of_char_lower:
  "(of_char (lower_char c) :: nat) = (if 65 \<le> (of_char c :: nat) \<and> (of_char c :: nat) \<le> 90 then of_char c + 32 else of_char c)"
  by (simp add: lower_char_def less_eq_char_def of_char_of)

lemma of_char_upper:
  "(of_char (upper_char c) :: nat) = (if 97 \<le> (of_char c :: nat) \<and> (of_char c :: nat) \<le> 122 then of_char c - 32 else of_char c)"
  using nat_of_char_less_256[of c] by (auto simp: upper_char_def less_eq_char_def of_char_of)

lemma lower_char_idem [simp]: "lower_char (lower_char c) = lower_char c"
  by (simp add: of_char_inj[symmetric] of_char_lower)

lemma lower_char_upper_case:
  "65 \<le> (of_char c :: nat) \<and> (of_char c :: nat) \<le> 90 \<Longrightarrow> upper_char (lower_char c) = c \<and> upper_char c = c"
  by (simp add: of_char_inj[symmetric] of_char_lower of_char_upper)

lemma lower_char_other:
  "\<not> (65 \<le> (of_char c :: nat) \<and> (of_char c :: nat) \<le> 90) \<Longrightarrow> lower_char c = c"
  by (simp add: of_char_inj[symmetric] of_char_lower)

lemma lower_char_newline [simp]: "lower_char c = CHR 0x0A \<longleftrightarrow> c = CHR 0x0A"
  by (simp add: of_char_inj[symmetric] of_char_lower)

lemma kind_match_lower [simp]: "kind_match k (lower_char c) = kind_match k c"
proof (cases "65 \<le> (of_char c :: nat) \<and> (of_char c :: nat) \<le> 90")
  case True
  then have "97 \<le> (of_char (lower_char c) :: nat) \<and> (of_char (lower_char c) :: nat) \<le> 122"
    by (simp add: of_char_lower)
  with True show ?thesis
    by (cases k) (simp_all add: less_eq_char_def of_char_inj[symmetric])
next
  case False
  then show ?thesis by (simp add: lower_char_other)
qed

lemma fold_case_newline [simp]: "fold_case ci c = CHR 0x0A \<longleftrightarrow> c = CHR 0x0A"
  by (simp add: fold_case_def)

lemma fold_case_nl [simp]: "fold_case ci (CHR 0x0A) = CHR 0x0A"
  by (simp add: fold_case_def lower_char_def)

lemma fold_case_lower [simp]: "fold_case True (lower_char c) = fold_case True c"
  by (simp add: fold_case_def)

lemma class_match_lower [simp]: "class_match True neg cs (lower_char c) = class_match True neg cs c"
proof (cases "65 \<le> (of_char c :: nat) \<and> (of_char c :: nat) \<le> 90")
  case True
  then show ?thesis
    unfolding class_match_def list_ex_iff using lower_char_upper_case[OF True] by auto
next
  case False
  then show ?thesis by (simp add: lower_char_other)
qed

lemma nth_lower [simp]: "i < length s \<Longrightarrow> lower s ! i = lower_char (s ! i)"
  by (simp add: lower_def)

lemma is_word_at_lower [simp]: "is_word_at (lower s) i = is_word_at s i"
  by (cases "i < length s") (simp_all add: is_word_at_def del: kind_match.simps)

lemma at_boundary_lower [simp]: "at_boundary (lower s) i = at_boundary s i"
  by (simp add: at_boundary_def del: is_word_at_def)

lemma rmatch_lower_iff: "icase_all r \<Longrightarrow> rmatch r (lower s) i j \<longleftrightarrow> rmatch r s i j"
proof
  assume "rmatch r (lower s) i j" and "icase_all r"
  then show "rmatch r s i j"
  proof (induction r "lower s" i j rule: rmatch.induct)
    case (m_char i ci c) then show ?case by (intro rmatch.m_char) simp_all
  next
    case (m_dot i) then show ?case by (intro rmatch.m_dot) simp_all
  next
    case (m_set i ci neg cs) then show ?case by (intro rmatch.m_set) simp_all
  next
    case (m_eol i) then show ?case by (intro rmatch.m_eol) auto
  next
    case (m_wordb b i) then show ?case by (intro rmatch.m_wordb) simp
  qed (auto intro: rmatch.m_eps rmatch.m_seq rmatch.m_altl rmatch.m_altr rmatch.m_rep_stop
      rmatch.m_rep_more rmatch.m_bol)
next
  assume "rmatch r s i j" and "icase_all r"
  then show "rmatch r (lower s) i j"
  proof (induction rule: rmatch.induct)
    case (m_char i s ci c) then show ?case by (intro rmatch.m_char) simp_all
  next
    case (m_dot i s) then show ?case by (intro rmatch.m_dot) simp_all
  next
    case (m_set i s ci neg cs) then show ?case by (intro rmatch.m_set) simp_all
  next
    case (m_eol i s) then show ?case by (intro rmatch.m_eol) auto
  next
    case (m_wordb s i b) then show ?case by (intro rmatch.m_wordb) simp
  qed (auto intro: rmatch.m_eps rmatch.m_seq rmatch.m_altl rmatch.m_altr rmatch.m_rep_stop
      rmatch.m_rep_more rmatch.m_bol)
qed

lemma rx_matches_lower: "icase_all r \<Longrightarrow> rx_matches r (lower s) \<longleftrightarrow> rx_matches r s"
  by (simp add: rx_matches_def rmatch_lower_iff)

section \<open>Plain patterns\<close>

text \<open>
  A pattern without metacharacters parses to the sequence of its characters, and
  searching it is case-insensitive substring search.
\<close>

lemma rx_loop_plain:
  "plain_pattern p \<Longrightarrow>
   rx_loop ci fr alts items lk (p @ rest) =
     rx_loop ci fr alts (rev (map (RChar ci) p) @ items) (if p = [] then lk else LAtom) rest"
proof (induction p arbitrary: items lk)
  case Nil then show ?case by simp
next
  case (Cons c p)
  then have c: "c \<notin> set regex_meta" "c \<noteq> CHR ''.''" and p: "plain_pattern p"
    by (simp_all add: plain_pattern_def)
  then have "rx_loop ci fr alts items lk ((c # p) @ rest) = rx_loop ci fr alts (RChar ci c # items) LAtom (p @ rest)"
    by (simp add: regex_meta_def)
  also have "\<dots> = rx_loop ci fr alts (rev (map (RChar ci) (c # p)) @ items) LAtom rest"
    using Cons.IH[OF p] by simp
  finally show ?case by simp
qed

lemma rx_parse_plain: "plain_pattern p \<Longrightarrow> rx_parse ci p = Inr (seq_of (map (RChar ci) p))"
  using rx_loop_plain[of p ci "[]" "[]" "[]" LNone "[]"] by (simp add: rx_parse_def close_group_def)

lemma rx_parse_dot:
  assumes "plain_pattern p" and "plain_pattern q"
  shows "rx_parse ci (p @ CHR ''.'' # q) = Inr (seq_of (map (RChar ci) p @ RDot # map (RChar ci) q))"
proof -
  have "rx_parse ci (p @ CHR ''.'' # q) =
      rx_loop ci [] [] (rev (map (RChar ci) p)) (if p = [] then LNone else LAtom) (CHR ''.'' # q)"
    using rx_loop_plain[OF assms(1), of ci "[]" "[]" "[]" LNone] by (simp add: rx_parse_def)
  also have "\<dots> = rx_loop ci [] [] (RDot # rev (map (RChar ci) p)) LAtom q"
    by simp
  also have "\<dots> = rx_loop ci [] [] (rev (map (RChar ci) q) @ RDot # rev (map (RChar ci) p)) LAtom []"
    using rx_loop_plain[OF assms(2), of ci "[]" "[]" _ LAtom "[]"] by (cases q) simp_all
  finally show ?thesis by (simp add: close_group_def)
qed

lemma rmatch_single:
  "single_char r \<Longrightarrow> rmatch r s i j \<longleftrightarrow> j = Suc i \<and> i < length s \<and> char_test r (s ! i)"
  by (cases r) auto

lemma rmatch_chars:
  "list_all single_char rs \<Longrightarrow> i \<le> length s \<Longrightarrow>
   rmatch (seq_of rs) s i j \<longleftrightarrow>
     j = i + length rs \<and> j \<le> length s \<and> list_all2 char_test rs (take (length rs) (drop i s))"
proof (induction rs arbitrary: i rule: induct_list012)
  case 1 then show ?case by auto
next
  case (2 r)
  show ?case
  proof (cases "i < length s")
    case True
    then have "drop i s = s ! i # drop (Suc i) s" by (rule Cons_nth_drop_Suc[symmetric])
    with True "2.prems"(1) show ?thesis by (auto simp: rmatch_single Suc_le_eq)
  next
    case False
    with "2.prems"(1) show ?thesis by (simp add: rmatch_single)
  qed
next
  case (3 r r' rs)
  let ?q = "r' # rs"
  have r: "single_char r" and q: "list_all single_char ?q" using "3.prems"(1) by simp_all
  have "rmatch (seq_of (r # ?q)) s i j \<longleftrightarrow>
      i < length s \<and> char_test r (s ! i) \<and> rmatch (seq_of ?q) s (Suc i) j"
    using rmatch_single[OF r] by auto
  also have "\<dots> \<longleftrightarrow> i < length s \<and> char_test r (s ! i) \<and> j = Suc i + length ?q \<and>
      j \<le> length s \<and> list_all2 char_test ?q (take (length ?q) (drop (Suc i) s))"
  proof (cases "i < length s")
    case True
    with "3.IH"(2)[OF q, of "Suc i"] show ?thesis by (simp add: Suc_le_eq)
  qed simp
  also have "\<dots> \<longleftrightarrow> j = i + length (r # ?q) \<and> j \<le> length s \<and>
      list_all2 char_test (r # ?q) (take (length (r # ?q)) (drop i s))"
  proof (cases "i < length s")
    case True
    then have "drop i s = s ! i # drop (Suc i) s" by (rule Cons_nth_drop_Suc[symmetric])
    with True show ?thesis by (simp add: conj_ac)
  next
    case False
    then show ?thesis by simp
  qed
  finally show ?case .
qed

lemma sublist_take_drop:
  "sublist xs ys \<longleftrightarrow> (\<exists>i. i + length xs \<le> length ys \<and> take (length xs) (drop i ys) = xs)"
proof
  assume "sublist xs ys"
  then obtain ps ss where "ys = ps @ xs @ ss" by (auto simp: sublist_def)
  then show "\<exists>i. i + length xs \<le> length ys \<and> take (length xs) (drop i ys) = xs"
    by (intro exI[of _ "length ps"]) simp
next
  assume "\<exists>i. i + length xs \<le> length ys \<and> take (length xs) (drop i ys) = xs"
  then obtain i where "i + length xs \<le> length ys" "take (length xs) (drop i ys) = xs" by blast
  then have "drop i ys = xs @ drop (length xs) (drop i ys)"
    by (metis append_take_drop_id)
  then have "ys = take i ys @ xs @ drop (length xs) (drop i ys)"
    by (metis append_take_drop_id)
  then show "sublist xs ys" unfolding sublist_def by blast
qed

lemma rx_search_chars:
  assumes "list_all single_char rs"
  shows "rx_search (seq_of rs) s \<longleftrightarrow>
    (\<exists>i. i + length rs \<le> length s \<and> list_all2 char_test rs (take (length rs) (drop i s)))"
proof -
  have "rx_search (seq_of rs) s \<longleftrightarrow> (\<exists>i \<le> length s. \<exists>j. rmatch (seq_of rs) s i j)"
    by (rule rx_search_iff)
  also have "\<dots> \<longleftrightarrow> (\<exists>i. i + length rs \<le> length s \<and> list_all2 char_test rs (take (length rs) (drop i s)))"
  proof
    assume "\<exists>i \<le> length s. \<exists>j. rmatch (seq_of rs) s i j"
    then obtain i j where i: "i \<le> length s" and "rmatch (seq_of rs) s i j" by blast
    then have "j = i + length rs \<and> j \<le> length s \<and> list_all2 char_test rs (take (length rs) (drop i s))"
      by (simp only: rmatch_chars[OF assms i]) simp
    then show "\<exists>i. i + length rs \<le> length s \<and> list_all2 char_test rs (take (length rs) (drop i s))"
      by blast
  next
    assume "\<exists>i. i + length rs \<le> length s \<and> list_all2 char_test rs (take (length rs) (drop i s))"
    then obtain i where i: "i + length rs \<le> length s" "list_all2 char_test rs (take (length rs) (drop i s))"
      by blast
    moreover have i': "i \<le> length s" using i(1) by simp
    ultimately have "rmatch (seq_of rs) s i (i + length rs)" by (simp add: rmatch_chars[OF assms i'])
    with i' show "\<exists>i \<le> length s. \<exists>j. rmatch (seq_of rs) s i j" by auto
  qed
  finally show ?thesis .
qed

lemma char_test_lits:
  "list_all2 char_test (map (RChar ci) p) w \<longleftrightarrow>
     length w = length p \<and> map (fold_case ci) w = map (fold_case ci) p"
proof (induction p arbitrary: w)
  case Nil then show ?case by auto
next
  case (Cons c p)
  then show ?case by (cases w) (auto simp: list_all2_Cons1)
qed

lemma take_drop_fold:
  "take n (drop i (map (fold_case ci) s)) = map (fold_case ci) (take n (drop i s))"
  by (simp add: take_map drop_map)

lemma single_char_lits: "list_all single_char (map (RChar ci) p)"
  by (induction p) simp_all

lemma rx_search_plain:
  "rx_search (seq_of (map (RChar ci) p)) s \<longleftrightarrow> sublist (map (fold_case ci) p) (map (fold_case ci) s)"
proof -
  have "rx_search (seq_of (map (RChar ci) p)) s \<longleftrightarrow>
      (\<exists>i. i + length p \<le> length s \<and> list_all2 char_test (map (RChar ci) p) (take (length p) (drop i s)))"
    using rx_search_chars[OF single_char_lits, of ci p s] by simp
  also have "\<dots> \<longleftrightarrow> (\<exists>i. i + length p \<le> length s \<and>
      take (length p) (drop i (map (fold_case ci) s)) = map (fold_case ci) p)"
    by (auto simp: char_test_lits take_drop_fold)
  also have "\<dots> \<longleftrightarrow> sublist (map (fold_case ci) p) (map (fold_case ci) s)"
    by (simp add: sublist_take_drop)
  finally show ?thesis .
qed

text \<open>A dot between two plain parts stands for any character but a line feed.\<close>

lemma char_test_dot:
  "list_all2 char_test (map (RChar ci) p @ RDot # map (RChar ci) q) w \<longleftrightarrow>
     (\<exists>d. d \<noteq> CHR 0x0A \<and> map (fold_case ci) w = map (fold_case ci) (p @ d # q))"
proof
  assume "list_all2 char_test (map (RChar ci) p @ RDot # map (RChar ci) q) w"
  then obtain us vs where w: "w = us @ vs" and us: "list_all2 char_test (map (RChar ci) p) us"
    and vs: "list_all2 char_test (RDot # map (RChar ci) q) vs"
    by (auto simp: list_all2_append1)
  from vs obtain d ws where "vs = d # ws" "char_test RDot d" "list_all2 char_test (map (RChar ci) q) ws"
    by (auto simp: list_all2_Cons1)
  with w us show "\<exists>d. d \<noteq> CHR 0x0A \<and> map (fold_case ci) w = map (fold_case ci) (p @ d # q)"
    by (auto simp: char_test_lits)
next
  assume "\<exists>d. d \<noteq> CHR 0x0A \<and> map (fold_case ci) w = map (fold_case ci) (p @ d # q)"
  then obtain d where d: "d \<noteq> CHR 0x0A" and eq: "map (fold_case ci) w = map (fold_case ci) (p @ d # q)"
    by blast
  have len: "length w = length p + Suc (length q)" using arg_cong[OF eq, of length] by simp
  have us: "map (fold_case ci) (take (length p) w) = map (fold_case ci) p"
    using arg_cong[OF eq, of "take (length p)"] by (simp add: take_map[symmetric])
  have "map (fold_case ci) (drop (length p) w) = fold_case ci d # map (fold_case ci) q"
    using arg_cong[OF eq, of "drop (length p)"] by (simp add: drop_map[symmetric])
  then obtain d' ws where vs: "drop (length p) w = d' # ws" and d': "fold_case ci d' = fold_case ci d"
    and ws: "map (fold_case ci) ws = map (fold_case ci) q"
    by (cases "drop (length p) w") auto
  have "d' \<noteq> CHR 0x0A"
  proof
    assume nl: "d' = CHR 0x0A"
    have "fold_case ci d = CHR 0x0A" using d' nl fold_case_nl[of ci] by metis
    with d show False by simp
  qed
  moreover have lw: "length ws = length q" using arg_cong[OF ws, of length] by (simp only: length_map)
  ultimately have B: "list_all2 char_test (RDot # map (RChar ci) q) (drop (length p) w)"
    using vs ws by (simp add: char_test_lits)
  have lu: "length (take (length p) w) = length p" using len by simp
  have A: "list_all2 char_test (map (RChar ci) p) (take (length p) w)"
    unfolding char_test_lits using lu us by blast
  show "list_all2 char_test (map (RChar ci) p @ RDot # map (RChar ci) q) w"
    using list_all2_appendI[OF A B] by (simp only: append_take_drop_id)
qed

lemma rx_search_dot:
  "rx_search (seq_of (map (RChar ci) p @ RDot # map (RChar ci) q)) s \<longleftrightarrow>
     (\<exists>d. d \<noteq> CHR 0x0A \<and> sublist (map (fold_case ci) (p @ d # q)) (map (fold_case ci) s))"
proof -
  let ?n = "length p + Suc (length q)"
  have "rx_search (seq_of (map (RChar ci) p @ RDot # map (RChar ci) q)) s \<longleftrightarrow>
      (\<exists>i. i + ?n \<le> length s \<and>
        (\<exists>d. d \<noteq> CHR 0x0A \<and> map (fold_case ci) (take ?n (drop i s)) = map (fold_case ci) (p @ d # q)))"
    using rx_search_chars[of "map (RChar ci) p @ RDot # map (RChar ci) q" s]
      char_test_dot[of ci p q] single_char_lits[of ci p] single_char_lits[of ci q] by simp
  also have "\<dots> \<longleftrightarrow> (\<exists>d. d \<noteq> CHR 0x0A \<and> (\<exists>i. i + ?n \<le> length s \<and>
      take ?n (drop i (map (fold_case ci) s)) = map (fold_case ci) (p @ d # q)))"
    by (simp only: take_drop_fold) blast
  also have "\<dots> \<longleftrightarrow> (\<exists>d. d \<noteq> CHR 0x0A \<and> sublist (map (fold_case ci) (p @ d # q)) (map (fold_case ci) s))"
  proof -
    have "sublist (map (fold_case ci) (p @ d # q)) (map (fold_case ci) s) \<longleftrightarrow>
        (\<exists>i. i + ?n \<le> length s \<and> take ?n (drop i (map (fold_case ci) s)) = map (fold_case ci) (p @ d # q))"
      for d
      using sublist_take_drop[of "map (fold_case ci) (p @ d # q)" "map (fold_case ci) s"] by simp
    then show ?thesis by simp
  qed
  finally show ?thesis .
qed

section \<open>A pattern compiled with the i option is caseless\<close>


lemma icase_seq_of: "list_all icase_all xs \<Longrightarrow> icase_all (seq_of xs)"
  by (induction xs rule: seq_of.induct) simp_all

lemma icase_alt_of: "list_all icase_all xs \<Longrightarrow> icase_all (alt_of xs)"
  by (induction xs rule: alt_of.induct) simp_all

lemma icase_close_group:
  "list_all icase_all alts \<Longrightarrow> list_all icase_all items \<Longrightarrow> icase_all (close_group alts items)"
  by (simp add: close_group_def icase_alt_of icase_seq_of)

lemma icase_rep_top: "list_all icase_all items \<Longrightarrow> list_all icase_all (rep_top n m items)"
  by (cases items) simp_all

lemma icase_char_class: "char_class True cs = Inr (r, k) \<Longrightarrow> icase_all r"
  by (auto simp: char_class_def Let_def map_sum_def split: sum.splits)

lemma icase_escape_atom: "escape_atom True d = Inr (r, rep) \<Longrightarrow> icase_all r"
  by (auto simp: escape_atom_def map_sum_def split: if_splits sum.splits class_item.splits)


lemma icase_rx_loop:
  "rx_loop ci fr alts items lk cs = Inr r \<Longrightarrow> ci \<Longrightarrow>
   list_all (\<lambda>(a, b). list_all icase_all a \<and> list_all icase_all b) fr \<Longrightarrow>
   list_all icase_all alts \<Longrightarrow> list_all icase_all items \<Longrightarrow> icase_all r"
proof (induction ci fr alts items lk cs rule: rx_loop.induct)
  case (1 ci fr alts items lk)
  then show ?case by (auto simp: icase_close_group split: if_splits)
next
  case (2 ci fr alts items lk c cs)
  note P = "2.prems" and IH = "2.IH"
  have L: "list_all (\<lambda>(a, b). list_all icase_all a \<and> list_all icase_all b) ((alts, items) # fr)"
    using P by simp
  consider (open_nc) "c = CHR ''(''" "take 2 cs = ''?:''"
    | (open_g) "c = CHR ''(''" "take 2 cs \<noteq> ''?:''"
    | (close) "c = CHR '')''"
    | (bar) "c = CHR ''|''"
    | (quant) "c = CHR ''*'' \<or> c = CHR ''+'' \<or> c = CHR ''?''"
    | (brace) "c = CHR ''{''"
    | (cls) "c = CHR ''[''"
    | (esc) "c = CHR 0x5C"
    | (other) "c \<notin> {CHR ''('', CHR '')'', CHR ''|'', CHR ''*'', CHR ''+'', CHR ''?'', CHR ''{'', CHR ''['', CHR 0x5C}"
    by blast
  then show ?case
  proof cases
    case open_nc
    with P(1) have "rx_loop ci ((alts, items) # fr) [] [] LNone (drop 2 cs) = Inr r" by simp
    with open_nc P(2) L show ?thesis by (intro IH(1)) simp_all
  next
    case open_g
    with P(1) have "take 1 cs \<noteq> ''?''" "take 1 cs \<noteq> ''*''"
      "rx_loop ci ((alts, items) # fr) [] [] LNone cs = Inr r" by (simp_all split: if_splits)
    with open_g P(2) L show ?thesis by (intro IH(2)) simp_all
  next
    case close
    with P(1) obtain alts0 items0 fr' where fr: "fr = (alts0, items0) # fr'"
      and eq: "rx_loop ci fr' alts0 (close_group alts items # items0) LAtom cs = Inr r"
      by (auto split: list.splits)
    have nc: "c \<noteq> CHR ''(''" using close by simp
    show ?thesis using IH(3)[OF nc close fr refl] eq P(2-5) fr by (simp add: icase_close_group)
  next
    case bar
    with P(1) have "rx_loop ci fr (seq_of (rev items) # alts) [] LNone cs = Inr r" by simp
    with bar P(2-5) show ?thesis by (intro IH(4)) (simp_all add: icase_seq_of)
  next
    case quant
    then have nq: "c \<noteq> CHR ''(''" "c \<noteq> CHR '')''" "c \<noteq> CHR ''|''" by auto
    consider (lazy) "lk = LQuant \<and> c = CHR ''?''" "rx_loop ci fr alts items LLazy cs = Inr r"
      | (rep) "\<not> (lk = LQuant \<and> c = CHR ''?'')" "\<not> (lk = LQuant \<and> c = CHR ''+'')" "lk = LAtom"
          "rx_loop ci fr alts (rep_top (if c = CHR ''+'' then 1 else 0) (if c = CHR ''?'' then Some 1 else None) items)
             LQuant cs = Inr r"
      using P(1) quant nq by (auto split: if_splits)
    then show ?thesis
    proof cases
      case lazy with quant nq P(2-5) show ?thesis by (intro IH(5)) simp_all
    next
      case rep with quant nq P(2-5) show ?thesis by (intro IH(6)) (simp_all add: icase_rep_top)
    qed
  next
    case brace
    consider (lit) "brace_quant cs = None" | (q) n m k where "brace_quant cs = Some (n, m, k)"
      by (cases "brace_quant cs") auto
    then show ?thesis
    proof cases
      case lit
      with P(1) brace have "rx_loop ci fr alts (RChar ci c # items) LAtom cs = Inr r" by simp
      with lit brace P(2-5) show ?thesis by (intro IH(7)) simp_all
    next
      case q
      with P(1) brace have c: "\<not> (65535 < n \<or> (case m of Some b \<Rightarrow> 65535 < b | None \<Rightarrow> False))"
        "\<not> (case m of Some b \<Rightarrow> b < n | None \<Rightarrow> False)" "lk = LAtom"
        "rx_loop ci fr alts (rep_top n m items) LQuant (drop k cs) = Inr r"
        by (simp_all split: if_splits)
      with q brace P(2-5) show ?thesis by (intro IH(8)) (simp_all add: icase_rep_top)
    qed
  next
    case cls
    with P(1) obtain r0 k where cc: "char_class ci cs = Inr (r0, k)"
      and eq: "rx_loop ci fr alts (r0 # items) LAtom (drop k cs) = Inr r"
      by (auto split: sum.splits)
    have "icase_all r0" using cc P(2) by (auto dest: icase_char_class)
    with cls cc eq P(2-5) show ?thesis by (intro IH(9)) simp_all
  next
    case esc
    with P(1) obtain d cs' r0 rep where cs: "cs = d # cs'" and ea: "escape_atom ci d = Inr (r0, rep)"
      and eq: "rx_loop ci fr alts (r0 # items) (if rep then LAtom else LNone) cs' = Inr r"
      by (auto split: list.splits sum.splits)
    have "icase_all r0" using ea P(2) by (auto dest: icase_escape_atom)
    with esc cs ea eq P(2-5) show ?thesis by (intro IH(10)) simp_all
  next
    case other
    then have nc: "c \<noteq> CHR ''(''" "c \<noteq> CHR '')''" "c \<noteq> CHR ''|''" "c \<noteq> CHR ''*''" "c \<noteq> CHR ''+''"
      "c \<noteq> CHR ''?''" "c \<noteq> CHR ''{''" "c \<noteq> CHR ''[''" "c \<noteq> CHR 0x5C" by auto
    consider "c = CHR ''.''" | "c = CHR ''^''" | "c = CHR ''$''"
      | "c \<noteq> CHR ''.''" "c \<noteq> CHR ''^''" "c \<noteq> CHR ''$''" by blast
    then show ?thesis
    proof cases
      case 1 with P nc show ?thesis by (intro IH(11)) simp_all
    next
      case 2 with P nc show ?thesis by (intro IH(12)) simp_all
    next
      case 3 with P nc show ?thesis by (intro IH(13)) simp_all
    next
      case 4 with P nc show ?thesis by (intro IH(14)) simp_all
    qed
  qed
qed

lemma icase_rx_parse: "rx_parse True p = Inr r \<Longrightarrow> icase_all r"
  by (auto simp: rx_parse_def dest: icase_rx_loop)

section \<open>The matcher decides the meaning\<close>

text \<open>
  The executable search agrees with the meaning of every expression on every
  string: \<open>rx_search r s\<close> holds exactly when \<open>r\<close> matches some part of \<open>s\<close> that
  starts at a position of \<open>s\<close>, repetitions and closures included.
\<close>

lemma rx_search_matches: "rx_search r s \<longleftrightarrow> rx_matches r s"
  by (simp add: rx_search_iff rx_matches_def)

text \<open>
  The worklist closure used for unbounded repetition terminates on every input:
  each round either adds a new position within the string to the seen list or
  shortens the worklist.
\<close>

theorem closure_pos_terminates: "All closure_pos_dom"
proof (relation "measures [\<lambda>(f, len, seen, fr). card ({..len} - set seen), \<lambda>(f, len, seen, fr). length fr]")
  show "wf (measures [\<lambda>(f, len, seen, fr). card ({..len} - set seen), \<lambda>(f, len, seen, fr). length fr])"
    by simp
next
  fix f :: "nat \<Rightarrow> nat list" and len :: nat and seen j fr new
  assume "new = remdups (filter (\<lambda>k. k \<notin> set seen \<and> k \<le> len) (f j))"
  then show "((f, len, seen @ new, fr @ new), f, len, seen, j # fr)
      \<in> measures [\<lambda>(f, len, seen, fr). card ({..len} - set seen), \<lambda>(f, len, seen, fr). length fr]"
    by (rule closure_pos_decreases)
qed

end
