(* ===== verification/Query.thy ===== *)
theory Query
  imports Store Regex "HOL-Library.Product_Lexorder"
begin

text \<open>
  The read side of the store as \<open>getBooks\<close> uses it: query predicates (the
  documents that \<open>$and\<close>, \<open>$or\<close>, \<open>$regex\<close> with its \<open>$options\<close>, and field equality
  build), their evaluation on a document, the sort order of \<open>.sort({f: order})\<close>,
  and \<open>find(q).sort(s).skip(k).limit(l)\<close> and \<open>countDocuments(q)\<close>. Modelled from
  the specification (sections 4.1 and 6) and MongoDB's documented semantics; the
  regular expressions are those of theory \<open>Regex\<close>.
\<close>

section \<open>Predicates\<close>

datatype sort_order = Asc | Desc

text \<open>
  \<open>CAll\<close> is the empty filter \<open>{}\<close>; \<open>CRegex f p o\<close> is
  \<open>{f: {$regex: p, $options: o}}\<close>; \<open>CEq f v\<close> is \<open>{f: v}\<close>.
\<close>

datatype cond = CAll | CAnd "cond list" | COr "cond list" | CRegex string string string | CEq string string

section \<open>Errors in a predicate\<close>

text \<open>
  The store refuses \<open>$and\<close> and \<open>$or\<close> with an empty array, and a \<open>$regex\<close> that
  PCRE does not compile, with PCRE's message. \<open>cond_error\<close> is the first error met
  in document order.
\<close>

definition regex_error :: "string \<Rightarrow> string \<Rightarrow> string option" where
  "regex_error opts p =
     (case rx_compile opts p of
        Inl (RxSyntax m) \<Rightarrow> Some (''Regular expression is invalid: '' @ m)
      | _ \<Rightarrow> None)"

definition empty_logical_error :: string where
  "empty_logical_error = ''$and/$or/$nor must be a nonempty array''"

fun first_error :: "string option list \<Rightarrow> string option" where
  "first_error [] = None"
| "first_error (Some m # es) = Some m"
| "first_error (None # es) = first_error es"

fun cond_error :: "cond \<Rightarrow> string option" where
  "cond_error CAll = None"
| "cond_error (CAnd cs) = (if cs = [] then Some empty_logical_error else first_error (map cond_error cs))"
| "cond_error (COr cs) = (if cs = [] then Some empty_logical_error else first_error (map cond_error cs))"
| "cond_error (CRegex f p opts) = regex_error opts p"
| "cond_error (CEq f v) = None"

section \<open>Regular expressions\<close>

text \<open>
  \<open>{$regex: p, $options: o}\<close> on a string: the pattern compiled with its
  options is searched in the string (theory \<open>Regex\<close>). A pattern the model does not cover
  (\<open>RxUnsupported\<close>) is read as matching nothing; the theorems about searching
  assume a pattern that parses.
\<close>

definition regex_match :: "string \<Rightarrow> string \<Rightarrow> string \<Rightarrow> bool" where
  "regex_match opts p s = (case rx_compile opts p of Inr r \<Rightarrow> rx_search r s | Inl e \<Rightarrow> False)"

section \<open>Matching a document\<close>

text \<open>
  A regular expression or an equality on an array field matches when some element
  matches; a missing field is null and matches neither.
\<close>

definition regex_value :: "string \<Rightarrow> string \<Rightarrow> mvalue \<Rightarrow> bool" where
  "regex_value opts p v =
     (case v of
        MStr s \<Rightarrow> regex_match opts p s
      | MArr vs \<Rightarrow> list_ex (\<lambda>w. case w of MStr s \<Rightarrow> regex_match opts p s | _ \<Rightarrow> False) vs
      | _ \<Rightarrow> False)"

definition eq_value :: "string \<Rightarrow> mvalue \<Rightarrow> bool" where
  "eq_value x v = (case v of MStr s \<Rightarrow> s = x | MArr vs \<Rightarrow> MStr x \<in> set vs | _ \<Rightarrow> False)"

fun matches :: "cond \<Rightarrow> book \<Rightarrow> bool" where
  "matches CAll b = True"
| "matches (CAnd cs) b = list_all (\<lambda>c. matches c b) cs"
| "matches (COr cs) b = list_ex (\<lambda>c. matches c b) cs"
| "matches (CRegex f p opts) b = regex_value opts p (field_value b f)"
| "matches (CEq f x) b = eq_value x (field_value b f)"

section \<open>Sort order\<close>

text \<open>
  Sort keys follow MongoDB's comparison order on the values a book has: an empty
  array first, then null (a missing field), strings in byte order, embedded
  documents (compared as equal here). An array sorts by its least element in
  ascending and by its greatest in descending order. Records with equal keys keep
  their natural order (MongoDB leaves their order unspecified; the theorems below
  do not depend on it).
\<close>

fun scalar_key :: "mvalue \<Rightarrow> nat \<times> string" where
  "scalar_key MNull = (1, [])"
| "scalar_key (MStr s) = (2, s)"
| "scalar_key (MDoc fs) = (3, [])"
| "scalar_key (MArr vs) = (4, [])"

fun sort_value_key :: "sort_order \<Rightarrow> mvalue \<Rightarrow> nat \<times> string" where
  "sort_value_key d (MArr []) = (0, [])"
| "sort_value_key Asc (MArr (v # vs)) = fold min (map scalar_key vs) (scalar_key v)"
| "sort_value_key Desc (MArr (v # vs)) = fold max (map scalar_key vs) (scalar_key v)"
| "sort_value_key d v = scalar_key v"

fun apply_sort :: "(string \<times> sort_order) option \<Rightarrow> book list \<Rightarrow> book list" where
  "apply_sort None bs = bs"
| "apply_sort (Some (f, Asc)) bs = sort_key (\<lambda>b. sort_value_key Asc (field_value b f)) bs"
| "apply_sort (Some (f, Desc)) bs =
     rev (sort_key (\<lambda>b. sort_value_key Desc (field_value b f)) (rev bs))"

text \<open>The order \<open>.sort({f: d})\<close> leaves between consecutive records.\<close>

definition sort_le :: "string \<Rightarrow> sort_order \<Rightarrow> book \<Rightarrow> book \<Rightarrow> bool" where
  "sort_le f d b c =
     (case d of
        Asc \<Rightarrow> sort_value_key Asc (field_value b f) \<le> sort_value_key Asc (field_value c f)
      | Desc \<Rightarrow> sort_value_key Desc (field_value c f) \<le> sort_value_key Desc (field_value b f))"

section \<open>Find and count\<close>

text \<open>
  \<open>find(q).sort(s).skip(k).limit(l)\<close>: sort, then skip, then limit, whatever the
  order of the calls. A negative skip is refused, before the filter is read (the
  find command checks its options when it is parsed, the filter when the query is
  planned); a limit of 0 means no limit and a negative limit is read as its
  absolute value.
\<close>

definition find_query ::
    "cond \<Rightarrow> (string \<times> sort_order) option \<Rightarrow> int \<Rightarrow> int \<Rightarrow> book_store \<Rightarrow> store_error + book list" where
  "find_query q srt skip lim st =
     (if skip < 0 then Inl (BadValue ''skip must be non-negative'')
      else
        (case cond_error q of
           Some m \<Rightarrow> Inl (BadValue m)
         | None \<Rightarrow>
             (let rest = drop (nat skip) (apply_sort srt (filter (matches q) (books st)))
              in Inr (if lim = 0 then rest else take (nat \<bar>lim\<bar>) rest))))"

definition count_documents :: "cond \<Rightarrow> book_store \<Rightarrow> store_error + nat" where
  "count_documents q st =
     (case cond_error q of
        Some m \<Rightarrow> Inl (BadValue m)
      | None \<Rightarrow> Inr (length (filter (matches q) (books st))))"


section \<open>Lemmas on errors and patterns\<close>

lemma first_error_None [simp]: "first_error es = None \<longleftrightarrow> list_all (\<lambda>e. e = None) es"
  by (induction es rule: first_error.induct) auto

lemma first_error_append:
  "first_error (xs @ ys) = (case first_error xs of None \<Rightarrow> first_error ys | Some m \<Rightarrow> Some m)"
  by (induction xs rule: first_error.induct) simp_all

lemma rx_compile_i [simp]: "rx_compile ''i'' p = rx_parse True p"
  by (simp add: rx_compile_def)

lemma regex_error_plain: "plain_pattern p \<Longrightarrow> regex_error ''i'' p = None"
  by (simp add: regex_error_def rx_parse_plain)

text \<open>On a pattern without metacharacters the match is case-insensitive substring search.\<close>

lemma map_fold_case_True [simp]: "map (fold_case True) s = lower s"
  by (simp add: lower_def fold_case_def[abs_def])

lemma regex_match_plain:
  "plain_pattern p \<Longrightarrow> regex_match ''i'' p s \<longleftrightarrow> sublist (lower p) (lower s)"
  by (simp add: regex_match_def rx_parse_plain rx_search_plain)

text \<open>A dot between two plain parts stands for any one character but a newline.\<close>

lemma regex_match_dot:
  "plain_pattern p \<Longrightarrow> plain_pattern q \<Longrightarrow> regex_match ''i'' (p @ CHR ''.'' # q) s \<longleftrightarrow>
     (\<exists>d. d \<noteq> CHR 0x0A \<and> sublist (lower (p @ d # q)) (lower s))"
  by (simp add: regex_match_def rx_parse_dot rx_search_dot del: map_append list.map)

section \<open>Lemmas on sorting and the page window\<close>

lemma mset_apply_sort [simp]: "mset (apply_sort srt bs) = mset bs"
  by (cases "(srt, bs)" rule: apply_sort.cases) simp_all

lemma set_apply_sort [simp]: "set (apply_sort srt bs) = set bs"
  by (metis mset_apply_sort set_mset_mset)

lemma length_apply_sort [simp]: "length (apply_sort srt bs) = length bs"
  by (metis mset_apply_sort size_mset)

lemma sorted_apply_sort: "sorted_wrt (sort_le f d) (apply_sort (Some (f, d)) bs)"
proof (cases d)
  case Asc
  have "sorted (map (\<lambda>b. sort_value_key Asc (field_value b f)) (sort_key (\<lambda>b. sort_value_key Asc (field_value b f)) bs))"
    by (rule sorted_sort_key)
  with Asc show ?thesis by (simp add: sort_le_def[abs_def] sorted_map)
next
  case Desc
  have "sorted (map (\<lambda>b. sort_value_key Desc (field_value b f))
      (sort_key (\<lambda>b. sort_value_key Desc (field_value b f)) (rev bs)))"
    by (rule sorted_sort_key)
  with Desc show ?thesis by (simp add: sort_le_def[abs_def] sorted_map sorted_wrt_rev)
qed

lemma find_query_ok:
  "cond_error q = None \<Longrightarrow> 0 \<le> skip \<Longrightarrow> find_query q srt skip lim st =
     Inr (let rest = drop (nat skip) (apply_sort srt (filter (matches q) (books st)))
          in if lim = 0 then rest else take (nat \<bar>lim\<bar>) rest)"
  by (simp add: find_query_def Let_def)

lemma count_documents_ok:
  "cond_error q = None \<Longrightarrow> count_documents q st = Inr (length (filter (matches q) (books st)))"
  by (simp add: count_documents_def)

end
