(* ===== verification/QueryBuilder.thy ===== *)
theory QueryBuilder
  imports Query
begin

text \<open>
  \<open>getBooks\<close> (\<open>book.service.ts\<close>, lines 9-59): the predicate built from the search
  term and the exact-match filters, the sort condition, the pagination window from
  the pagination helper, and the two store calls (the page, then the count). The
  helper \<open>calculate_pagination\<close> and the constant \<open>books_searchable_fields\<close> live
  outside the given sources and are modelled from the specification. The abstract
  specification of which records a filter selects is \<open>selected\<close>; the theorems
  show that the built predicate implements it and what \<open>getBooks\<close> returns.
\<close>

section \<open>Inputs and outputs\<close>

text \<open>\<open>IBookFilterableFields\<close>: the optional search term and the remaining field filters.\<close>

record book_filter =
  searchTerm :: "string option"
  filters_data :: "(string \<times> string) list"

text \<open>\<open>IPaginationOptions\<close> and what \<open>calculate_pagination\<close> makes of it.\<close>

record pagination_options =
  page :: "int option"
  limit :: "int option"
  sortBy :: "string option"
  sortOrder :: "sort_order option"

record pagination =
  pg_page :: int
  pg_limit :: int
  pg_skip :: int
  pg_sortBy :: "string option"
  pg_sortOrder :: "sort_order option"

text \<open>\<open>IGenericResponse\<close>: \<open>{meta: {page, limit, total}, data}\<close>.\<close>

record response_meta =
  meta_page :: int
  meta_limit :: int
  meta_total :: nat

record books_response =
  meta :: response_meta
  data :: "book list"

section \<open>Configuration and the pagination helper\<close>

definition books_searchable_fields :: "string list" where
  "books_searchable_fields = [''title'', ''author'', ''genre'']"

text \<open>Page 1 and limit 10 by default; skip is \<open>(page - 1) * limit\<close>; sort fields pass through.\<close>

definition calculate_pagination :: "pagination_options \<Rightarrow> pagination" where
  "calculate_pagination opts =
     (let p = (case page opts of None \<Rightarrow> 1 | Some n \<Rightarrow> n);
          l = (case limit opts of None \<Rightarrow> 10 | Some n \<Rightarrow> n)
      in \<lparr>pg_page = p, pg_limit = l, pg_skip = (p - 1) * l,
          pg_sortBy = sortBy opts, pg_sortOrder = sortOrder opts\<rparr>)"

section \<open>Building the query\<close>

text \<open>
  Lines 15-24: a non-empty search term (JavaScript truthiness: the empty string
  counts as absent) gives one \<open>$or\<close> of case-insensitive regular expressions over the
  searchable fields.
\<close>

definition search_condition :: "string option \<Rightarrow> cond list" where
  "search_condition st =
     (case st of
        None \<Rightarrow> []
      | Some t \<Rightarrow> if t = [] then [] else [COr (map (\<lambda>f. CRegex f t ''i'') books_searchable_fields)])"

text \<open>Lines 26-32: the remaining fields, if any, give one \<open>$and\<close> of equalities.\<close>

definition filter_condition :: "(string \<times> string) list \<Rightarrow> cond list" where
  "filter_condition fd = (if fd = [] then [] else [CAnd (map (\<lambda>(f, v). CEq f v) fd)])"

definition and_conditions :: "book_filter \<Rightarrow> cond list" where
  "and_conditions flt = search_condition (searchTerm flt) @ filter_condition (filters_data flt)"

text \<open>Line 39: a sort only when both the field and the order are given (and the field is non-empty).\<close>

definition sort_conditions :: "string option \<Rightarrow> sort_order option \<Rightarrow> (string \<times> sort_order) option" where
  "sort_conditions sb so =
     (case (sb, so) of
        (Some f, Some d) \<Rightarrow> if f = [] then None else Some (f, d)
      | _ \<Rightarrow> None)"

text \<open>Lines 41-42.\<close>

definition where_condition :: "cond list \<Rightarrow> cond" where
  "where_condition cs = (if cs \<noteq> [] then CAnd cs else CAll)"

definition getBooks ::
    "book_filter \<Rightarrow> pagination_options \<Rightarrow> book_store \<Rightarrow> store_error + books_response" where
  "getBooks flt pagination_options st =
     (let conds = and_conditions flt;
          pg = calculate_pagination pagination_options;
          srt = sort_conditions (pg_sortBy pg) (pg_sortOrder pg);
          q = where_condition conds
      in case find_query q srt (pg_skip pg) (pg_limit pg) st of
           Inl e \<Rightarrow> Inl e
         | Inr result \<Rightarrow>
             (case count_documents q st of
                Inl e \<Rightarrow> Inl e
              | Inr n_total \<Rightarrow>
                  Inr \<lparr>meta = \<lparr>meta_page = pg_page pg, meta_limit = pg_limit pg, meta_total = n_total\<rparr>,
                       data = result\<rparr>))"

section \<open>Specification\<close>

text \<open>
  Section 4.1 of the specification: a record is selected when the search term is
  absent (or empty) or matches one of the searchable fields, and every field filter
  matches its field exactly.
\<close>

text \<open>The store refuses a search term that is not a valid pattern, with PCRE's message.\<close>

definition search_error :: "string option \<Rightarrow> string option" where
  "search_error st = (case st of None \<Rightarrow> None | Some t \<Rightarrow> if t = [] then None else regex_error ''i'' t)"

definition search_hit :: "string \<Rightarrow> book \<Rightarrow> bool" where
  "search_hit t b = list_ex (\<lambda>f. regex_value ''i'' t (field_value b f)) books_searchable_fields"

definition selected :: "book_filter \<Rightarrow> book \<Rightarrow> bool" where
  "selected flt b \<longleftrightarrow>
     (case searchTerm flt of None \<Rightarrow> True | Some t \<Rightarrow> t = [] \<or> search_hit t b) \<and>
     list_all (\<lambda>(f, v). eq_value v (field_value b f)) (filters_data flt)"

text \<open>The page of a list: skip, then at most \<open>limit\<close> elements (none taken off for limit 0).\<close>

definition window :: "int \<Rightarrow> int \<Rightarrow> 'a list \<Rightarrow> 'a list" where
  "window skip lim xs =
     (let rest = drop (nat skip) xs in if lim = 0 then rest else take (nat \<bar>lim\<bar>) rest)"


section \<open>Sample data\<close>

text \<open>Stores used by the concrete instances of the theorems below.\<close>

definition mk_book :: "object_id \<Rightarrow> string \<Rightarrow> string \<Rightarrow> string \<Rightarrow> book" where
  "mk_book oid t a g = \<lparr>title = t, author = a, genre = g, publication_date = ''2000-01-01'',
     reviews = [], wishlist = [], read_soon = [], currently_reading = [], finished = [],
     book_id = oid\<rparr>"

definition tolkien_book :: book where
  "tolkien_book = mk_book ''000000000000000000000000'' ''The Hobbit'' ''J.R.R. Tolkien'' ''Fantasy''"

definition catalog :: book_store where
  "catalog = \<lparr>books = [tolkien_book,
     mk_book ''000000000000000000000001'' ''Dune'' ''Frank Herbert'' ''Science Fiction'',
     mk_book ''000000000000000000000002'' ''Emma'' ''Jane Austen'' ''Romance'',
     mk_book ''000000000000000000000003'' ''Ulysses'' ''James Joyce'' ''Classic'',
     mk_book ''000000000000000000000004'' ''Beloved'' ''Toni Morrison'' ''Classic'',
     mk_book ''000000000000000000000005'' ''Dracula'' ''Bram Stoker'' ''Horror'',
     mk_book ''000000000000000000000006'' ''Hamlet'' ''William Shakespeare'' ''Drama'',
     mk_book ''000000000000000000000007'' ''Walden'' ''Henry Thoreau'' ''Essay'',
     mk_book ''000000000000000000000008'' ''Rebecca'' ''Daphne du Maurier'' ''Mystery'',
     mk_book ''000000000000000000000009'' ''Odyssey'' ''Homer'' ''Epic''],
     next_oid = 10\<rparr>"

definition first_page :: pagination_options where
  "first_page = \<lparr>page = Some 1, limit = Some 10, sortBy = None, sortOrder = None\<rparr>"

section \<open>Lemmas on the built predicate\<close>

lemma cond_error_search_condition:
  "first_error (map cond_error (search_condition st)) = search_error st"
proof (cases st)
  case (Some t)
  then show ?thesis
    by (cases "regex_error ''i'' t") (simp_all add: search_condition_def search_error_def books_searchable_fields_def)
qed (simp add: search_condition_def search_error_def)

lemma cond_error_filter_condition: "first_error (map cond_error (filter_condition fd)) = None"
  by (auto simp: filter_condition_def list_all_iff)

lemma matches_where_condition:
  "matches (where_condition cs) b = list_all (\<lambda>c. matches c b) cs"
  by (simp add: where_condition_def)

lemma matches_search_condition:
  "list_all (\<lambda>c. matches c b) (search_condition st) =
     (case st of None \<Rightarrow> True | Some t \<Rightarrow> t = [] \<or> search_hit t b)"
  by (auto simp: search_condition_def search_hit_def list_ex_iff split: option.split)

lemma matches_filter_condition:
  "list_all (\<lambda>c. matches c b) (filter_condition fd) =
     list_all (\<lambda>(f, v). eq_value v (field_value b f)) fd"
  by (auto simp: filter_condition_def list_all_iff)

lemma filter_matches_selected:
  "filter (matches (where_condition (and_conditions flt))) bs = filter (selected flt) bs"
  by (rule filter_cong)
    (simp_all add: matches_where_condition and_conditions_def matches_search_condition
      matches_filter_condition selected_def)

lemma cond_error_and_conditions:
  "cond_error (where_condition (and_conditions flt)) = search_error (searchTerm flt)"
proof (cases "and_conditions flt = []")
  case True
  then have "search_condition (searchTerm flt) = []" by (simp add: and_conditions_def)
  then have "search_error (searchTerm flt) = None"
    by (auto simp: search_condition_def search_error_def split: option.splits if_splits)
  then show ?thesis by (simp add: where_condition_def True)
next
  case False
  then have "cond_error (where_condition (and_conditions flt)) = first_error (map cond_error (and_conditions flt))"
    by (simp add: where_condition_def)
  also have "\<dots> = search_error (searchTerm flt)"
    by (simp add: and_conditions_def first_error_append cond_error_search_condition
        cond_error_filter_condition split: option.split)
  finally show ?thesis .
qed

lemma search_error_plain: "plain_pattern t \<Longrightarrow> search_error (Some t) = None"
  by (simp add: search_error_def regex_error_plain)

text \<open>The facts that evaluate the pagination and the validity of a plain search term.\<close>

lemmas request_simps = calculate_pagination_def first_page_def search_error_def regex_error_plain
  plain_pattern_def regex_meta_def

section \<open>Lemmas on the page window\<close>

lemma mset_drop_subseteq: "mset (drop n xs) \<subseteq># mset xs"
  by (metis append_take_drop_id mset_append mset_subset_eq_add_right)

lemma mset_take_subseteq: "mset (take n xs) \<subseteq># mset xs"
  by (metis append_take_drop_id mset_append mset_subset_eq_add_left)

lemma mset_window_subseteq: "mset (window s l xs) \<subseteq># mset xs"
proof -
  have "mset (take m (drop n xs)) \<subseteq># mset xs" for m n
    using mset_take_subseteq[of m "drop n xs"] mset_drop_subseteq[of n xs]
    by (rule subset_mset.order_trans)
  then show ?thesis by (simp add: window_def Let_def mset_drop_subseteq)
qed

lemma set_window_subset: "set (window s l xs) \<subseteq> set xs"
  by (metis mset_window_subseteq set_mset_mono set_mset_mset)

lemma sorted_wrt_window: "sorted_wrt P xs \<Longrightarrow> sorted_wrt P (window s l xs)"
  by (simp add: window_def Let_def sorted_wrt_take sorted_wrt_drop)

lemma length_window: "l \<noteq> 0 \<Longrightarrow> length (window s l xs) \<le> nat \<bar>l\<bar>"
  by (simp add: window_def Let_def)

lemma getBooks_eq:
  "getBooks flt opts st =
     (let pg = calculate_pagination opts;
          sel = filter (selected flt) (books st)
      in if pg_skip pg < 0 then Inl (BadValue ''skip must be non-negative'')
         else case search_error (searchTerm flt) of
           Some m \<Rightarrow> Inl (BadValue m)
         | None \<Rightarrow>
             Inr \<lparr>meta = \<lparr>meta_page = pg_page pg, meta_limit = pg_limit pg,
                              meta_total = length sel\<rparr>,
                 data = window (pg_skip pg) (pg_limit pg)
                   (apply_sort (sort_conditions (pg_sortBy pg) (pg_sortOrder pg)) sel)\<rparr>)"
  by (simp add: getBooks_def find_query_def count_documents_def cond_error_and_conditions
      filter_matches_selected window_def Let_def split: option.split)

lemma getBooks_Inr:
  assumes "getBooks flt opts st = Inr r"
  shows "search_error (searchTerm flt) = None \<and> 0 \<le> pg_skip (calculate_pagination opts) \<and>
    meta_total (meta r) = length (filter (selected flt) (books st)) \<and>
    meta_limit (meta r) = pg_limit (calculate_pagination opts) \<and>
    data r = window (pg_skip (calculate_pagination opts)) (pg_limit (calculate_pagination opts))
      (apply_sort (sort_conditions (pg_sortBy (calculate_pagination opts))
         (pg_sortOrder (calculate_pagination opts))) (filter (selected flt) (books st)))"
  using assms by (auto simp: getBooks_eq Let_def split: if_splits option.splits)

lemma getBooks_data_sub:
  "getBooks flt opts st = Inr r \<Longrightarrow> mset (data r) \<subseteq># mset (filter (selected flt) (books st))"
  using getBooks_Inr[of flt opts st r] mset_window_subseteq by (metis mset_apply_sort)

lemma getBooks_data_selected:
  "getBooks flt opts st = Inr r \<Longrightarrow> list_all (selected flt) (data r)"
  using getBooks_data_sub[of flt opts st r]
  by (auto simp: list_all_iff dest!: set_mset_mono)

lemma getBooks_Inr_iff:
  "(\<exists>r. getBooks flt opts st = Inr r) \<longleftrightarrow>
     search_error (searchTerm flt) = None \<and> 0 \<le> pg_skip (calculate_pagination opts)"
  by (simp add: getBooks_eq Let_def split: option.split)

lemma field_value_searchable [simp]:
  "field_value b ''title'' = MStr (title b)" "field_value b ''author'' = MStr (author b)"
  "field_value b ''genre'' = MStr (genre b)"
  by (simp_all add: field_value_def)

section \<open>The predicate implements the specification\<close>

text \<open>
  C14: the predicate \<open>getBooks\<close> sends never has an empty \<open>$and\<close> or \<open>$or\<close>: the
  store refuses it exactly when the search term is not a valid pattern, with that
  pattern's error; and it selects exactly the records the specification selects:
  search term absent, empty or matching a searchable field, and every field filter
  matching exactly.
\<close>

theorem where_condition_refines:
  "cond_error (where_condition (and_conditions flt)) = search_error (searchTerm flt) \<and>
   matches (where_condition (and_conditions flt)) b = selected flt b"
  using filter_matches_selected[of flt "[b]"] cond_error_and_conditions[of flt]
  by (simp split: if_splits)

section \<open>The search clause\<close>

text \<open>
  C2: the \<open>$or\<close> of case-insensitive regular expressions that \<open>getBooks\<close> builds
  from a search term (lines 15-24) selects a record exactly when the term is empty
  or parses as a pattern that matches, in the sense of the inductive meaning
  \<open>rmatch\<close>, part of the record's title, author or genre; a term that does not
  parse selects nothing.
\<close>

theorem search_clause_meaning:
  "list_all (\<lambda>c. matches c b) (search_condition (Some t)) \<longleftrightarrow>
     t = [] \<or>
     (case rx_parse True t of
        Inr r \<Rightarrow> rx_matches r (title b) \<or> rx_matches r (author b) \<or> rx_matches r (genre b)
      | Inl e \<Rightarrow> False)"
  by (simp add: matches_search_condition search_hit_def books_searchable_fields_def regex_value_def
      regex_match_def rx_search_matches split: sum.split)

text \<open>
  C3: the search clause is insensitive to the case of the record's text: a record
  and the same record with its title, author and genre in lower case are selected
  alike, for every search term. The regular expressions are built with the option
  \<open>i\<close> (line 20), which makes every character of the compiled pattern caseless.
\<close>

theorem search_case_insensitive:
  "list_all (\<lambda>c. matches c (b\<lparr>title := lower (title b), author := lower (author b),
       genre := lower (genre b)\<rparr>)) (search_condition st) \<longleftrightarrow>
   list_all (\<lambda>c. matches c b) (search_condition st)"
proof -
  have "regex_match ''i'' t (lower s) = regex_match ''i'' t s" for t s
  proof (cases "rx_parse True t")
    case (Inr r)
    then have "icase_all r" by (rule icase_rx_parse)
    with Inr show ?thesis by (simp add: regex_match_def rx_search_matches rx_matches_lower)
  qed (simp add: regex_match_def)
  then show ?thesis
    by (simp add: matches_search_condition search_hit_def books_searchable_fields_def regex_value_def
        split: option.split)
qed

section \<open>What getBooks returns\<close>

text \<open>
  C15: \<open>getBooks\<close> fails exactly when the computed skip is negative or, failing
  that, the search term is not a valid pattern (with the store's
  regular-expression error); otherwise the
  page is the sort-ordered selected records from the skip on, at most \<open>limit\<close> of
  them (all of them for limit 0), and the total is the number of all selected
  records.
\<close>

theorem getBooks_result:
  "getBooks flt opts st =
     (let pg = calculate_pagination opts;
          sel = filter (selected flt) (books st)
      in if pg_skip pg < 0 then Inl (BadValue ''skip must be non-negative'')
         else case search_error (searchTerm flt) of
           Some m \<Rightarrow> Inl (BadValue m)
         | None \<Rightarrow>
             Inr \<lparr>meta = \<lparr>meta_page = pg_page pg, meta_limit = pg_limit pg,
                              meta_total = length sel\<rparr>,
                 data = window (pg_skip pg) (pg_limit pg)
                   (apply_sort (sort_conditions (pg_sortBy pg) (pg_sortOrder pg)) sel)\<rparr>)"
  by (simp add: getBooks_def find_query_def count_documents_def cond_error_and_conditions
      filter_matches_selected window_def Let_def split: option.split)

text \<open>
  C16: the total is independent of the pagination: two successful calls with the
  same filter on the same store report the same total, the number of all selected
  records.
\<close>

theorem getBooks_total_independent:
  assumes "getBooks flt o1 st = Inr r1" and "getBooks flt o2 st = Inr r2"
  shows "meta_total (meta r1) = meta_total (meta r2) \<and>
    meta_total (meta r1) = length (filter (selected flt) (books st))"
  using getBooks_Inr[OF assms(1)] getBooks_Inr[OF assms(2)] by simp

text \<open>
  C17: every record of a page is selected by the filter and is a record of the
  store (no record twice more often than stored), and a page never holds more
  records than the reported total.
\<close>

theorem getBooks_sound:
  assumes "getBooks flt opts st = Inr r"
  shows "list_all (selected flt) (data r) \<and> mset (data r) \<subseteq># mset (books st) \<and>
    length (data r) \<le> meta_total (meta r)"
proof -
  let ?sel = "filter (selected flt) (books st)"
  obtain s l srt where d: "data r = window s l (apply_sort srt ?sel)"
    and t: "meta_total (meta r) = length ?sel"
    using getBooks_Inr[OF assms] by blast
  have sub: "mset (data r) \<subseteq># mset ?sel"
    using mset_window_subseteq[of s l "apply_sort srt ?sel"] by (simp add: d)
  then have "set (data r) \<subseteq> set ?sel"
    by (metis set_mset_mono set_mset_mset)
  then have "list_all (selected flt) (data r)"
    by (auto simp: list_all_iff)
  moreover have "mset (data r) \<subseteq># mset (books st)"
    using sub multiset_filter_subset[of "selected flt" "mset (books st)"]
    by (simp only: mset_filter)
  moreover have "length (data r) \<le> meta_total (meta r)"
    using size_mset_mono[OF sub] unfolding t size_mset .
  ultimately show ?thesis by blast
qed

text \<open>C18: with a positive limit a page holds at most \<open>limit\<close> records.\<close>

theorem getBooks_page_bound:
  assumes "getBooks flt opts st = Inr r" and "0 < pg_limit (calculate_pagination opts)"
  shows "length (data r) \<le> nat (pg_limit (calculate_pagination opts))"
proof -
  let ?l = "pg_limit (calculate_pagination opts)"
  obtain s xs where "data r = window s ?l xs"
    using getBooks_Inr[OF assms(1)] by blast
  moreover have "length (window s ?l xs) \<le> nat \<bar>?l\<bar>"
    using assms(2) by (intro length_window) simp
  ultimately show ?thesis using assms(2) by simp
qed

text \<open>
  C19: with no search term and no field filter the total is the number of records
  in the store and the page is a window of all records.
\<close>

theorem getBooks_no_filter:
  assumes "getBooks \<lparr>searchTerm = None, filters_data = []\<rparr> opts st = Inr r"
  shows "meta_total (meta r) = length (books st) \<and> mset (data r) \<subseteq># mset (books st) \<and>
    data r = window (pg_skip (calculate_pagination opts)) (pg_limit (calculate_pagination opts))
      (apply_sort (sort_conditions (pg_sortBy (calculate_pagination opts))
         (pg_sortOrder (calculate_pagination opts))) (books st))"
proof -
  have all: "filter (selected \<lparr>searchTerm = None, filters_data = []\<rparr>) (books st) = books st"
    by (simp add: selected_def)
  obtain s l srt where d: "data r = window s l (apply_sort srt (books st))"
    using getBooks_Inr[OF assms] unfolding all by blast
  have "mset (data r) \<subseteq># mset (books st)"
    using mset_window_subseteq[of s l "apply_sort srt (books st)"]
    unfolding d mset_apply_sort .
  moreover from getBooks_Inr[OF assms]
  have "meta_total (meta r) = length (books st)"
    and "data r = window (pg_skip (calculate_pagination opts)) (pg_limit (calculate_pagination opts))
      (apply_sort (sort_conditions (pg_sortBy (calculate_pagination opts))
         (pg_sortOrder (calculate_pagination opts))) (books st))"
    by (simp_all only: all)
  ultimately show ?thesis by (intro conjI)
qed


lemma getBooks_total_independent_witness:
  "\<exists>r1 r2. getBooks \<lparr>searchTerm = Some ''a'', filters_data = []\<rparr> first_page catalog = Inr r1 \<and>
     getBooks \<lparr>searchTerm = Some ''a'', filters_data = []\<rparr> (first_page\<lparr>page := Some 2, limit := Some 5\<rparr>)
       catalog = Inr r2 \<and>
     meta_total (meta r1) = meta_total (meta r2) \<and>
     meta_total (meta r1) = length (filter (selected \<lparr>searchTerm = Some ''a'', filters_data = []\<rparr>) (books catalog))"
proof -
  obtain r1 where 1: "getBooks \<lparr>searchTerm = Some ''a'', filters_data = []\<rparr> first_page catalog = Inr r1"
    using getBooks_Inr_iff by (fastforce simp: request_simps)
  obtain r2 where 2: "getBooks \<lparr>searchTerm = Some ''a'', filters_data = []\<rparr>
      (first_page\<lparr>page := Some 2, limit := Some 5\<rparr>) catalog = Inr r2"
    using getBooks_Inr_iff by (fastforce simp: request_simps)
  from 1 2 getBooks_total_independent[OF 1 2] show ?thesis by blast
qed

lemma getBooks_sound_witness:
  "\<exists>r. getBooks \<lparr>searchTerm = Some ''o'', filters_data = [(''genre'', ''Classic'')]\<rparr> first_page catalog = Inr r \<and>
     list_all (selected \<lparr>searchTerm = Some ''o'', filters_data = [(''genre'', ''Classic'')]\<rparr>) (data r) \<and>
     mset (data r) \<subseteq># mset (books catalog) \<and> length (data r) \<le> meta_total (meta r)"
proof -
  obtain r where 1: "getBooks \<lparr>searchTerm = Some ''o'', filters_data = [(''genre'', ''Classic'')]\<rparr>
      first_page catalog = Inr r"
    using getBooks_Inr_iff by (fastforce simp: request_simps)
  from 1 getBooks_sound[OF 1] show ?thesis by blast
qed

lemma getBooks_page_bound_witness:
  "\<exists>r. getBooks \<lparr>searchTerm = None, filters_data = []\<rparr> (first_page\<lparr>limit := Some 3\<rparr>) catalog = Inr r \<and>
     0 < pg_limit (calculate_pagination (first_page\<lparr>limit := Some 3\<rparr>)) \<and>
     length (data r) \<le> nat (pg_limit (calculate_pagination (first_page\<lparr>limit := Some 3\<rparr>)))"
proof -
  have l: "0 < pg_limit (calculate_pagination (first_page\<lparr>limit := Some 3\<rparr>))"
    by (simp add: calculate_pagination_def first_page_def)
  obtain r where 1: "getBooks \<lparr>searchTerm = None, filters_data = []\<rparr> (first_page\<lparr>limit := Some 3\<rparr>) catalog = Inr r"
    using getBooks_Inr_iff by (fastforce simp: request_simps)
  from 1 l getBooks_page_bound[OF 1 l] show ?thesis by blast
qed

lemma getBooks_no_filter_witness:
  "\<exists>r. getBooks \<lparr>searchTerm = None, filters_data = []\<rparr> first_page catalog = Inr r \<and>
     meta_total (meta r) = length (books catalog) \<and> mset (data r) \<subseteq># mset (books catalog) \<and>
     data r = window (pg_skip (calculate_pagination first_page)) (pg_limit (calculate_pagination first_page))
      (apply_sort (sort_conditions (pg_sortBy (calculate_pagination first_page))
         (pg_sortOrder (calculate_pagination first_page))) (books catalog))"
proof -
  obtain r where 1: "getBooks \<lparr>searchTerm = None, filters_data = []\<rparr> first_page catalog = Inr r"
    using getBooks_Inr_iff by (fastforce simp: request_simps)
  from 1 getBooks_no_filter[OF 1] show ?thesis by blast
qed

section \<open>Free-text search\<close>

text \<open>
  C20: for a search term without regular-expression metacharacters, every record
  of the page contains the term, ignoring ASCII case, in its title, author or genre.
\<close>

theorem getBooks_search_plain:
  assumes "getBooks flt opts st = Inr r" and "searchTerm flt = Some t" and "plain_pattern t"
  shows "list_all (\<lambda>b. sublist (lower t) (lower (title b)) \<or> sublist (lower t) (lower (author b)) \<or>
      sublist (lower t) (lower (genre b))) (data r)"
proof -
  have "list_all (selected flt) (data r)" using assms(1) by (rule getBooks_data_selected)
  moreover have "selected flt b \<Longrightarrow> sublist (lower t) (lower (title b)) \<or>
      sublist (lower t) (lower (author b)) \<or> sublist (lower t) (lower (genre b))" for b
    using assms(2,3)
    by (auto simp: selected_def search_hit_def books_searchable_fields_def regex_value_def
        regex_match_plain)
  ultimately show ?thesis by (simp add: list_all_iff)
qed

lemma getBooks_search_plain_witness:
  "\<exists>r. getBooks \<lparr>searchTerm = Some ''tolkien'', filters_data = []\<rparr> first_page catalog = Inr r \<and>
     plain_pattern ''tolkien'' \<and>
     list_all (\<lambda>b. sublist (lower ''tolkien'') (lower (title b)) \<or>
       sublist (lower ''tolkien'') (lower (author b)) \<or> sublist (lower ''tolkien'') (lower (genre b))) (data r)"
proof -
  have pp: "plain_pattern ''tolkien''" by code_simp
  obtain r where 1: "getBooks \<lparr>searchTerm = Some ''tolkien'', filters_data = []\<rparr> first_page catalog = Inr r"
    using getBooks_Inr_iff by (fastforce simp: request_simps)
  from 1 pp getBooks_search_plain[OF 1 _ pp] show ?thesis by simp
qed

text \<open>
  C21: the search term is passed to the store as a regular expression without
  escaping (line 20), so a dot in it is a wildcard: a term made of two plain parts
  around a dot selects a record exactly when, for some character other than a
  newline in place of the dot, the resulting string occurs, ignoring ASCII case, in
  the record's title, author or genre.
\<close>

theorem search_dot_wildcard:
  assumes "plain_pattern p" and "plain_pattern q"
  shows "list_all (\<lambda>c. matches c b) (search_condition (Some (p @ CHR ''.'' # q))) \<longleftrightarrow>
    (\<exists>d. d \<noteq> CHR 0x0A \<and> (sublist (lower (p @ d # q)) (lower (title b)) \<or>
       sublist (lower (p @ d # q)) (lower (author b)) \<or> sublist (lower (p @ d # q)) (lower (genre b))))"
  using assms
  by (auto simp: matches_search_condition search_hit_def books_searchable_fields_def regex_value_def
      regex_match_dot)

lemma search_dot_wildcard_witness:
  "plain_pattern ''J'' \<and> plain_pattern ''R'' \<and>
   list_all (\<lambda>c. matches c (mk_book ''000000000000000000000001'' ''Desert Poems'' ''Jurur Pressman'' ''Poetry''))
     (search_condition (Some ''J.R'')) \<and>
   \<not> sublist (lower ''J.R'') (lower ''Jurur Pressman'')"
proof -
  have pp: "plain_pattern ''J''" "plain_pattern ''R''" by code_simp+
  have "\<exists>d. d \<noteq> CHR 0x0A \<and> (sublist (lower (''J'' @ d # ''R'')) (lower ''Desert Poems'') \<or>
      sublist (lower (''J'' @ d # ''R'')) (lower ''Jurur Pressman'') \<or>
      sublist (lower (''J'' @ d # ''R'')) (lower ''Poetry''))"
    by (rule exI[of _ "CHR ''u''"]) code_simp
  then have "list_all (\<lambda>c. matches c (mk_book ''000000000000000000000001'' ''Desert Poems'' ''Jurur Pressman'' ''Poetry''))
     (search_condition (Some (''J'' @ CHR ''.'' # ''R'')))"
    using search_dot_wildcard[OF pp, where b = "mk_book ''000000000000000000000001'' ''Desert Poems'' ''Jurur Pressman'' ''Poetry''"]
    by (simp add: mk_book_def)
  moreover have "\<not> sublist (lower ''J.R'') (lower ''Jurur Pressman'')" by code_simp
  ultimately show ?thesis using pp by simp
qed

text \<open>
  The specification's reading of the search (a substring of a field, ignoring case)
  differs: the term \<open>"J.R.R"\<close> selects a record by the author \<open>"Jurur Pressman"\<close>,
  although none of its fields contains the term.
\<close>

theorem getBooks_search_regex_injection:
  "getBooks \<lparr>searchTerm = Some ''J.R.R'', filters_data = []\<rparr> first_page
     \<lparr>books = [mk_book ''000000000000000000000001'' ''Desert Poems'' ''Jurur Pressman'' ''Poetry''],
      next_oid = 2\<rparr> =
   Inr \<lparr>meta = \<lparr>meta_page = 1, meta_limit = 10, meta_total = 1\<rparr>,
     data = [mk_book ''000000000000000000000001'' ''Desert Poems'' ''Jurur Pressman'' ''Poetry'']\<rparr> \<and>
   \<not> (sublist (lower ''J.R.R'') (lower ''Desert Poems'') \<or> sublist (lower ''J.R.R'') (lower ''Jurur Pressman'') \<or>
      sublist (lower ''J.R.R'') (lower ''Poetry''))"
proof
  show "getBooks \<lparr>searchTerm = Some ''J.R.R'', filters_data = []\<rparr> first_page
     \<lparr>books = [mk_book ''000000000000000000000001'' ''Desert Poems'' ''Jurur Pressman'' ''Poetry''],
      next_oid = 2\<rparr> =
   Inr \<lparr>meta = \<lparr>meta_page = 1, meta_limit = 10, meta_total = 1\<rparr>,
     data = [mk_book ''000000000000000000000001'' ''Desert Poems'' ''Jurur Pressman'' ''Poetry'']\<rparr>"
    by code_simp
  show "\<not> (sublist (lower ''J.R.R'') (lower ''Desert Poems'') \<or> sublist (lower ''J.R.R'') (lower ''Jurur Pressman'') \<or>
      sublist (lower ''J.R.R'') (lower ''Poetry''))"
    by code_simp
qed

text \<open>
  C6: the search term reaches the store as a pattern, so a term that is not a
  valid PCRE pattern (an unbalanced parenthesis, an unterminated class, a
  quantifier with nothing before it) makes \<open>getBooks\<close> fail with the store's
  regular-expression error, whatever the filters and the page.
\<close>

theorem getBooks_invalid_regex:
  assumes "searchTerm flt = Some t" and "rx_parse True t = Inl (RxSyntax m)"
    and "0 \<le> pg_skip (calculate_pagination opts)"
  shows "getBooks flt opts st = Inl (BadValue (''Regular expression is invalid: '' @ m))"
proof -
  have "t \<noteq> []" using assms(2) by (auto simp: rx_parse_def)
  then have "search_error (searchTerm flt) = Some (''Regular expression is invalid: '' @ m)"
    using assms(1,2) by (simp add: search_error_def regex_error_def)
  with assms(3) show ?thesis by (simp add: getBooks_eq Let_def)
qed

lemma getBooks_invalid_regex_witness:
  "searchTerm \<lparr>searchTerm = Some ''(Tolkien'', filters_data = []\<rparr> = Some ''(Tolkien'' \<and>
   rx_parse True ''(Tolkien'' = Inl (RxSyntax ''missing closing parenthesis'') \<and>
   0 \<le> pg_skip (calculate_pagination first_page) \<and>
   getBooks \<lparr>searchTerm = Some ''(Tolkien'', filters_data = []\<rparr> first_page catalog =
     Inl (BadValue (''Regular expression is invalid: '' @ ''missing closing parenthesis''))"
  using getBooks_invalid_regex[where flt = "\<lparr>searchTerm = Some ''(Tolkien'', filters_data = []\<rparr>"
      and t = "''(Tolkien''" and m = "''missing closing parenthesis''" and opts = first_page and st = catalog]
  by (simp add: rx_parse_def calculate_pagination_def first_page_def)

text \<open>
  The specification's scenario: searching \<open>"Tolkien"\<close> with page 1 and limit
  10 in a store of ten books, one of them by "J.R.R. Tolkien", returns that book
  alone, with total 1.
\<close>

theorem getBooks_tolkien_scenario:
  "getBooks \<lparr>searchTerm = Some ''Tolkien'', filters_data = []\<rparr> first_page catalog =
     Inr \<lparr>meta = \<lparr>meta_page = 1, meta_limit = 10, meta_total = 1\<rparr>, data = [tolkien_book]\<rparr>"
  by code_simp

text \<open>An empty search term is treated as no search term (JavaScript truthiness).\<close>

theorem getBooks_empty_search_term:
  "getBooks \<lparr>searchTerm = Some [], filters_data = fd\<rparr> opts st =
   getBooks \<lparr>searchTerm = None, filters_data = fd\<rparr> opts st"
  by (simp add: getBooks_def and_conditions_def search_condition_def)


section \<open>Pages\<close>

text \<open>
  C23: a page number below 1 with a positive limit gives a negative skip, which the
  store refuses: the call fails instead of returning an empty or a first page.
\<close>

theorem getBooks_page_below_one:
  assumes "page opts = Some p" and "p < 1" and "limit opts = Some l" and "0 < l"
  shows "getBooks flt opts st = Inl (BadValue ''skip must be non-negative'')"
proof -
  have "(p - 1) * l < 0" using assms(2,4) by (simp add: mult_neg_pos)
  with assms(1,3) show ?thesis by (simp add: getBooks_eq calculate_pagination_def Let_def)
qed

lemma getBooks_page_below_one_witness:
  "getBooks \<lparr>searchTerm = None, filters_data = []\<rparr> (first_page\<lparr>page := Some 0\<rparr>) catalog =
     Inl (BadValue ''skip must be non-negative'')"
  by (rule getBooks_page_below_one[where p = 0 and l = 10]) (simp_all add: first_page_def)

text \<open>
  C24: a limit of 0 puts no bound on the page: the call returns every selected
  record from the skip on, while the reported limit is 0.
\<close>

theorem getBooks_limit_zero:
  assumes "limit opts = Some 0" and "getBooks flt opts st = Inr r"
  shows "meta_limit (meta r) = 0 \<and>
    data r = drop (nat (pg_skip (calculate_pagination opts)))
      (apply_sort (sort_conditions (sortBy opts) (sortOrder opts)) (filter (selected flt) (books st)))"
  using getBooks_Inr[OF assms(2)] assms(1)
  by (simp add: calculate_pagination_def window_def Let_def)

lemma getBooks_limit_zero_witness:
  "\<exists>r. getBooks \<lparr>searchTerm = None, filters_data = []\<rparr> (first_page\<lparr>limit := Some 0\<rparr>) catalog = Inr r \<and>
     meta_limit (meta r) = 0 \<and>
     data r = drop (nat (pg_skip (calculate_pagination (first_page\<lparr>limit := Some 0\<rparr>))))
      (apply_sort (sort_conditions (sortBy (first_page\<lparr>limit := Some 0\<rparr>)) (sortOrder (first_page\<lparr>limit := Some 0\<rparr>)))
        (filter (selected \<lparr>searchTerm = None, filters_data = []\<rparr>) (books catalog)))"
proof -
  have l: "limit (first_page\<lparr>limit := Some 0\<rparr>) = Some 0" by simp
  obtain r where 1: "getBooks \<lparr>searchTerm = None, filters_data = []\<rparr> (first_page\<lparr>limit := Some 0\<rparr>) catalog = Inr r"
    using getBooks_Inr_iff by (fastforce simp: request_simps)
  from 1 getBooks_limit_zero[OF l 1] show ?thesis by blast
qed



section \<open>Sorting\<close>

text \<open>
  C36: when the pagination options name a sort field and an order (line 40), the
  records of the page are in that order: ascending or descending by the field's
  sort key in MongoDB's comparison order.
\<close>

theorem getBooks_sorted:
  assumes "getBooks flt opts st = Inr r" and "sortBy opts = Some f" and "f \<noteq> []"
    and "sortOrder opts = Some d"
  shows "sorted_wrt (sort_le f d) (data r)"
proof -
  have "data r = window (pg_skip (calculate_pagination opts)) (pg_limit (calculate_pagination opts))
      (apply_sort (Some (f, d)) (filter (selected flt) (books st)))"
    using getBooks_Inr[OF assms(1)] assms(2-4) by (simp add: calculate_pagination_def sort_conditions_def Let_def)
  then show ?thesis by (simp add: sorted_wrt_window sorted_apply_sort)
qed

lemma getBooks_sorted_witness:
  "\<exists>r. getBooks \<lparr>searchTerm = None, filters_data = []\<rparr> (first_page\<lparr>sortBy := Some ''title'', sortOrder := Some Desc\<rparr>)
      catalog = Inr r \<and> sorted_wrt (sort_le ''title'' Desc) (data r)"
proof -
  obtain r where 1: "getBooks \<lparr>searchTerm = None, filters_data = []\<rparr>
      (first_page\<lparr>sortBy := Some ''title'', sortOrder := Some Desc\<rparr>) catalog = Inr r"
    using getBooks_Inr_iff by (fastforce simp: request_simps)
  have "sortBy (first_page\<lparr>sortBy := Some ''title'', sortOrder := Some Desc\<rparr>) = Some ''title''"
    "''title'' \<noteq> []" "sortOrder (first_page\<lparr>sortBy := Some ''title'', sortOrder := Some Desc\<rparr>) = Some Desc"
    by simp_all
  from 1 getBooks_sorted[OF 1 this] show ?thesis by blast
qed

end
