(* ===== verification/BookService.thy ===== *)
theory BookService
  imports ReadingStatus QueryBuilder
begin

text \<open>
  The interface the request-handling layer calls: the \<open>BookService\<close> object
  exported by \<open>book.service.ts\<close> (lines 182-194), as a datatype of requests, one
  per exported function, and a step function that runs a request on the store.
  Read requests return the store unchanged; every other request is the single
  store call of its operation. The lemmas here are the per-request facts that the
  theorems of the root theory combine.
\<close>

section \<open>Requests and their results\<close>

datatype service_op =
    GetBooks book_filter pagination_options
  | GetBook string
  | CreateBook book_fields
  | UpdateBook string book_patch
  | DeleteBook string book_fields
  | AddReview string review
  | AddToWishlist string "email list"
  | RemoveFromWishlist string email
  | AddToReadSoon string "email list"
  | AddToCurrentlyReading string "email list"
  | AddToFinished string "email list"

datatype service_result = RPage books_response | RBook "book option" | RCreated book

definition lift_book ::
    "(store_error + book option) \<times> book_store \<Rightarrow> (store_error + service_result) \<times> book_store" where
  "lift_book r = (map_sum id RBook (fst r), snd r)"

fun service_step :: "service_op \<Rightarrow> book_store \<Rightarrow> (store_error + service_result) \<times> book_store" where
  "service_step (GetBooks flt opts) st = (map_sum id RPage (getBooks flt opts st), st)"
| "service_step (GetBook bid) st = (map_sum id RBook (getBook bid st), st)"
| "service_step (CreateBook p) st = (Inr (RCreated (fst (createBook p st))), snd (createBook p st))"
| "service_step (UpdateBook bid p) st = lift_book (updateBook bid p st)"
| "service_step (DeleteBook bid bk) st = lift_book (deleteBook bid bk st)"
| "service_step (AddReview bid r) st = lift_book (addReview bid r st)"
| "service_step (AddToWishlist bid ws) st = lift_book (addToWishlist bid ws st)"
| "service_step (RemoveFromWishlist bid e) st = lift_book (removeFromWishlist bid e st)"
| "service_step (AddToReadSoon bid xs) st = lift_book (addToReadSoon bid xs st)"
| "service_step (AddToCurrentlyReading bid xs) st = lift_book (addToCurrentlyReading bid xs st)"
| "service_step (AddToFinished bid xs) st = lift_book (addToFinished bid xs st)"

text \<open>The identifier a request may change: its cast \<open>id\<close>, or the fresh one of a creation.\<close>

fun touched_id :: "service_op \<Rightarrow> book_store \<Rightarrow> object_id option" where
  "touched_id (GetBooks flt opts) st = None"
| "touched_id (GetBook bid) st = None"
| "touched_id (CreateBook p) st = Some (oid_of_nat (next_oid st))"
| "touched_id (UpdateBook bid p) st = cast_object_id bid"
| "touched_id (DeleteBook bid bk) st = cast_object_id bid"
| "touched_id (AddReview bid r) st = cast_object_id bid"
| "touched_id (AddToWishlist bid ws) st = cast_object_id bid"
| "touched_id (RemoveFromWishlist bid e) st = cast_object_id bid"
| "touched_id (AddToReadSoon bid xs) st = cast_object_id bid"
| "touched_id (AddToCurrentlyReading bid xs) st = cast_object_id bid"
| "touched_id (AddToFinished bid xs) st = cast_object_id bid"

text \<open>The update document each by-identifier mutation sends.\<close>

fun op_update :: "service_op \<Rightarrow> update_entry list option" where
  "op_update (UpdateBook bid p) = Some [USet p]"
| "op_update (AddReview bid r) = Some [UPush r]"
| "op_update (AddToWishlist bid ws) = Some [USet (empty_patch\<lparr>set_wishlist := Some ws\<rparr>)]"
| "op_update (RemoveFromWishlist bid e) = Some [UPull Wishlist (Some e), UPull ReadSoon (Some e),
     UPull CurrentlyReading (Some e), UPull Finished (Some e)]"
| "op_update (AddToReadSoon bid xs) = Some (move_update ReadSoonS (last_opt xs) xs)"
| "op_update (AddToCurrentlyReading bid xs) = Some (move_update ReadingS (last_opt xs) xs)"
| "op_update (AddToFinished bid xs) = Some (move_update FinishedS (last_opt xs) xs)"
| "op_update op = None"

fun op_id :: "service_op \<Rightarrow> string" where
  "op_id (UpdateBook bid p) = bid"
| "op_id (DeleteBook bid bk) = bid"
| "op_id (AddReview bid r) = bid"
| "op_id (AddToWishlist bid ws) = bid"
| "op_id (RemoveFromWishlist bid e) = bid"
| "op_id (AddToReadSoon bid xs) = bid"
| "op_id (AddToCurrentlyReading bid xs) = bid"
| "op_id (AddToFinished bid xs) = bid"
| "op_id op = []"

section \<open>Conforming clients\<close>

text \<open>
  The requests a well-behaved client sends: a created record has disjoint status
  lists and the identifier space is not exhausted; an update carries only the
  fields \<open>updateBookZodSchema\<close> admits (no membership list); a transition payload
  lists the target list's current members before the acting user.
\<close>

definition transition_conforms :: "reading_status \<Rightarrow> string \<Rightarrow> email list \<Rightarrow> book_store \<Rightarrow> bool" where
  "transition_conforms s bid xs st =
     (case getBook bid st of Inr (Some b) \<Rightarrow> payload_conforms s b xs | _ \<Rightarrow> True)"

fun conforming :: "service_op \<Rightarrow> book_store \<Rightarrow> bool" where
  "conforming (CreateBook p) st = (status_disjoint p \<and> next_oid st < 16 ^ 24)"
| "conforming (UpdateBook bid p) st =
     (set_read_soon p = None \<and> set_currently_reading p = None \<and> set_finished p = None)"
| "conforming (AddToReadSoon bid xs) st = transition_conforms ReadSoonS bid xs st"
| "conforming (AddToCurrentlyReading bid xs) st = transition_conforms ReadingS bid xs st"
| "conforming (AddToFinished bid xs) st = transition_conforms FinishedS bid xs st"
| "conforming op st = True"

section \<open>Lemmas on the requests\<close>

lemma service_step_update:
  "op_update op = Some u \<Longrightarrow> service_step op st = lift_book (find_one_and_update (op_id op) u st)"
  by (cases op)
    (simp_all add: updateBook_def addReview_def addToWishlist_def removeFromWishlist_def
      addToReadSoon_move addToCurrentlyReading_move addToFinished_move)

lemma op_update_no_conflict: "op_update op = Some u \<Longrightarrow> \<not> update_conflict u"
  by (cases op) auto

lemma touched_id_update: "op_update op = Some u \<Longrightarrow> touched_id op st = cast_object_id (op_id op)"
  by (cases op) auto

lemma op_update_cases:
  "op_update op = None \<Longrightarrow>
     (\<exists>flt opts. op = GetBooks flt opts) \<or> (\<exists>bid. op = GetBook bid) \<or>
     (\<exists>p. op = CreateBook p) \<or> (\<exists>bid bk. op = DeleteBook bid bk)"
  by (cases op) auto

lemma fst_lift_book_Inl: "fst (lift_book r) = Inl e \<longleftrightarrow> fst r = Inl e"
  by (cases r) (auto simp: lift_book_def map_sum_def split: sum.splits)

lemma snd_lift_book [simp]: "snd (lift_book r) = snd r"
  by (simp add: lift_book_def)


section \<open>Requests and the disjointness of the status lists\<close>

lemma status_disjoint_make_book [simp]: "status_disjoint (make_book oid p) = status_disjoint p"
  by (simp add: status_disjoint_def make_book_def book_fields.defs book.defs)

lemma status_disjoint_patch:
  "set_read_soon p = None \<Longrightarrow> set_currently_reading p = None \<Longrightarrow> set_finished p = None \<Longrightarrow>
     status_disjoint (apply_patch p b) = status_disjoint b"
  by (simp add: status_disjoint_def apply_patch_def)

lemma status_disjoint_pull_all:
  "status_disjoint b \<Longrightarrow> status_disjoint (apply_update [UPull Wishlist (Some e), UPull ReadSoon (Some e),
     UPull CurrentlyReading (Some e), UPull Finished (Some e)] b)"
  by (auto simp: status_disjoint_def)

lemma status_disjoint_move:
  assumes "status_disjoint b" and "payload_conforms s b xs"
  shows "status_disjoint (apply_update (move_update s (last_opt xs) xs) b)"
proof (cases "last_opt xs")
  case None
  then have "xs = []" by (simp add: last_opt_def split: if_splits)
  with assms(1) show ?thesis by simp
next
  case (Some u)
  with assms(2) obtain ys where "xs = ys @ [u]" and "set ys \<subseteq> set (get_list (status_list s) b)"
    using payload_conforms_snoc by blast
  with Some assms(1) show ?thesis by (simp add: move_preserves_disjoint)
qed

lemma transition_conforms_found:
  "transition_conforms s bid xs st \<Longrightarrow> cast_object_id bid = Some oid \<Longrightarrow> lookup_id oid st = Some b \<Longrightarrow>
     payload_conforms s b xs"
  by (simp add: transition_conforms_def getBook_def find_by_id_def)


lemma op_update_preserves_status:
  assumes "op_update op = Some u" and "conforming op st"
    and "cast_object_id (op_id op) = Some oid" and "lookup_id oid st = Some b" and "status_disjoint b"
  shows "status_disjoint (apply_update u b)"
  using assms
  by (cases op)
    (auto simp: status_disjoint_patch status_disjoint_pull_all status_disjoint_move
      transition_conforms_found empty_patch_def, auto simp: status_disjoint_def)

lemma service_step_status:
  assumes "conforming op st" and "list_all status_disjoint (books st)"
  shows "list_all status_disjoint (books (snd (service_step op st)))"
proof (cases "op_update op")
  case (Some u)
  have "status_disjoint (apply_update u b)"
    if "cast_object_id (op_id op) = Some oid" and "lookup_id oid st = Some b" for oid b
  proof -
    have "status_disjoint b"
      using assms(2) lookup_id_Some[OF that(2)] by (simp add: list_all_iff)
    with Some assms(1) that show ?thesis by (rule op_update_preserves_status)
  qed
  with Some assms(2) show ?thesis
    by (simp add: service_step_update find_one_and_update_list_all)
next
  case None
  then show ?thesis
    using op_update_cases[OF None] assms
    by (auto simp: createBook_def insert_book_def deleteBook_def find_by_id_and_delete_def Let_def
        list_all_remove_by_id split: option.splits)
qed

end
