(* ===== verification/Concurrency.thy ===== *)
theory Concurrency
  imports BookService
begin

text \<open>
  \<open>getBooks\<close> awaits two store calls in turn (\<open>book.service.ts\<close> lines 43-49):
  \<open>Book.find\<close> for the page, then \<open>Book.countDocuments\<close> for the total. Node
  runs other requests while a handler waits, so the count may see a store that
  requests served in between have changed. This theory models that interleaving
  as an explicit sequence of service steps between the two calls, and bounds how
  far the reported total can drift from the page it accompanies.
\<close>

section \<open>The two store calls of getBooks\<close>

text \<open>\<open>getBooks\<close> with the page read from \<open>st1\<close> and the total counted in \<open>st2\<close>.\<close>

definition getBooks_split ::
    "book_filter \<Rightarrow> pagination_options \<Rightarrow> book_store \<Rightarrow> book_store \<Rightarrow> store_error + books_response" where
  "getBooks_split flt pagination_options st1 st2 =
     (let conds = and_conditions flt;
          pg = calculate_pagination pagination_options;
          srt = sort_conditions (pg_sortBy pg) (pg_sortOrder pg);
          q = where_condition conds
      in case find_query q srt (pg_skip pg) (pg_limit pg) st1 of
           Inl e \<Rightarrow> Inl e
         | Inr result \<Rightarrow>
             (case count_documents q st2 of
                Inl e \<Rightarrow> Inl e
              | Inr n_total \<Rightarrow>
                  Inr \<lparr>meta = \<lparr>meta_page = pg_page pg, meta_limit = pg_limit pg, meta_total = n_total\<rparr>,
                       data = result\<rparr>))"

text \<open>The requests served while \<open>getBooks\<close> waits, in the order they run.\<close>

definition run_ops :: "service_op list \<Rightarrow> book_store \<Rightarrow> book_store" where
  "run_ops ops st = fold (\<lambda>op s. snd (service_step op s)) ops st"

section \<open>Lemmas\<close>

lemma getBooks_split_same: "getBooks_split flt opts st st = getBooks flt opts st"
  by (simp add: getBooks_split_def getBooks_def)

lemma getBooks_split_eq:
  assumes "getBooks flt opts st1 = Inr r"
  shows "getBooks_split flt opts st1 st2 =
    Inr (r\<lparr>meta := (meta r)\<lparr>meta_total := length (filter (selected flt) (books st2))\<rparr>\<rparr>)"
proof -
  have ok: "cond_error (where_condition (and_conditions flt)) = None"
    using getBooks_Inr[OF assms] by (simp add: cond_error_and_conditions)
  show ?thesis
    using assms
    by (auto simp: getBooks_split_def getBooks_def find_query_def count_documents_def ok
        filter_matches_selected Let_def split: if_splits)
qed

lemma service_step_count:
  "length (filter P (books (snd (service_step op st)))) \<le> Suc (length (filter P (books st)))"
  "length (filter P (books st)) \<le> Suc (length (filter P (books (snd (service_step op st)))))"
proof -
  have "length (filter P (books (snd (service_step op st)))) \<le> Suc (length (filter P (books st))) \<and>
    length (filter P (books st)) \<le> Suc (length (filter P (books (snd (service_step op st)))))"
  proof (cases "op_update op")
    case (Some u)
    then show ?thesis by (simp add: service_step_update count_find_one_and_update)
  next
    case None
    then show ?thesis
      using op_update_cases[OF None]
      by (auto simp: createBook_def insert_book_def deleteBook_def find_by_id_and_delete_def Let_def
          count_remove_by_id le_SucI[OF count_remove_by_id(1)] split: option.splits)
  qed
  then show "length (filter P (books (snd (service_step op st)))) \<le> Suc (length (filter P (books st)))"
    "length (filter P (books st)) \<le> Suc (length (filter P (books (snd (service_step op st)))))"
    by simp_all
qed

lemma run_ops_count:
  "length (filter P (books (run_ops ops st))) \<le> length (filter P (books st)) + length ops \<and>
   length (filter P (books st)) \<le> length (filter P (books (run_ops ops st))) + length ops"
proof (induction ops arbitrary: st)
  case Nil then show ?case by (simp add: run_ops_def)
next
  case (Cons op ops)
  have "run_ops (op # ops) st = run_ops ops (snd (service_step op st))" by (simp add: run_ops_def)
  with Cons.IH[of "snd (service_step op st)"] service_step_count[where P = P and op = op and st = st] show ?case by auto
qed


section \<open>The total drifts by at most the interleaved requests\<close>

text \<open>
  When requests run between the two store calls of \<open>getBooks\<close>, the page is
  the one the atomic call returns and the reported total differs from the atomic
  total by at most the number of those requests: each request adds, removes or
  changes at most one record.
\<close>

theorem getBooks_interleaved_total:
  assumes "getBooks flt opts st = Inr r"
  shows "\<exists>r'. getBooks_split flt opts st (run_ops ops st) = Inr r' \<and> data r' = data r \<and>
    meta_page (meta r') = meta_page (meta r) \<and> meta_limit (meta r') = meta_limit (meta r) \<and>
    meta_total (meta r') \<le> meta_total (meta r) + length ops \<and>
    meta_total (meta r) \<le> meta_total (meta r') + length ops"
proof -
  have "meta_total (meta r) = length (filter (selected flt) (books st))"
    using getBooks_Inr[OF assms] by simp
  with getBooks_split_eq[OF assms, of "run_ops ops st"] run_ops_count[of "selected flt" ops st]
  show ?thesis by auto
qed

lemma getBooks_interleaved_total_witness:
  "\<exists>r. getBooks \<lparr>searchTerm = None, filters_data = []\<rparr> first_page sample_store = Inr r \<and>
    (\<exists>r'. getBooks_split \<lparr>searchTerm = None, filters_data = []\<rparr> first_page sample_store
        (run_ops [DeleteBook sample_id (book_fields.truncate sample_book)] sample_store) = Inr r' \<and>
      data r' = data r \<and> meta_page (meta r') = meta_page (meta r) \<and> meta_limit (meta r') = meta_limit (meta r) \<and>
      meta_total (meta r') \<le> meta_total (meta r) + length [DeleteBook sample_id (book_fields.truncate sample_book)] \<and>
      meta_total (meta r) \<le> meta_total (meta r') + length [DeleteBook sample_id (book_fields.truncate sample_book)])"
proof -
  obtain r where r: "getBooks \<lparr>searchTerm = None, filters_data = []\<rparr> first_page sample_store = Inr r"
    using getBooks_Inr_iff by (fastforce simp: request_simps)
  from r getBooks_interleaved_total[OF r, of "[DeleteBook sample_id (book_fields.truncate sample_book)]"]
  show ?thesis by blast
qed

text \<open>
  The drift is real: with the only record deleted between the two calls, the page
  still holds it while the total reports none.
\<close>

lemma getBooks_interleaved_inconsistent:
  "getBooks_split \<lparr>searchTerm = None, filters_data = []\<rparr> first_page sample_store
     (run_ops [DeleteBook sample_id (book_fields.truncate sample_book)] sample_store) =
   Inr \<lparr>meta = \<lparr>meta_page = 1, meta_limit = 10, meta_total = 0\<rparr>, data = [sample_book]\<rparr>"
  by (simp add: getBooks_split_def run_ops_def deleteBook_def find_by_id_and_delete_def
      find_query_def count_documents_def first_page_def calculate_pagination_def
      cond_error_and_conditions search_error_def filter_matches_selected selected_def sample_store_def
      sort_conditions_def lookup_id_def sample_book_def Let_def and_conditions_def search_condition_def
      filter_condition_def where_condition_def)

end
