(* ===== verification/Validation.thy ===== *)
theory Validation
  imports Store
begin

text \<open>
  The request-body validation of \<open>book.validation.ts\<close>: the two zod schemas
  \<open>createBookZodSchema\<close> and \<open>updateBookZodSchema\<close>, written with zod's
  combinators (\<open>z.object\<close>, \<open>z.string\<close>, \<open>.email()\<close>, \<open>z.enum\<close>, \<open>z.array\<close>,
  \<open>.optional()\<close>) as values of a datatype of schemas, and zod's \<open>safeParse\<close> on
  a JSON request as a function that walks schema and value together, collecting
  every issue with its path and message and building the output object (unknown
  keys stripped, absent optional keys omitted). The genre list of
  \<open>book.constant.ts\<close> is not in the sources; the schemas take it as a parameter.
  A declarative reading of each schema (\<open>json_fits\<close>) is the reference the
  parser is proved equivalent to; the decoders turn a validated body into the
  records the service receives.
\<close>

section \<open>Request bodies as JSON values\<close>

text \<open>
  A parsed JSON body. Objects keep their members in order; \<open>JSON.parse\<close> lets a
  later duplicate key win. Numbers are kept as integers: the schemas only test
  whether a value is a number.
\<close>

datatype json = JNull | JBool bool | JNum int | JStr string | JArr "json list"
  | JObj "(string \<times> json) list"

definition obj_get :: "string \<Rightarrow> (string \<times> json) list \<Rightarrow> json option" where
  "obj_get k kvs = map_of (rev kvs) k"

text \<open>The name zod gives the type of a value in its messages.\<close>

fun json_type :: "json \<Rightarrow> string" where
  "json_type JNull = ''null''"
| "json_type (JBool b) = ''boolean''"
| "json_type (JNum n) = ''number''"
| "json_type (JStr s) = ''string''"
| "json_type (JArr xs) = ''array''"
| "json_type (JObj kvs) = ''object''"

section \<open>Email syntax\<close>

text \<open>
  zod's \<open>.email()\<close> check (zod 3.22): the pattern
  \<open>^(?!\.)(?!.*\.\.)([A-Z0-9_'+\-\.]*)[A-Z0-9_+-]@([A-Z0-9][A-Z0-9\-]*\.)+[A-Z]{2,}$\<close>
  with the \<open>i\<close> flag. Neither part contains \<open>@\<close> and no domain label contains a dot,
  so the pattern reads as: one \<open>@\<close>; a non-empty local part of letters, digits and
  \<open>_'+-.\<close> that does not start with a dot and ends in a letter, digit or \<open>_+-\<close>; no
  two consecutive dots; a domain of at least two dot-separated labels, each label
  but the last non-empty, starting with a letter or digit and made of letters,
  digits and hyphens, the last label at least two letters.
\<close>

definition is_letter :: "char \<Rightarrow> bool" where
  "is_letter c \<longleftrightarrow> (CHR ''a'' \<le> c \<and> c \<le> CHR ''z'') \<or> (CHR ''A'' \<le> c \<and> c \<le> CHR ''Z'')"

definition is_digit :: "char \<Rightarrow> bool" where
  "is_digit c \<longleftrightarrow> CHR ''0'' \<le> c \<and> c \<le> CHR ''9''"

definition is_alnum :: "char \<Rightarrow> bool" where
  "is_alnum c \<longleftrightarrow> is_letter c \<or> is_digit c"

definition local_char :: "char \<Rightarrow> bool" where
  "local_char c \<longleftrightarrow> is_alnum c \<or> c \<in> set (''_+-.'' @ [CHR 0x27])"

definition local_last_char :: "char \<Rightarrow> bool" where
  "local_last_char c \<longleftrightarrow> is_alnum c \<or> c \<in> set ''_+-''"

fun split_on :: "char \<Rightarrow> string \<Rightarrow> string list" where
  "split_on d [] = [[]]"
| "split_on d (c # cs) =
     (if c = d then [] # split_on d cs
      else (case split_on d cs of w # ws \<Rightarrow> (c # w) # ws | [] \<Rightarrow> [[c]]))"

definition domain_label :: "string \<Rightarrow> bool" where
  "domain_label l \<longleftrightarrow> l \<noteq> [] \<and> is_alnum (hd l) \<and> list_all (\<lambda>c. is_alnum c \<or> c = CHR ''-'') l"

definition top_label :: "string \<Rightarrow> bool" where
  "top_label l \<longleftrightarrow> 2 \<le> length l \<and> list_all is_letter l"

definition domain_ok :: "string \<Rightarrow> bool" where
  "domain_ok d =
     (let ls = split_on CHR ''.'' d
      in 2 \<le> length ls \<and> list_all domain_label (butlast ls) \<and> top_label (last ls))"

definition email_ok :: "string \<Rightarrow> bool" where
  "email_ok s =
     (let l = takeWhile (\<lambda>c. c \<noteq> CHR ''@'') s; r = dropWhile (\<lambda>c. c \<noteq> CHR ''@'') s
      in l \<noteq> [] \<and> r \<noteq> [] \<and> hd l \<noteq> CHR ''.'' \<and> \<not> sublist ''..'' s \<and>
         list_all local_char l \<and> local_last_char (last l) \<and> domain_ok (tl r))"

section \<open>zod schemas\<close>

datatype string_check = ZEmail

text \<open>
  \<open>ZString req cs\<close> is \<open>z.string({required_error: req})\<close> with the checks \<open>cs\<close>;
  \<open>ZObject\<close> lists the shape's keys in the order the code writes them.
\<close>

datatype zschema =
    ZString "string option" "string_check list"
  | ZEnum "string list"
  | ZArray zschema
  | ZObject "(string \<times> zschema) list"
  | ZOptional zschema

datatype path_seg = PKey string | PIdx nat

datatype issue_code = InvalidType | InvalidEnumValue | InvalidString

record zissue =
  ipath :: "path_seg list"
  icode :: issue_code
  imessage :: string

text \<open>
  The issue for a value of the wrong type: \<open>required_error\<close> (or \<open>Required\<close>) when
  the value is absent, zod's default message otherwise.
\<close>

definition type_issue :: "path_seg list \<Rightarrow> string option \<Rightarrow> string \<Rightarrow> json option \<Rightarrow> zissue" where
  "type_issue p req expected v =
     \<lparr>ipath = p, icode = InvalidType,
      imessage = (case v of
         None \<Rightarrow> (case req of None \<Rightarrow> ''Required'' | Some m \<Rightarrow> m)
       | Some x \<Rightarrow> ''Expected '' @ expected @ '', received '' @ json_type x)\<rparr>"

fun join_with :: "string \<Rightarrow> string list \<Rightarrow> string" where
  "join_with sep [] = []"
| "join_with sep [w] = w"
| "join_with sep (w # ws) = w @ sep @ join_with sep ws"

definition quote_options :: "string list \<Rightarrow> string" where
  "quote_options os = join_with '' | '' (map (\<lambda>w. [CHR 0x27] @ w @ [CHR 0x27]) os)"

fun check_string :: "path_seg list \<Rightarrow> string_check list \<Rightarrow> string \<Rightarrow> zissue list" where
  "check_string p [] x = []"
| "check_string p (ZEmail # cs) x =
     (if email_ok x then [] else [\<lparr>ipath = p, icode = InvalidString, imessage = ''Invalid email''\<rparr>])
     @ check_string p cs x"

section \<open>Parsing\<close>

text \<open>
  \<open>zparse s p v\<close> parses the value \<open>v\<close> (\<open>None\<close> for \<open>undefined\<close>, an absent key) at
  path \<open>p\<close> against \<open>s\<close>, returning every issue and the output (\<open>None\<close> for
  \<open>undefined\<close>). An object is parsed key by key in the order of its shape and an
  array element by element; issues of all keys and elements are collected, as
  zod does, and keys outside the shape are dropped from the output.
\<close>

fun zparse :: "zschema \<Rightarrow> path_seg list \<Rightarrow> json option \<Rightarrow> zissue list \<times> json option"
and zparse_fields :: "(string \<times> zschema) list \<Rightarrow> path_seg list \<Rightarrow> (string \<times> json) list \<Rightarrow>
    zissue list \<times> (string \<times> json) list"
and zparse_elems :: "zschema \<Rightarrow> path_seg list \<Rightarrow> nat \<Rightarrow> json list \<Rightarrow> zissue list \<times> json list" where
  "zparse (ZString req cs) p (Some (JStr x)) = (check_string p cs x, Some (JStr x))"
| "zparse (ZString req cs) p v = ([type_issue p req ''string'' v], None)"
| "zparse (ZEnum os) p (Some (JStr x)) =
     (if x \<in> set os then ([], Some (JStr x))
      else ([\<lparr>ipath = p, icode = InvalidEnumValue,
              imessage = ''Invalid enum value. Expected '' @ quote_options os @
                '', received '' @ [CHR 0x27] @ x @ [CHR 0x27]\<rparr>], None))"
| "zparse (ZEnum os) p v = ([type_issue p None (quote_options os) v], None)"
| "zparse (ZArray s) p (Some (JArr xs)) =
     (let (is, ys) = zparse_elems s p 0 xs in (is, Some (JArr ys)))"
| "zparse (ZArray s) p v = ([type_issue p None ''array'' v], None)"
| "zparse (ZObject fs) p (Some (JObj kvs)) =
     (let (is, out) = zparse_fields fs p kvs in (is, Some (JObj out)))"
| "zparse (ZObject fs) p v = ([type_issue p None ''object'' v], None)"
| "zparse (ZOptional s) p None = ([], None)"
| "zparse (ZOptional s) p (Some x) = zparse s p (Some x)"
| "zparse_fields [] p kvs = ([], [])"
| "zparse_fields ((k, s) # fs) p kvs =
     (let (i1, v) = zparse s (p @ [PKey k]) (obj_get k kvs);
          (i2, out) = zparse_fields fs p kvs
      in (i1 @ i2, case v of None \<Rightarrow> out | Some x \<Rightarrow> (k, x) # out))"
| "zparse_elems s p i [] = ([], [])"
| "zparse_elems s p i (x # xs) =
     (let (i1, v) = zparse s (p @ [PIdx i]) (Some x);
          (i2, ys) = zparse_elems s p (Suc i) xs
      in (i1 @ i2, case v of None \<Rightarrow> ys | Some y \<Rightarrow> y # ys))"

text \<open>\<open>safeParse\<close>: success with the output when there is no issue.\<close>

definition safe_parse :: "zschema \<Rightarrow> json \<Rightarrow> zissue list + json option" where
  "safe_parse s v = (case zparse s [] (Some v) of (is, out) \<Rightarrow> if is = [] then Inr out else Inl is)"


section \<open>The schemas of book.validation.ts\<close>

text \<open>A review item of the create schema: both fields required, the email checked.\<close>

definition review_create_schema :: zschema where
  "review_create_schema =
     ZObject [(''email'', ZString (Some ''Email is required !!'') [ZEmail]),
              (''comment'', ZString (Some ''Comment is required !!'') [])]"

definition createBookZodSchema :: "string list \<Rightarrow> zschema" where
  "createBookZodSchema book_genres =
     ZObject [(''body'', ZObject
       [(''title'', ZString (Some ''Title is required !!'') []),
        (''author'', ZString (Some ''Authore is required !!'') []),
        (''genre'', ZEnum book_genres),
        (''publication_date'', ZString (Some ''Date is required !!'') []),
        (''reviews'', ZArray review_create_schema)])]"

text \<open>A review item of the update schema: both fields optional.\<close>

definition review_update_schema :: zschema where
  "review_update_schema =
     ZObject [(''email'', ZOptional (ZString None [ZEmail])),
              (''comment'', ZOptional (ZString None []))]"

definition updateBookZodSchema :: "string list \<Rightarrow> zschema" where
  "updateBookZodSchema book_genres =
     ZObject [(''body'', ZObject
       [(''title'', ZOptional (ZString None [])),
        (''author'', ZOptional (ZString None [])),
        (''genre'', ZOptional (ZEnum book_genres)),
        (''publication_date'', ZOptional (ZString None [])),
        (''reviews'', ZOptional (ZArray review_update_schema))])]"

section \<open>The declarative reading of a schema\<close>

text \<open>
  The values a schema admits and the output it produces for them, stated without
  issues: the reference against which the parser is verified.
\<close>

fun check_ok :: "string_check \<Rightarrow> string \<Rightarrow> bool" where
  "check_ok ZEmail x = email_ok x"

fun json_fits :: "zschema \<Rightarrow> json option \<Rightarrow> bool"
and fits_fields :: "(string \<times> zschema) list \<Rightarrow> (string \<times> json) list \<Rightarrow> bool"
and fits_elems :: "zschema \<Rightarrow> json list \<Rightarrow> bool" where
  "json_fits (ZString req cs) (Some (JStr x)) = list_all (\<lambda>c. check_ok c x) cs"
| "json_fits (ZEnum os) (Some (JStr x)) = (x \<in> set os)"
| "json_fits (ZArray s) (Some (JArr xs)) = fits_elems s xs"
| "json_fits (ZObject fs) (Some (JObj kvs)) = fits_fields fs kvs"
| "json_fits (ZOptional s) v = (v = None \<or> json_fits s v)"
| "json_fits s v = False"
| "fits_fields [] kvs = True"
| "fits_fields ((k, s) # fs) kvs = (json_fits s (obj_get k kvs) \<and> fits_fields fs kvs)"
| "fits_elems s [] = True"
| "fits_elems s (x # xs) = (json_fits s (Some x) \<and> fits_elems s xs)"

fun zstrip :: "zschema \<Rightarrow> json option \<Rightarrow> json option"
and strip_fields :: "(string \<times> zschema) list \<Rightarrow> (string \<times> json) list \<Rightarrow> (string \<times> json) list"
and strip_elems :: "zschema \<Rightarrow> json list \<Rightarrow> json list" where
  "zstrip (ZArray s) (Some (JArr xs)) = Some (JArr (strip_elems s xs))"
| "zstrip (ZObject fs) (Some (JObj kvs)) = Some (JObj (strip_fields fs kvs))"
| "zstrip (ZOptional s) v = zstrip s v"
| "zstrip s v = v"
| "strip_fields [] kvs = []"
| "strip_fields ((k, s) # fs) kvs =
     (case zstrip s (obj_get k kvs) of None \<Rightarrow> strip_fields fs kvs | Some x \<Rightarrow> (k, x) # strip_fields fs kvs)"
| "strip_elems s [] = []"
| "strip_elems s (x # xs) =
     (case zstrip s (Some x) of None \<Rightarrow> strip_elems s xs | Some y \<Rightarrow> y # strip_elems s xs)"


section \<open>From validated bodies to the service's arguments\<close>

text \<open>
  What the service receives from a request: the \<open>body\<close> member of the request
  object, read as a new record (\<open>createBook\<close>, the four lists starting empty as
  the model's defaults make them when the body does not set them) or as the
  fields of a \<open>$set\<close> (\<open>updateBook\<close>). A review is read only when both its
  fields are strings.
\<close>

definition json_string :: "json option \<Rightarrow> string option" where
  "json_string v = (case v of Some (JStr x) \<Rightarrow> Some x | _ \<Rightarrow> None)"

definition json_strings :: "json option \<Rightarrow> string list option" where
  "json_strings v = (case v of Some (JArr xs) \<Rightarrow> those (map (\<lambda>x. json_string (Some x)) xs) | _ \<Rightarrow> None)"

definition review_of_json :: "json \<Rightarrow> review option" where
  "review_of_json v =
     (case v of
        JObj kvs \<Rightarrow>
          (case (json_string (obj_get ''email'' kvs), json_string (obj_get ''comment'' kvs)) of
             (Some e, Some c) \<Rightarrow> Some \<lparr>email = e, comment = c\<rparr>
           | _ \<Rightarrow> None)
      | _ \<Rightarrow> None)"

definition reviews_of_json :: "json option \<Rightarrow> review list option" where
  "reviews_of_json v = (case v of Some (JArr xs) \<Rightarrow> those (map review_of_json xs) | _ \<Rightarrow> None)"

definition request_body :: "json option \<Rightarrow> (string \<times> json) list option" where
  "request_body v =
     (case v of Some (JObj kvs) \<Rightarrow> (case obj_get ''body'' kvs of Some (JObj b) \<Rightarrow> Some b | _ \<Rightarrow> None)
      | _ \<Rightarrow> None)"

definition list_member :: "json option \<Rightarrow> email list option" where
  "list_member v = (case v of None \<Rightarrow> Some [] | Some x \<Rightarrow> json_strings (Some x))"

definition created_fields :: "json option \<Rightarrow> book_fields option" where
  "created_fields v =
     (case request_body v of
        None \<Rightarrow> None
      | Some b \<Rightarrow>
          (case (json_string (obj_get ''title'' b), json_string (obj_get ''author'' b),
                 json_string (obj_get ''genre'' b), json_string (obj_get ''publication_date'' b),
                 reviews_of_json (obj_get ''reviews'' b),
                 list_member (obj_get ''wishlist'' b), list_member (obj_get ''read_soon'' b),
                 list_member (obj_get ''currently_reading'' b), list_member (obj_get ''finished'' b)) of
             (Some t, Some a, Some g, Some d, Some rs, Some w, Some r, Some c, Some f) \<Rightarrow>
               Some \<lparr>title = t, author = a, genre = g, publication_date = d, reviews = rs,
                     wishlist = w, read_soon = r, currently_reading = c, finished = f\<rparr>
           | _ \<Rightarrow> None))"

text \<open>
  An optional member of the update body: absent gives no change, present must
  decode. The \<open>$set\<close> of a body names every member that is a field of the model.
\<close>

definition opt_member :: "(json option \<Rightarrow> 'a option) \<Rightarrow> json option \<Rightarrow> 'a option option" where
  "opt_member dec v = (case v of None \<Rightarrow> Some None | Some x \<Rightarrow> map_option Some (dec (Some x)))"

definition patch_of_body :: "(string \<times> json) list \<Rightarrow> book_patch option" where
  "patch_of_body b =
     (case (opt_member json_string (obj_get ''title'' b), opt_member json_string (obj_get ''author'' b),
            opt_member json_string (obj_get ''genre'' b),
            opt_member json_string (obj_get ''publication_date'' b),
            opt_member reviews_of_json (obj_get ''reviews'' b),
            opt_member json_strings (obj_get ''wishlist'' b),
            opt_member json_strings (obj_get ''read_soon'' b),
            opt_member json_strings (obj_get ''currently_reading'' b),
            opt_member json_strings (obj_get ''finished'' b)) of
        (Some t, Some a, Some g, Some d, Some rs, Some w, Some r, Some c, Some f) \<Rightarrow>
          Some \<lparr>set_title = t, set_author = a, set_genre = g, set_publication_date = d,
                set_reviews = rs, set_wishlist = w, set_read_soon = r,
                set_currently_reading = c, set_finished = f\<rparr>
      | _ \<Rightarrow> None)"

text \<open>The canonical request creating a record with the given fields.\<close>

definition review_json :: "review \<Rightarrow> json" where
  "review_json r = JObj [(''email'', JStr (email r)), (''comment'', JStr (comment r))]"

definition create_request :: "'a book_fields_scheme \<Rightarrow> json" where
  "create_request b =
     JObj [(''body'', JObj
       [(''title'', JStr (title b)), (''author'', JStr (author b)), (''genre'', JStr (genre b)),
        (''publication_date'', JStr (publication_date b)),
        (''reviews'', JArr (map review_json (reviews b)))])]"


section \<open>Sample requests\<close>

definition sample_fields :: book_fields where
  "sample_fields = \<lparr>title = ''The Hobbit'', author = ''J.R.R. Tolkien'', genre = ''Fantasy'',
     publication_date = ''1937-09-21'', reviews = [\<lparr>email = ''a@x.com'', comment = ''Classic''\<rparr>],
     wishlist = [], read_soon = [], currently_reading = [], finished = []\<rparr>"

section \<open>The parser and the declarative reading agree\<close>

lemma email_ok_samples: "email_ok ''a@x.com''" "email_ok ''b@x.com''" "\<not> email_ok ''not-an-email''"
  by code_simp+

lemma obj_get_simps [simp]:
  "obj_get k [] = None"
  "obj_get k (kvs @ [(k', v)]) = (if k = k' then Some v else obj_get k kvs)"
  by (simp_all add: obj_get_def)

lemma obj_get_Cons: "obj_get k ((k', v) # kvs) = (case obj_get k kvs of None \<Rightarrow> (if k = k' then Some v else None) | Some w \<Rightarrow> Some w)"
  by (simp add: obj_get_def map_add_def split: option.split)

lemma check_string_Nil: "check_string p cs x = [] \<longleftrightarrow> list_all (\<lambda>c. check_ok c x) cs"
proof (induction cs)
  case (Cons c cs) then show ?case by (cases c) simp
qed simp

lemma zparse_issues_Nil:
  "fst (zparse s p v) = [] \<longleftrightarrow> json_fits s v"
  "fst (zparse_fields fs p kvs) = [] \<longleftrightarrow> fits_fields fs kvs"
  "fst (zparse_elems s' p i xs) = [] \<longleftrightarrow> fits_elems s' xs"
  by (induction s p v and fs p kvs and s' p i xs rule: zparse_zparse_fields_zparse_elems.induct)
    (auto simp: check_string_Nil type_issue_def split: prod.splits)

lemma zstrip_None [simp]: "zstrip s None = None"
  by (induction s) simp_all

lemma zparse_output:
  "json_fits s v \<Longrightarrow> snd (zparse s p v) = zstrip s v"
  "fits_fields fs kvs \<Longrightarrow> snd (zparse_fields fs p kvs) = strip_fields fs kvs"
  "fits_elems s' xs \<Longrightarrow> snd (zparse_elems s' p i xs) = strip_elems s' xs"
  by (induction s p v and fs p kvs and s' p i xs rule: zparse_zparse_fields_zparse_elems.induct)
    (auto split: prod.splits option.splits)


text \<open>
  The parser agrees with the declarative reading of the schema at every
  path: it reports no issue exactly when the value fits the schema, and then its
  output is the value with the keys outside the schema removed.
\<close>

theorem zparse_reference:
  "(fst (zparse s p v) = []) = json_fits s v \<and> (json_fits s v \<longrightarrow> snd (zparse s p v) = zstrip s v)"
  using zparse_issues_Nil(1)[of s p v] zparse_output(1)[of s v p] by blast

lemma zparse_reference_witness:
  "(fst (zparse review_create_schema [] (Some (review_json \<lparr>email = ''a@x.com'', comment = ''Good''\<rparr>))) = []) =
     json_fits review_create_schema (Some (review_json \<lparr>email = ''a@x.com'', comment = ''Good''\<rparr>)) \<and>
   json_fits review_create_schema (Some (review_json \<lparr>email = ''a@x.com'', comment = ''Good''\<rparr>)) \<and>
   snd (zparse review_create_schema [] (Some (review_json \<lparr>email = ''a@x.com'', comment = ''Good''\<rparr>))) =
     zstrip review_create_schema (Some (review_json \<lparr>email = ''a@x.com'', comment = ''Good''\<rparr>))"
proof -
  have "json_fits review_create_schema (Some (review_json \<lparr>email = ''a@x.com'', comment = ''Good''\<rparr>))"
    by (simp add: review_create_schema_def review_json_def obj_get_Cons email_ok_samples)
  with zparse_reference[of review_create_schema "[]" "Some (review_json \<lparr>email = ''a@x.com'', comment = ''Good''\<rparr>)"]
  show ?thesis by blast
qed

lemma safe_parse_Inr_iff:
  "safe_parse s v = Inr out \<longleftrightarrow> json_fits s (Some v) \<and> out = zstrip s (Some v)"
proof -
  have "fst (zparse s [] (Some v)) = [] \<longleftrightarrow> json_fits s (Some v)" by (rule zparse_issues_Nil)
  moreover have "json_fits s (Some v) \<Longrightarrow> snd (zparse s [] (Some v)) = zstrip s (Some v)"
    by (rule zparse_output)
  ultimately show ?thesis
    by (cases "zparse s [] (Some v)") (auto simp: safe_parse_def)
qed

lemma fits_ZString [simp]:
  "json_fits (ZString req cs) v \<longleftrightarrow> (\<exists>x. v = Some (JStr x) \<and> list_all (\<lambda>c. check_ok c x) cs)"
  by (cases v; cases "the v") auto

lemma fits_ZEnum [simp]: "json_fits (ZEnum os) v \<longleftrightarrow> (\<exists>x. v = Some (JStr x) \<and> x \<in> set os)"
  by (cases v; cases "the v") auto

lemma fits_ZArray [simp]: "json_fits (ZArray s) v \<longleftrightarrow> (\<exists>xs. v = Some (JArr xs) \<and> fits_elems s xs)"
  by (cases v; cases "the v") auto

lemma fits_ZObject [simp]: "json_fits (ZObject fs) v \<longleftrightarrow> (\<exists>kvs. v = Some (JObj kvs) \<and> fits_fields fs kvs)"
  by (cases v; cases "the v") auto

lemma review_of_review_json [simp]: "review_of_json (review_json r) = Some r"
  by (simp add: review_of_json_def review_json_def obj_get_Cons json_string_def)

lemma reviews_of_json_map [simp]: "reviews_of_json (Some (JArr (map review_json rs))) = Some rs"
  by (induction rs) (simp_all add: reviews_of_json_def)

lemma fits_review_create:
  assumes "json_fits review_create_schema (Some x)"
  shows "\<exists>r. email_ok (email r) \<and> zstrip review_create_schema (Some x) = Some (review_json r)"
proof -
  from assms obtain kvs e c where x: "x = JObj kvs" and "obj_get ''email'' kvs = Some (JStr e)"
    and "obj_get ''comment'' kvs = Some (JStr c)" and "email_ok e"
    by (auto simp: review_create_schema_def)
  then show ?thesis
    by (intro exI[of _ "\<lparr>email = e, comment = c\<rparr>"]) (simp add: review_create_schema_def review_json_def)
qed

lemma fits_reviews_create:
  "fits_elems review_create_schema xs \<Longrightarrow>
     \<exists>rs. strip_elems review_create_schema xs = map review_json rs \<and> list_all (\<lambda>r. email_ok (email r)) rs"
proof (induction xs)
  case (Cons x xs)
  then obtain rs where "strip_elems review_create_schema xs = map review_json rs"
    and "list_all (\<lambda>r. email_ok (email r)) rs" by auto
  moreover obtain r where "email_ok (email r)" and "zstrip review_create_schema (Some x) = Some (review_json r)"
    using fits_review_create Cons.prems by auto
  ultimately show ?case by (intro exI[of _ "r # rs"]) simp
qed simp


lemma create_request_fields [simp]:
  "created_fields (Some (create_request b)) =
     Some \<lparr>title = title b, author = author b, genre = genre b, publication_date = publication_date b,
           reviews = reviews b, wishlist = [], read_soon = [], currently_reading = [], finished = []\<rparr>"
  by (simp add: created_fields_def create_request_def request_body_def obj_get_Cons json_string_def
      list_member_def)

lemma review_json_fits:
  "json_fits review_create_schema (Some (review_json r)) \<longleftrightarrow> email_ok (email r)"
  "zstrip review_create_schema (Some (review_json r)) = Some (review_json r)"
  by (simp_all add: review_create_schema_def review_json_def obj_get_Cons)

lemma review_jsons_fit:
  "fits_elems review_create_schema (map review_json rs) \<longleftrightarrow> list_all (\<lambda>r. email_ok (email r)) rs"
  "strip_elems review_create_schema (map review_json rs) = map review_json rs"
  by (induction rs) (simp_all add: review_json_fits)

lemma create_request_parses:
  assumes "genre b \<in> set G" and "list_all (\<lambda>r. email_ok (email r)) (reviews b)"
  shows "json_fits (createBookZodSchema G) (Some (create_request b))"
    "zstrip (createBookZodSchema G) (Some (create_request b)) = Some (create_request b)"
  using assms by (simp_all add: createBookZodSchema_def create_request_def obj_get_Cons review_jsons_fit)

lemma create_output:
  assumes "safe_parse (createBookZodSchema G) req = Inr out"
  shows "\<exists>b :: book_fields. out = Some (create_request b) \<and>
    genre b \<in> set G \<and> list_all (\<lambda>r. email_ok (email r)) (reviews b) \<and>
    wishlist b = [] \<and> read_soon b = [] \<and> currently_reading b = [] \<and> finished b = []"
proof -
  from assms have fits: "json_fits (createBookZodSchema G) (Some req)"
    and out: "out = zstrip (createBookZodSchema G) (Some req)"
    by (simp_all add: safe_parse_Inr_iff)
  from fits obtain kvs bd t a g d xs where req: "req = JObj kvs" and bd: "obj_get ''body'' kvs = Some (JObj bd)"
    and "obj_get ''title'' bd = Some (JStr t)" "obj_get ''author'' bd = Some (JStr a)"
    "obj_get ''genre'' bd = Some (JStr g)" "obj_get ''publication_date'' bd = Some (JStr d)"
    "obj_get ''reviews'' bd = Some (JArr xs)" and g: "g \<in> set G"
    and rv: "fits_elems review_create_schema xs"
    by (auto simp: createBookZodSchema_def)
  moreover obtain rs where "strip_elems review_create_schema xs = map review_json rs"
    and "list_all (\<lambda>r. email_ok (email r)) rs"
    using fits_reviews_create[OF rv] by blast
  moreover define b :: book_fields where "b = \<lparr>title = t, author = a, genre = g, publication_date = d,
    reviews = rs, wishlist = [], read_soon = [], currently_reading = [], finished = []\<rparr>"
  ultimately have "out = Some (create_request b)"
    using out by (simp add: createBookZodSchema_def create_request_def)
  with g \<open>list_all (\<lambda>r. email_ok (email r)) rs\<close> show ?thesis
    by (intro exI[of _ b]) (simp add: b_def)
qed

text \<open>
  C31: the output of a successful \<open>createBookZodSchema\<close> parse is the canonical
  request of a record whose genre is one of the genres and whose review emails
  are valid, and that record, with empty membership lists, is what the service
  creates.
\<close>

theorem create_validated:
  assumes "safe_parse (createBookZodSchema G) req = Inr out"
  shows "\<exists>b :: book_fields. out = Some (create_request b) \<and> created_fields out = Some b \<and>
    genre b \<in> set G \<and> list_all (\<lambda>r. email_ok (email r)) (reviews b) \<and>
    wishlist b = [] \<and> read_soon b = [] \<and> currently_reading b = [] \<and> finished b = []"
proof -
  from create_output[OF assms] obtain b :: book_fields where "out = Some (create_request b)"
    and "genre b \<in> set G" "list_all (\<lambda>r. email_ok (email r)) (reviews b)"
    "wishlist b = []" "read_soon b = []" "currently_reading b = []" "finished b = []"
    by blast
  then show ?thesis by (intro exI[of _ b]) (cases b, simp)
qed

lemma create_validated_witness:
  "safe_parse (createBookZodSchema [''Fantasy'']) (create_request sample_fields) =
     Inr (Some (create_request sample_fields)) \<and>
   (\<exists>b :: book_fields. Some (create_request sample_fields) = Some (create_request b) \<and>
     created_fields (Some (create_request sample_fields)) = Some b \<and>
     genre b \<in> set [''Fantasy''] \<and> list_all (\<lambda>r. email_ok (email r)) (reviews b) \<and>
     wishlist b = [] \<and> read_soon b = [] \<and> currently_reading b = [] \<and> finished b = [])"
proof -
  have p: "safe_parse (createBookZodSchema [''Fantasy'']) (create_request sample_fields) =
      Inr (Some (create_request sample_fields))"
    using create_request_parses[of sample_fields "[''Fantasy'']"]
    by (simp add: safe_parse_Inr_iff sample_fields_def email_ok_samples)
  with create_validated[OF p] show ?thesis by blast
qed


text \<open>
  C32: a request built from a record whose genre is one of the genres and whose
  review emails are valid passes \<open>createBookZodSchema\<close> unchanged, and the
  service receives that record with its four membership lists empty.
\<close>

theorem create_request_roundtrip:
  assumes "genre b \<in> set G" and "list_all (\<lambda>r. email_ok (email r)) (reviews b)"
  shows "safe_parse (createBookZodSchema G) (create_request b) = Inr (Some (create_request b)) \<and>
    created_fields (Some (create_request b)) =
      Some (b\<lparr>wishlist := [], read_soon := [], currently_reading := [], finished := []\<rparr>)"
  using create_request_parses[OF assms] by (simp add: safe_parse_Inr_iff)

lemma create_request_roundtrip_witness:
  "genre sample_fields \<in> set [''Fantasy''] \<and> list_all (\<lambda>r. email_ok (email r)) (reviews sample_fields) \<and>
   safe_parse (createBookZodSchema [''Fantasy'']) (create_request sample_fields) =
     Inr (Some (create_request sample_fields)) \<and>
   created_fields (Some (create_request sample_fields)) = Some sample_fields"
proof -
  have "genre sample_fields \<in> set [''Fantasy'']" "list_all (\<lambda>r. email_ok (email r)) (reviews sample_fields)"
    by (simp_all add: sample_fields_def email_ok_samples)
  with create_request_roundtrip[OF this] show ?thesis by (simp add: sample_fields_def)
qed


lemma zparse_fields_issue:
  "(k, s) \<in> set fs \<Longrightarrow> i \<in> set (fst (zparse s (p @ [PKey k]) (obj_get k kvs))) \<Longrightarrow>
     i \<in> set (fst (zparse_fields fs p kvs))"
  by (induction fs) (auto split: prod.splits)

lemma zparse_object_issue:
  "(k, s) \<in> set fs \<Longrightarrow> i \<in> set (fst (zparse s (p @ [PKey k]) (obj_get k kvs))) \<Longrightarrow>
     i \<in> set (fst (zparse (ZObject fs) p (Some (JObj kvs))))"
  using zparse_fields_issue[of k s fs i p kvs] by (cases "zparse_fields fs p kvs") simp

lemma safe_parse_issue:
  "i \<in> set (fst (zparse s [] (Some v))) \<Longrightarrow> \<exists>is. safe_parse s v = Inl is \<and> i \<in> set is"
  by (cases "zparse s [] (Some v)") (auto simp: safe_parse_def)

lemma create_field_missing:
  assumes "(k, s) \<in> set [(''title'', ZString (Some ''Title is required !!'') []),
        (''author'', ZString (Some ''Authore is required !!'') []), (''genre'', ZEnum G),
        (''publication_date'', ZString (Some ''Date is required !!'') []),
        (''reviews'', ZArray review_create_schema)]" (is "_ \<in> set ?fs")
    and "obj_get ''body'' kvs = Some (JObj bd)" and "obj_get k bd = None"
    and "i \<in> set (fst (zparse s [PKey ''body'', PKey k] None))"
  shows "\<exists>is. safe_parse (createBookZodSchema G) (JObj kvs) = Inl is \<and> i \<in> set is"
proof -
  have "i \<in> set (fst (zparse (ZObject ?fs) [PKey ''body''] (Some (JObj bd))))"
    using zparse_object_issue[OF assms(1), of i "[PKey ''body'']" bd] assms(3,4) by simp
  then have "i \<in> set (fst (zparse (ZObject [(''body'', ZObject ?fs)]) [] (Some (JObj kvs))))"
    using zparse_object_issue[of "''body''" "ZObject ?fs" "[(''body'', ZObject ?fs)]" i "[]" kvs] assms(2)
    by simp
  then show ?thesis
    unfolding createBookZodSchema_def by (rule safe_parse_issue)
qed


text \<open>
  C33: a create request whose body lacks a required field fails, and among its
  issues is one at that field's path carrying the message the code gives it
  (\<open>Required\<close> where the code sets none).
\<close>

theorem create_missing_field:
  assumes "obj_get ''body'' kvs = Some (JObj bd)" and "obj_get k bd = None"
    and "(k, m) \<in> set [(''title'', ''Title is required !!''), (''author'', ''Authore is required !!''),
      (''genre'', ''Required''), (''publication_date'', ''Date is required !!''), (''reviews'', ''Required'')]"
  shows "\<exists>is. safe_parse (createBookZodSchema G) (JObj kvs) = Inl is \<and>
    \<lparr>ipath = [PKey ''body'', PKey k], icode = InvalidType, imessage = m\<rparr> \<in> set is"
proof -
  have miss: "\<exists>is. safe_parse (createBookZodSchema G) (JObj kvs) = Inl is \<and>
      \<lparr>ipath = [PKey ''body'', PKey k], icode = InvalidType, imessage = m\<rparr> \<in> set is"
    if "(k, s) \<in> set [(''title'', ZString (Some ''Title is required !!'') []),
        (''author'', ZString (Some ''Authore is required !!'') []), (''genre'', ZEnum G),
        (''publication_date'', ZString (Some ''Date is required !!'') []),
        (''reviews'', ZArray review_create_schema)]"
      and "fst (zparse s [PKey ''body'', PKey k] None) =
        [\<lparr>ipath = [PKey ''body'', PKey k], icode = InvalidType, imessage = m\<rparr>]" for s
    using create_field_missing[OF that(1) assms(1,2)] that(2) by simp
  from assms(3)[unfolded list.set] show ?thesis
  proof (elim insertE)
    assume "(k, m) = (''title'', ''Title is required !!'')"
    then show ?thesis by (intro miss[where s = "ZString (Some ''Title is required !!'') []"]) (simp_all add: type_issue_def)
  next
    assume "(k, m) = (''author'', ''Authore is required !!'')"
    then show ?thesis by (intro miss[where s = "ZString (Some ''Authore is required !!'') []"]) (simp_all add: type_issue_def)
  next
    assume "(k, m) = (''genre'', ''Required'')"
    then show ?thesis by (intro miss[where s = "ZEnum G"]) (simp_all add: type_issue_def)
  next
    assume "(k, m) = (''publication_date'', ''Date is required !!'')"
    then show ?thesis by (intro miss[where s = "ZString (Some ''Date is required !!'') []"]) (simp_all add: type_issue_def)
  next
    assume "(k, m) = (''reviews'', ''Required'')"
    then show ?thesis by (intro miss[where s = "ZArray review_create_schema"]) (simp_all add: type_issue_def)
  qed simp
qed


lemma create_missing_field_witness:
  "obj_get ''body'' [(''body'', JObj [(''author'', JStr ''Tolkien'')])] = Some (JObj [(''author'', JStr ''Tolkien'')]) \<and>
   obj_get ''title'' [(''author'', JStr ''Tolkien'')] = None \<and>
   (''title'', ''Title is required !!'') \<in> set [(''title'', ''Title is required !!''),
      (''author'', ''Authore is required !!''), (''genre'', ''Required''),
      (''publication_date'', ''Date is required !!''), (''reviews'', ''Required'')] \<and>
   (\<exists>is. safe_parse (createBookZodSchema [''Fantasy'']) (JObj [(''body'', JObj [(''author'', JStr ''Tolkien'')])]) = Inl is \<and>
      \<lparr>ipath = [PKey ''body'', PKey ''title''], icode = InvalidType, imessage = ''Title is required !!''\<rparr> \<in> set is)"
  using create_missing_field[of "[(''body'', JObj [(''author'', JStr ''Tolkien'')])]" "[(''author'', JStr ''Tolkien'')]"
      "''title''" "''Title is required !!''" "[''Fantasy'']"]
  by (simp add: obj_get_Cons)

section \<open>Validated updates\<close>

lemma obj_get_strip_fields:
  "k \<notin> fst ` set fs \<Longrightarrow> obj_get k (strip_fields fs kvs) = None"
  by (induction fs) (auto simp: obj_get_Cons split: option.split)

text \<open>
  The membership lists are not keys of the update schema, so the body of a
  validated update, as the parser outputs it, never sets them.
\<close>

lemma update_validated_lists:
  assumes "safe_parse (updateBookZodSchema G) req = Inr out" and "request_body out = Some b"
    and "patch_of_body b = Some p"
  shows "set_wishlist p = None \<and> set_read_soon p = None \<and> set_currently_reading p = None \<and>
    set_finished p = None"
proof -
  from assms(1) have fits: "json_fits (updateBookZodSchema G) (Some req)"
    and out: "out = zstrip (updateBookZodSchema G) (Some req)"
    by (simp_all add: safe_parse_Inr_iff)
  from fits obtain kvs bd where "req = JObj kvs" and bd: "obj_get ''body'' kvs = Some (JObj bd)"
    by (auto simp: updateBookZodSchema_def)
  let ?fs = "[(''title'', ZOptional (ZString None [])),
        (''author'', ZOptional (ZString None [])), (''genre'', ZOptional (ZEnum G)),
        (''publication_date'', ZOptional (ZString None [])),
        (''reviews'', ZOptional (ZArray review_update_schema))]"
  from out assms(2) bd \<open>req = JObj kvs\<close> have b: "b = strip_fields ?fs bd"
    by (simp add: updateBookZodSchema_def request_body_def obj_get_Cons)
  have "obj_get k (strip_fields ?fs bd) = None"
    if "k \<in> {''wishlist'', ''read_soon'', ''currently_reading'', ''finished''}" for k
    using that by (intro obj_get_strip_fields) auto
  then have "obj_get ''wishlist'' b = None" "obj_get ''read_soon'' b = None"
    "obj_get ''currently_reading'' b = None" "obj_get ''finished'' b = None"
    unfolding b by simp_all
  with assms(3) show ?thesis
    by (auto simp: patch_of_body_def opt_member_def split: option.splits)
qed






text \<open>The same body read as it arrives sets read_soon.\<close>

lemma update_raw_body_sets_read_soon:
  "patch_of_body [(''read_soon'', JArr [JStr ''b@x.com'']), (''reviews'', JArr [])] =
     Some (empty_patch\<lparr>set_reviews := Some [], set_read_soon := Some [''b@x.com'']\<rparr>)"
  by (simp add: patch_of_body_def opt_member_def obj_get_Cons json_strings_def json_string_def
      reviews_of_json_def empty_patch_def)

end
