(* ===== verification/Spec2Isabelle.thy ===== *)
theory Spec2Isabelle
  imports Concurrency Validation
begin

text \<open>
  \<^bold>\<open>A verified model of the book module of quantum_saga_server.\<close>

  The module has two parts. \<open>src/src/app/modules/book/book.service.ts\<close> is a
  data-access layer over a Mongoose model \<open>Book\<close>: \<open>getBooks\<close> builds a query
  (search term, exact-match filters, sort, page) and runs it together with a count;
  \<open>getBook\<close>, \<open>createBook\<close>, \<open>updateBook\<close> and \<open>deleteBook\<close> are single store calls;
  \<open>addReview\<close>, \<open>addToWishlist\<close>, \<open>removeFromWishlist\<close> and the three reading-status
  transitions \<open>addToReadSoon\<close>, \<open>addToCurrentlyReading\<close>, \<open>addToFinished\<close> are each
  one \<open>findOneAndUpdate\<close> whose update document combines \<open>$set\<close>, \<open>$push\<close>,
  \<open>$pull\<close> and \<open>$addToSet\<close>. \<open>book.validation.ts\<close> holds the zod schemas of the
  request bodies of creation and update. The request-handling layer calls the
  exported \<open>BookService\<close> object; the store is the only shared state.

  \<^bold>\<open>Theories.\<close>
  \<^item> \<open>Prelude\<close>: the shared lemma collections (\<open>service_simps\<close>,
    \<open>list_field_simps\<close>), list and string helpers (\<open>last_opt\<close> for JavaScript's
    \<open>arr[arr.length - 1]\<close>, ASCII case folding \<open>lower\<close>).
  \<^item> \<open>Document\<close>: the \<open>IBook\<close> and review records, the four membership lists
    addressed by name, documents as store values, and ObjectId strings (24
    hexadecimal digits, as bson 6 casts them; the store's fresh identifiers \<open>oid_of_nat\<close> with the
    round trip \<open>nat_of_hex_of_nat\<close>).
  \<^item> \<open>Store\<close>: the document store as a record \<open>book_store\<close> (the documents in
    insertion order and the identifier counter) and the Mongoose calls the service
    makes, with the MongoDB semantics they rely on: ObjectId casting
    (\<open>CastError\<close>), the update operators and the conflict check on paths that
    two operators of one update name, \<open>findOneAndUpdate\<close> with \<open>new: true\<close>,
    \<open>create\<close>, \<open>findById\<close>, \<open>findByIdAndDelete\<close>. The well-formedness invariant
    \<open>store_wf\<close> (identifiers unique and allocated by the counter) and its
    preservation by every call.
  \<^item> \<open>Regex\<close>: the regular expressions a search term is read as by MongoDB
    (PCRE syntax: literals, \<open>.\<close>, classes with ranges and \<open>\<backslash>d \<backslash>w \<backslash>s\<close>, groups,
    alternation, greedy and lazy quantifiers including \<open>{n,m}\<close>, anchors, word
    boundaries). A parser \<open>rx_parse\<close> (a left-to-right loop \<open>rx_loop\<close> over the
    pattern with a stack of open groups) that returns PCRE's compile errors
    (\<open>RxSyntax\<close>: missing or unmatched parenthesis, unterminated class, quantifier
    without operand, numbers or range out of order) and marks the constructs left
    out (\<open>RxUnsupported\<close>); the meaning of an expression as an inductive relation
    \<open>rmatch\<close> between start and end positions, each character and class carrying
    PCRE's caseless flag (ASCII case folding); \<open>rx_compile\<close> reads the
    \<open>$options\<close> string (\<open>i\<close> makes the whole pattern caseless); an
    executable matcher \<open>ends\<close> computing the set of end positions, unbounded
    repetition by the worklist closure \<open>closure_pos\<close>; and \<open>rx_search\<close>.
  \<^item> \<open>Query\<close>: the query language \<open>getBooks\<close> produces (\<open>$and\<close>, \<open>$or\<close>,
    \<open>$regex\<close> with its \<open>$options\<close>, equality), the errors the store reports for a
    predicate (\<open>cond_error\<close>: empty \<open>$and\<close>/\<open>$or\<close>, a pattern PCRE refuses), its
    evaluation against a document, sorting by one field in either direction, and
    \<open>find().sort().skip().limit()\<close> and \<open>countDocuments\<close>.
  \<^item> \<open>QueryBuilder\<close>: \<open>getBooks\<close> (service lines 9-59) and its helper
    \<open>calculatePagination\<close>, the abstract specification \<open>selected\<close> of the records
    a filter selects, and the refinement of the built query by it.
  \<^item> \<open>RecordMutator\<close>: the by-identifier operations (service lines 61-180), one
    definition each, every one a single store call with the update document the
    code writes.
  \<^item> \<open>ReadingStatus\<close>: the abstraction of the three status lists as one status
    per user and record, the disjointness invariant that makes it well-defined,
    and the three transitions as instances of one update \<open>move_update\<close>.
  \<^item> \<open>BookService\<close>: the exported \<open>BookService\<close> object (lines 182-194) as a
    datatype of requests \<open>service_op\<close> with the step function \<open>service_step\<close>, and
    the requests a conforming client sends.
  \<^item> \<open>Concurrency\<close>: the two awaited store calls of \<open>getBooks\<close> as
    \<open>getBooks_split\<close> (page from one store, total from another) and the
    requests served between them as a sequence of service steps \<open>run_ops\<close>.
  \<^item> \<open>Validation\<close>: \<open>book.validation.ts\<close>. JSON request bodies as a datatype,
    zod's combinators as a datatype of schemas \<open>zschema\<close>, zod's \<open>safeParse\<close> as
    \<open>zparse\<close>/\<open>safe_parse\<close> (all issues collected with path and message, unknown
    keys stripped), the email syntax of zod's \<open>.email()\<close>, the two schemas
    \<open>createBookZodSchema\<close> and \<open>updateBookZodSchema\<close> written as the code writes
    them, and the decoders from a validated body to the arguments of
    \<open>createBook\<close> and \<open>updateBook\<close>.
  \<^item> This theory: the reachable stores (an inductive relation over conforming
    requests from the empty store) and the properties that span all requests.

  \<^bold>\<open>What the lemmas show.\<close> The record operations (C1, C4-C13): each
  changes exactly the fields its update document names and nothing else, and each
  status transition leaves the acting user in its own list only; an unknown
  identifier is a soft \<open>null\<close>, a malformed one (of a length other than 12) a
  \<open>CastError\<close>. The regular expressions: the executable search decides the
  inductive meaning on every expression and string (\<open>rx_search_matches\<close>), the
  worklist closure terminates on every input (\<open>closure_pos_terminates\<close>), every
  character of a pattern compiled with the option \<open>i\<close> is caseless
  (\<open>icase_rx_parse\<close>), so lower-casing the subject never changes a match, and a
  pattern without metacharacters is case-insensitive substring search, with a dot
  standing for any character but a newline. Through them, the search clause
  \<open>getBooks\<close> builds selects a record exactly when the parsed term matches its
  title, author or genre (C2), whatever the case of the record's text (C3), and
  a dot in the term is a wildcard (C21). The query builder (C6, C14-C25, C36): a
  search term PCRE refuses makes \<open>getBooks\<close> fail with the store's error (C6);
  otherwise the built query selects exactly the records of the abstract
  specification, the total counts all of them independently of the page, the data
  is a window of at most \<open>limit\<close> of them in the requested sort order,
  consecutive pages tile the result, and the edge cases of the code (no criteria,
  page below 1, limit 0) are pinned down. The reading status (C26-C28): under
  the client's payload convention each transition sets the acting user's status
  and leaves every other user's status alone; a payload that breaks the convention
  leaves a user in two lists, and an empty payload changes nothing. Across
  requests (C22, C29, C30): no request is ever refused as a conflicting update,
  the status lists stay disjoint in every reachable store, and every reading
  status (or none) can be given to any user on any stored record by one
  conforming request; further lemmas show that failures leave the store
  unchanged, that well-formedness is preserved, that a request changes only the
  record it names, and that with requests interleaved between the two store calls
  of \<open>getBooks\<close> the page is unchanged and the total drifts by at most one per
  request. Validation (C31-C35): the parser agrees with a declarative reading of
  each schema (\<open>zparse_reference\<close>); a validated creation is a well-typed record
  (genre in the list, valid review emails, empty membership lists) and such
  records round trip through the schema; a missing required field is reported
  with the code's message; the update schema ignores every key outside its shape,
  so a body setting a membership list passes; and validated creations and updates
  are conforming requests, so they keep the store reachable.

  \<^bold>\<open>Bounds.\<close> Identifiers are allocated from a counter below \<open>16 ^ 24\<close>, the
  number of 24-digit hexadecimal strings; creation is conforming while the counter
  is below that bound, which is what makes fresh identifiers unique. The page
  size defaults to 10 and the page to 1 as in \<open>calculatePagination\<close>. Quantifier
  bounds above 65535 are PCRE's "number too big" error. The repository pins no
  Mongoose or bson version; where they differ (a 12-character identifier is
  an ObjectId before bson 6 and a \<open>CastError\<close> after) the theorems leave the
  case out. No definition needs fuel:
  the code has no loop other than \<open>map\<close> over a list, and the model's recursions
  are structural (the zod parser on the schema and the element list, the matcher
  on the expression) or have a measure: the pattern parser and the class parser
  consume at least one character per step, and the worklist closure either adds
  a position not yet seen and at most the string's length (of which there are
  finitely many) or shortens the worklist (\<open>closure_pos_terminates\<close>).

  \<^bold>\<open>Not modelled.\<close> The genre list of \<open>book.constant.ts\<close> and the Mongoose
  model are not in the sources: the schemas take the genres as a parameter, and
  the decoders give the membership lists of a new record the empty default. The
  middleware that runs the schemas and the controllers are not in the sources
  either; C35 assumes they pass the parser's output to the service (passing the
  raw body instead would let an update set read_soon, see
  \<open>update_raw_body_sets_read_soon\<close>). JSON numbers are kept as integers (the
  schemas only test for strings), and zod's email check is the pattern of zod
  3.22. The Mongoose schema's validators and defaults, dotted paths and
  array-index paths of updates, the PCRE constructs marked \<open>RxUnsupported\<close>
  (lookaround, back references, named and atomic groups, inline options,
  possessive quantifiers, POSIX classes, \<open>\<backslash>p\<close> and the other letter escapes,
  the options \<open>m\<close>, \<open>s\<close>, \<open>x\<close>, \<open>u\<close>; a term using one is read as matching
  nothing, where MongoDB would match it: the theorems on the search clause state
  their result for terms that parse, and C6 for terms PCRE refuses), non-ASCII case folding, the order of records that tie on
  the sort key, interleavings inside a single store call (each Mongoose call is
  one atomic step; only the gap between the two calls of \<open>getBooks\<close> is
  modelled), the controllers, routing, HTTP transport and database connection.
\<close>

section \<open>Reachable stores\<close>

text \<open>The stores that conforming requests can produce from the empty store.\<close>

inductive reachable :: "book_store \<Rightarrow> bool" where
  init: "reachable empty_store"
| step: "reachable st \<Longrightarrow> conforming op st \<Longrightarrow> reachable (snd (service_step op st))"

definition sample_reachable_store :: book_store where
  "sample_reachable_store = snd (service_step (CreateBook (book_fields.truncate sample_book)) empty_store)"

text \<open>
  The request a client sends to give user \<open>u\<close> the reading status \<open>t\<close> on record
  \<open>bid\<close>: the transition to \<open>t\<close> with the payload \<open>[u]\<close>, or, for no status,
  \<open>removeFromWishlist\<close>.
\<close>

fun status_request :: "reading_status option \<Rightarrow> string \<Rightarrow> email \<Rightarrow> service_op" where
  "status_request None bid u = RemoveFromWishlist bid u"
| "status_request (Some ReadSoonS) bid u = AddToReadSoon bid [u]"
| "status_request (Some ReadingS) bid u = AddToCurrentlyReading bid [u]"
| "status_request (Some FinishedS) bid u = AddToFinished bid [u]"

lemma oid_of_nat_sample: "oid_of_nat 0 = sample_id" "oid_of_nat (Suc 0) \<noteq> sample_id"
  by code_simp+

lemma store_wf_sample: "store_wf sample_store"
  by (simp add: store_wf_def sample_store_def sample_book_def oid_of_nat_sample(1)[symmetric]
      lessThan_Suc)

section \<open>Failures are atomic\<close>

text \<open>
  A request that fails leaves the store exactly as it was: every mutation is
  a single store call that either takes effect as a whole or not at all.
\<close>

theorem service_errors_atomic:
  assumes "fst (service_step op st) = Inl err"
  shows "snd (service_step op st) = st"
proof (cases "op_update op")
  case (Some u)
  then show ?thesis
    using assms find_one_and_update_Inl
    by (simp add: service_step_update fst_lift_book_Inl) (metis prod.collapse)
next
  case None
  then show ?thesis
    using assms op_update_cases[OF None] find_by_id_and_delete_Inl
    by (auto simp: deleteBook_def createBook_def lift_book_def map_sum_def split: sum.splits)
qed

lemma service_errors_atomic_witness:
  "fst (service_step (AddToWishlist ''nonexistent-id'' [''c@x.com'']) sample_store) = Inl (CastError ''nonexistent-id'') \<and>
   snd (service_step (AddToWishlist ''nonexistent-id'' [''c@x.com'']) sample_store) = sample_store"
proof -
  have c: "cast_object_id ''nonexistent-id'' = None"
    by (simp add: cast_object_id_def valid_object_id_def)
  then have e: "fst (service_step (AddToWishlist ''nonexistent-id'' [''c@x.com'']) sample_store) = Inl (CastError ''nonexistent-id'')"
    by (simp add: addToWishlist_def find_one_and_update_cast_error lift_book_def)
  with service_errors_atomic[OF e] show ?thesis by blast
qed


section \<open>The service never sends a conflicting update\<close>

text \<open>
  C29: no request fails with a conflicting-update error: every update document
  the service builds names each path at most once.
\<close>

theorem service_never_conflicts: "fst (service_step op st) \<noteq> Inl (ConflictingUpdate x)"
proof (cases "op_update op")
  case (Some u)
  have "\<not> update_conflict u" using Some by (rule op_update_no_conflict)
  then show ?thesis
    using Some find_one_and_update_conflict[of "op_id op" u st x]
    by (auto simp: service_step_update fst_lift_book_Inl)
next
  case None
  have del: "fst (find_by_id_and_delete bid st) \<noteq> Inl (ConflictingUpdate x)" for bid
    using find_by_id_and_delete_Inl by blast
  have get: "getBook bid st \<noteq> Inl (ConflictingUpdate x)" for bid
    by (simp add: getBook_def find_by_id_def split: option.split)
  have page: "getBooks flt opts st \<noteq> Inl (ConflictingUpdate x)" for flt opts
    by (simp add: getBooks_eq Let_def split: option.split)
  show ?thesis
    using op_update_cases[OF None] del get page
    by (auto simp: deleteBook_def lift_book_def map_sum_def split: sum.splits)
qed

section \<open>Well-formed stores\<close>

text \<open>
  Every request keeps the store well-formed (identifiers unique and allocated
  by the store), provided the identifier space is not exhausted.
\<close>

theorem service_preserves_wf:
  assumes "store_wf st" and "next_oid st < 16 ^ 24"
  shows "store_wf (snd (service_step op st))"
proof (cases "op_update op")
  case (Some u)
  then show ?thesis
    using store_wf_find_one_and_update[OF assms(1)] by (simp add: service_step_update)
next
  case None
  then show ?thesis
    using op_update_cases[OF None] assms store_wf_insert store_wf_delete
    by (auto simp: createBook_def deleteBook_def)
qed

lemma service_preserves_wf_witness:
  "store_wf sample_store \<and> next_oid sample_store < 16 ^ 24 \<and>
   store_wf (snd (service_step (CreateBook (book_fields.truncate sample_book)) sample_store))"
proof -
  have "next_oid sample_store < 16 ^ 24" by (simp add: sample_store_def)
  with store_wf_sample service_preserves_wf[OF store_wf_sample this] show ?thesis by blast
qed

text \<open>
  A request changes at most the record it names (for a creation, the record
  under the fresh identifier): every other identifier looks up the same record as
  before.
\<close>

theorem service_frame:
  assumes "store_wf st" and "touched_id op st \<noteq> Some k"
  shows "lookup_id k (snd (service_step op st)) = lookup_id k st"
proof (cases "op_update op")
  case (Some u)
  then show ?thesis
    using assms(2) find_one_and_update_frame[of "op_id op" u st _ _ k]
    by (simp add: service_step_update touched_id_update) (metis prod.collapse)
next
  case None
  have del: "lookup_id k (snd (find_by_id_and_delete bid st)) = lookup_id k st"
    if "cast_object_id bid \<noteq> Some k" for bid
    using that assms(1)
    by (auto simp: find_by_id_and_delete_def lookup_id_delete split: option.splits)
  have ins: "lookup_id k (snd (insert_book p st)) = lookup_id k st"
    if "k \<noteq> oid_of_nat (next_oid st)" for p
    using that by (simp add: lookup_id_insert split: option.split)
  show ?thesis
    using op_update_cases[OF None] assms(2) del ins
    by (auto simp: deleteBook_def createBook_def)
qed

lemma service_frame_witness:
  "store_wf sample_store \<and>
   touched_id (CreateBook (book_fields.truncate sample_book)) sample_store \<noteq> Some sample_id \<and>
   lookup_id sample_id (snd (service_step (CreateBook (book_fields.truncate sample_book)) sample_store)) =
     Some sample_book"
proof -
  have t: "touched_id (CreateBook (book_fields.truncate sample_book)) sample_store \<noteq> Some sample_id"
    by (simp add: sample_store_def oid_of_nat_sample(2))
  from service_frame[OF store_wf_sample t] store_wf_sample t show ?thesis by simp
qed


section \<open>The status lists stay disjoint\<close>

text \<open>
  C30: in every store reachable from the empty store by conforming requests, every
  record holds each user in at most one of read_soon, currently_reading and
  finished: the exclusivity the specification intends (section 3) holds as long as
  clients follow the payload convention and updates carry only the fields of the
  update schema.
\<close>

lemma reachable_disjoint:
  assumes "reachable st"
  shows "list_all status_disjoint (books st)"
  using assms
proof (induction rule: reachable.induct)
  case init
  show ?case by (simp add: empty_store_def)
next
  case (step st op)
  show ?case by (rule service_step_status[OF step.hyps(2) step.IH])
qed

theorem reachable_status_disjoint:
  assumes "reachable st"
  shows "list_all status_disjoint (books st)"
  using assms by (rule reachable_disjoint)

lemma reachable_status_disjoint_witness:
  "reachable (snd (service_step (CreateBook (book_fields.truncate sample_book)) empty_store)) \<and>
   list_all status_disjoint (books (snd (service_step (CreateBook (book_fields.truncate sample_book)) empty_store)))"
proof -
  have "conforming (CreateBook (book_fields.truncate sample_book)) empty_store"
    by (simp add: status_disjoint_def sample_book_def book_fields.defs empty_store_def)
  then have r: "reachable (snd (service_step (CreateBook (book_fields.truncate sample_book)) empty_store))"
    by (rule reachable.step[OF reachable.init])
  from r reachable_status_disjoint[OF r] show ?thesis by blast
qed


section \<open>Validated requests keep the store reachable\<close>

text \<open>
  C35: when the request-handling layer passes the validated output to the
  service, a creation (while identifiers remain) and an update are conforming
  requests: from a reachable store they lead to a reachable store, so the status
  lists stay disjoint (C30) under validated requests.
\<close>

theorem validated_requests_reachable:
  assumes "reachable st"
  shows "(safe_parse (createBookZodSchema G) req = Inr out \<and> created_fields out = Some b \<and>
      next_oid st < 16 ^ 24 \<longrightarrow> reachable (snd (service_step (CreateBook b) st))) \<and>
    (safe_parse (updateBookZodSchema G) req' = Inr out' \<and> request_body out' = Some bd \<and>
      patch_of_body bd = Some p \<longrightarrow> reachable (snd (service_step (UpdateBook bid p) st)))"
proof (intro conjI impI)
  assume a: "safe_parse (createBookZodSchema G) req = Inr out \<and> created_fields out = Some b \<and>
    next_oid st < 16 ^ 24"
  then obtain c :: book_fields where "out = Some (create_request c)"
    using create_output by blast
  with a have "status_disjoint b" by (auto simp: status_disjoint_def)
  with a have "conforming (CreateBook b) st" by simp
  with assms show "reachable (snd (service_step (CreateBook b) st))" by (rule reachable.step)
next
  assume "safe_parse (updateBookZodSchema G) req' = Inr out' \<and> request_body out' = Some bd \<and>
    patch_of_body bd = Some p"
  then have "conforming (UpdateBook bid p) st" using update_validated_lists by auto
  with assms show "reachable (snd (service_step (UpdateBook bid p) st))" by (rule reachable.step)
qed

lemma validated_requests_reachable_witness:
  "reachable empty_store \<and>
   safe_parse (createBookZodSchema [''Fantasy'']) (create_request sample_fields) =
     Inr (Some (create_request sample_fields)) \<and>
   created_fields (Some (create_request sample_fields)) = Some sample_fields \<and>
   next_oid empty_store < 16 ^ 24 \<and>
   reachable (snd (service_step (CreateBook sample_fields) empty_store)) \<and>
   safe_parse (updateBookZodSchema [''Fantasy'']) (JObj [(''body'', JObj [(''title'', JStr ''The Hobbit'')])]) =
     Inr (Some (JObj [(''body'', JObj [(''title'', JStr ''The Hobbit'')])])) \<and>
   request_body (Some (JObj [(''body'', JObj [(''title'', JStr ''The Hobbit'')])])) =
     Some [(''title'', JStr ''The Hobbit'')] \<and>
   patch_of_body [(''title'', JStr ''The Hobbit'')] = Some (empty_patch\<lparr>set_title := Some ''The Hobbit''\<rparr>) \<and>
   reachable (snd (service_step (UpdateBook sample_id (empty_patch\<lparr>set_title := Some ''The Hobbit''\<rparr>)) empty_store))"
proof -
  have c: "safe_parse (createBookZodSchema [''Fantasy'']) (create_request sample_fields) =
      Inr (Some (create_request sample_fields))"
    using create_request_parses[of sample_fields "[''Fantasy'']"]
    by (simp add: safe_parse_Inr_iff sample_fields_def email_ok_samples)
  have f: "created_fields (Some (create_request sample_fields)) = Some sample_fields"
    by (simp add: sample_fields_def)
  have u: "safe_parse (updateBookZodSchema [''Fantasy'']) (JObj [(''body'', JObj [(''title'', JStr ''The Hobbit'')])]) =
      Inr (Some (JObj [(''body'', JObj [(''title'', JStr ''The Hobbit'')])]))"
    by (simp add: safe_parse_def updateBookZodSchema_def obj_get_Cons)
  have r: "request_body (Some (JObj [(''body'', JObj [(''title'', JStr ''The Hobbit'')])])) =
      Some [(''title'', JStr ''The Hobbit'')]"
    by (simp add: request_body_def obj_get_Cons)
  have pb: "patch_of_body [(''title'', JStr ''The Hobbit'')] = Some (empty_patch\<lparr>set_title := Some ''The Hobbit''\<rparr>)"
    by (simp add: patch_of_body_def opt_member_def obj_get_Cons json_string_def empty_patch_def)
  have n: "next_oid empty_store < 16 ^ 24" by (simp add: empty_store_def)
  from validated_requests_reachable[OF reachable.init, of "[''Fantasy'']" "create_request sample_fields"
      "Some (create_request sample_fields)" sample_fields
      "JObj [(''body'', JObj [(''title'', JStr ''The Hobbit'')])]"
      "Some (JObj [(''body'', JObj [(''title'', JStr ''The Hobbit'')])])"
      "[(''title'', JStr ''The Hobbit'')]" "empty_patch\<lparr>set_title := Some ''The Hobbit''\<rparr>" sample_id]
    c f u r pb n reachable.init
  show ?thesis by blast
qed


section \<open>Every reading status can be reached\<close>

lemma status_of_pull_all:
  "status_of (apply_update [UPull Wishlist (Some u), UPull ReadSoon (Some u),
     UPull CurrentlyReading (Some u), UPull Finished (Some u)] b) = (status_of b)(u := None)"
  by (auto simp: status_of_def)

lemma status_request_update:
  "op_update (status_request t bid u) =
     Some (case t of
             None \<Rightarrow> [UPull Wishlist (Some u), UPull ReadSoon (Some u),
                      UPull CurrentlyReading (Some u), UPull Finished (Some u)]
           | Some s \<Rightarrow> move_update s (Some u) [u])"
  "op_id (status_request t bid u) = bid"
  by (cases t; cases "the t"; simp)+

lemma status_request_effect:
  assumes "status_disjoint b"
  shows "status_of (apply_update (case t of
             None \<Rightarrow> [UPull Wishlist (Some u), UPull ReadSoon (Some u),
                      UPull CurrentlyReading (Some u), UPull Finished (Some u)]
           | Some s \<Rightarrow> move_update s (Some u) [u]) b) = (status_of b)(u := t)"
proof (cases t)
  case None
  with status_of_pull_all[of u b] show ?thesis by simp
next
  case (Some s)
  have "status_of (apply_update (move_update s (Some u) ([] @ [u])) b) = (status_of b)(u := Some s)"
    by (rule move_status_of[OF assms, where ys = "[]"]) auto
  with Some show ?thesis by simp
qed

lemma status_request_conforms: "getBook bid st = Inr (Some b) \<Longrightarrow> conforming (status_request t bid u) st"
  by (cases t; cases "the t") (simp_all add: transition_conforms_def payload_conforms_def)

text \<open>
  C22: in every reachable store, any user can be given any reading status (or
  none) on any stored record by one conforming request, which changes no other
  user's status and leads to a reachable store.
\<close>

theorem status_always_settable:
  assumes "reachable st" and "getBook bid st = Inr (Some b)"
  shows "conforming (status_request t bid u) st \<and> reachable (snd (service_step (status_request t bid u) st)) \<and>
    (\<exists>b'. getBook bid (snd (service_step (status_request t bid u) st)) = Inr (Some b') \<and>
      status_of b' = (status_of b)(u := t))"
proof -
  let ?u = "case t of
             None \<Rightarrow> [UPull Wishlist (Some u), UPull ReadSoon (Some u),
                      UPull CurrentlyReading (Some u), UPull Finished (Some u)]
           | Some s \<Rightarrow> move_update s (Some u) [u]"
  have c: "conforming (status_request t bid u) st" using assms(2) by (rule status_request_conforms)
  have "\<not> update_conflict ?u" by (cases t) simp_all
  then obtain st' where r: "find_one_and_update bid ?u st = (Inr (Some (apply_update ?u b)), st')"
    and g: "getBook bid st' = Inr (Some (apply_update ?u b))"
    using update_found[OF assms(2)] by blast
  have step: "snd (service_step (status_request t bid u) st) = st'"
    using r by (simp add: service_step_update[OF status_request_update(1)] status_request_update(2))
  from assms(2) obtain oid where "cast_object_id bid = Some oid" and "lookup_id oid st = Some b"
    by (auto simp: getBook_Some)
  then have "status_disjoint b"
    using reachable_disjoint[OF assms(1)] lookup_id_Some by (fastforce simp: list_all_iff)
  then have "status_of (apply_update ?u b) = (status_of b)(u := t)" by (rule status_request_effect)
  with c g step reachable.step[OF assms(1) c] show ?thesis by auto
qed

lemma status_always_settable_witness:
  "reachable sample_reachable_store \<and> getBook (oid_of_nat 0) sample_reachable_store = Inr (Some (make_book (oid_of_nat 0) (book_fields.truncate sample_book))) \<and>
   conforming (status_request (Some FinishedS) (oid_of_nat 0) ''a@x.com'') sample_reachable_store \<and>
   reachable (snd (service_step (status_request (Some FinishedS) (oid_of_nat 0) ''a@x.com'') sample_reachable_store)) \<and>
   (\<exists>b'. getBook (oid_of_nat 0) (snd (service_step (status_request (Some FinishedS) (oid_of_nat 0) ''a@x.com'') sample_reachable_store)) = Inr (Some b') \<and>
      status_of b' = (status_of (make_book (oid_of_nat 0) (book_fields.truncate sample_book)))(''a@x.com'' := Some FinishedS))"
proof -
  have r: "reachable sample_reachable_store"
    unfolding sample_reachable_store_def
    by (rule reachable.step[OF reachable.init])
      (simp add: status_disjoint_def sample_book_def book_fields.defs empty_store_def)
  have g: "getBook (oid_of_nat 0) sample_reachable_store = Inr (Some (make_book (oid_of_nat 0) (book_fields.truncate sample_book)))"
    by (simp add: sample_reachable_store_def getBook_Some createBook_def insert_book_def Let_def
        cast_oid_of_nat lookup_id_def empty_store_def book_id_make_book)
  from r g status_always_settable[OF r g, of "Some FinishedS" "''a@x.com''"] show ?thesis by blast
qed

end
